(* ===== verification/Middfs_Prelude.thy ===== *)
theory Middfs_Prelude
  imports Main "HOL-Library.Word" "HOL-Library.Monad_Syntax"
begin

text \<open>
  What every theory of the development shares: the machine integers and the bytes of the C
  code, C strings, the outcome of an allocation, and lemmas on words, lists and the option
  monad.

  A C function that can stop the whole process (\<open>abort()\<close>, a failed \<open>assert\<close>, a step whose
  behaviour C leaves undefined, such as a second \<open>free\<close> of one block or a read through a null
  pointer) returns an \<open>option\<close>, and None is that outcome. Everything a function reports to
  its caller (-1, \<open>errno\<close>, \<open>*errp\<close>, a negated error code) is an ordinary value under Some.
  Such functions are written in the do notation of the option monad.
\<close>

unbundle bit_operations_syntax

section \<open>Types\<close>

type_synonym byte = "8 word"
type_synonym u32 = "32 word"
type_synonym u64 = "64 word"

text \<open>A \<open>char *\<close>: None is the null pointer, Some s a NUL-terminated block with contents s.\<close>

type_synonym cstr = "string option"

named_theorems wf_simps \<open>unfolding rules of the well-formedness predicates\<close>

definition str_ok :: "string \<Rightarrow> bool" where
  "str_ok s \<longleftrightarrow> CHR 0x00 \<notin> set s"

definition cstr_ok :: "cstr \<Rightarrow> bool" where
  "cstr_ok p \<longleftrightarrow> (case p of None \<Rightarrow> False | Some s \<Rightarrow> str_ok s)"

declare str_ok_def [wf_simps] cstr_ok_def [wf_simps]

lemma cstr_okE: "cstr_ok p \<Longrightarrow> (\<And>s. p = Some s \<Longrightarrow> str_ok s \<Longrightarrow> thesis) \<Longrightarrow> thesis"
  by (auto simp: cstr_ok_def split: option.splits)

text \<open>
  The environment a run depends on and no function of the code decides: which request sizes
  the allocator can serve, what the i-th uninitialised 32-bit local variable of a function
  happens to hold, what byte i of freshly allocated memory does, and which strings \<open>putenv\<close>
  has room for.
\<close>

record cenv =
  can_alloc :: "nat \<Rightarrow> bool"
  indet32 :: "nat \<Rightarrow> u32"
  indet_byte :: "nat \<Rightarrow> byte"
  can_put :: "string \<Rightarrow> bool"

definition alloc_upto :: "cenv \<Rightarrow> nat \<Rightarrow> bool" where
  "alloc_upto E n \<longleftrightarrow> (\<forall>k \<le> n. can_alloc E k)"

lemma alloc_uptoD: "alloc_upto E n \<Longrightarrow> k \<le> n \<Longrightarrow> can_alloc E k"
  by (simp add: alloc_upto_def)

lemma alloc_upto_mono: "alloc_upto E n \<Longrightarrow> m \<le> n \<Longrightarrow> alloc_upto E m"
  by (auto simp: alloc_upto_def)

section \<open>Words\<close>

lemma unat_u64_less [simp]: "unat (w :: u64) < 18446744073709551616"
  using unsigned_less [of w] by simp

lemma unat_u64_bound: "unat (w :: u64) < 2 ^ 64"
  by simp

lemma unat_u64_le: "unat (w :: u64) \<le> 18446744073709551615"
  using unat_u64_less [of w] by linarith

lemma unat_add_u64:
  "unat x + unat y < 2 ^ 64 \<Longrightarrow> unat (x + y :: u64) = unat x + unat y"
  by (simp add: unat_word_ariths)

lemma unat_of_nat_u64: "n < 2 ^ 64 \<Longrightarrow> unat (word_of_nat n :: u64) = n"
  by (simp add: unat_of_nat)

lemma unat_of_nat_u64_le: "unat (word_of_nat n :: u64) \<le> n"
  by (simp add: unat_of_nat)

lemma word_of_unat_eq: "unat (w :: u64) = n \<Longrightarrow> w = word_of_nat n"
  by auto

lemma word_of_nat_u64_inj:
  assumes "word_of_nat m = (word_of_nat n :: u64)" "m < 2 ^ 64" "n < 2 ^ 64"
  shows "m = n"
  using arg_cong [OF assms(1), of unat] assms(2,3) by (simp only: unat_of_nat_u64)

lemma sint_narrow: "0 \<le> n \<Longrightarrow> n < 2 ^ 31 \<Longrightarrow> sint (ucast (word_of_int n :: u64) :: u32) = n"
proof -
  assume a: "0 \<le> n" "n < 2 ^ 31"
  then obtain k where k: "n = int k" by (metis nonneg_int_cases)
  then have t: "take_bit 64 k = k" using a by (intro take_bit_nat_eq_self) simp
  have "sint (ucast (word_of_int n :: u64) :: u32) = signed_take_bit 31 n"
    by (simp add: k unsigned_of_nat t signed_of_nat)
  also have "\<dots> = n" using a by (intro signed_take_bit_int_eq_self) simp_all
  finally show ?thesis .
qed

lemma sint_unat_small: "unat (w :: u64) < 2 ^ 63 \<Longrightarrow> sint w = int (unat w)"
proof -
  assume a: "unat w < 2 ^ 63"
  have k: "k < 2 ^ 63 \<Longrightarrow> sint (word_of_nat k :: u64) = int k" for k
    by (simp add: signed_of_nat signed_take_bit_int_eq_self)
  have "word_of_nat (unat w) = w" by simp
  with k [OF a] show ?thesis by (simp only:)
qed

section \<open>Bytes and characters\<close>

definition byte_of_char :: "char \<Rightarrow> byte" where
  "byte_of_char c = word_of_nat (of_char c)"

definition char_of_byte :: "byte \<Rightarrow> char" where
  "char_of_byte b = char_of (unat b)"

lemma unat_byte_of_char: "unat (byte_of_char c) = of_char c"
proof -
  have "of_char c < (256::nat)" by simp
  then show ?thesis
    unfolding byte_of_char_def by (simp only: unat_of_nat) simp
qed

lemma char_of_byte_of_char [simp]: "char_of_byte (byte_of_char c) = c"
  by (simp add: char_of_byte_def unat_byte_of_char)

lemma byte_of_char_of_byte [simp]: "byte_of_char (char_of_byte b) = b"
proof -
  have "unat b < 256" using unsigned_less [of b] by simp
  then show ?thesis by (simp add: byte_of_char_def char_of_byte_def)
qed

lemma byte_of_char_nul: "byte_of_char (CHR 0x00) = 0"
  by (simp add: byte_of_char_def)

lemma byte_of_char_eq_0 [simp]: "byte_of_char c = 0 \<longleftrightarrow> c = CHR 0x00"
  by (metis byte_of_char_nul char_of_byte_of_char)

lemma char_of_byte_eq_nul [simp]: "char_of_byte b = CHR 0x00 \<longleftrightarrow> b = 0"
  using byte_of_char_eq_0 [of "char_of_byte b"] by simp

text \<open>The bytes of a C string in memory: its characters, then the terminating NUL.\<close>

definition str_bytes :: "string \<Rightarrow> byte list" where
  "str_bytes s = map byte_of_char s @ [0]"

lemma length_str_bytes [simp]: "length (str_bytes s) = Suc (length s)"
  by (simp add: str_bytes_def)

section \<open>Memory blocks\<close>

text \<open>
  A block of memory, from a pointer into it to its end, is the list of its bytes. Reading or
  writing past the end of the block is None: C leaves it undefined.
\<close>

definition mem_read :: "byte list \<Rightarrow> nat \<Rightarrow> byte list option" where
  "mem_read mem k = (if k \<le> length mem then Some (take k mem) else None)"

definition mem_write :: "byte list \<Rightarrow> byte list \<Rightarrow> byte list option" where
  "mem_write mem bs =
     (if length bs \<le> length mem then Some (bs @ drop (length bs) mem) else None)"

lemma mem_read_Some [simp]: "k \<le> length mem \<Longrightarrow> mem_read mem k = Some (take k mem)"
  by (simp add: mem_read_def)

lemma mem_write_Some [simp]:
  "length bs \<le> length mem \<Longrightarrow> mem_write mem bs = Some (bs @ drop (length bs) mem)"
  by (simp add: mem_write_def)

section \<open>Lists\<close>

lemma take_add_split: "take (m + n) xs = take m xs @ take n (drop m xs)"
  by (rule take_add)

lemma take_append_of_take:
  "take (length a) xs = a \<Longrightarrow> take (length b) (drop (length a) xs) = b \<Longrightarrow>
   take (length a + length b) xs = a @ b"
  by (simp add: take_add)

lemma take_take_le: "m \<le> n \<Longrightarrow> take n xs = e \<Longrightarrow> take m xs = take m e"
  by (metis min.absorb1 take_take)

lemma takeWhile_map_bytes:
  "str_ok s \<Longrightarrow> takeWhile (\<lambda>b. b \<noteq> 0) (map byte_of_char s @ 0 # rest) = map byte_of_char s"
  by (induction s) (auto simp: str_ok_def)

lemma list_all2_if:
  "(c \<Longrightarrow> P x y) \<Longrightarrow>
   list_all2 P (if c then [x] else []) (if c then [y] else [])"
  by simp

lemma member_length_concat: "e \<in> set es \<Longrightarrow> length e \<le> length (concat es)"
  by (induction es) auto

section \<open>The option monad\<close>

lemma bind_Some_iff: "Option.bind m f = Some y \<longleftrightarrow> (\<exists>x. m = Some x \<and> f x = Some y)"
  by (cases m) auto

lemma bind_SomeE:
  "Option.bind m f = Some y \<Longrightarrow> (\<And>x. m = Some x \<Longrightarrow> f x = Some y \<Longrightarrow> thesis) \<Longrightarrow> thesis"
  by (auto simp: bind_Some_iff)

text \<open>Rules that show a function of the monad is defined, one program construct at a time.\<close>

named_theorems defined_intros \<open>when a function of the option monad is defined\<close>

lemma bind_defined [defined_intros]:
  "m \<noteq> None \<Longrightarrow> (\<And>x. m = Some x \<Longrightarrow> f x \<noteq> None) \<Longrightarrow> Option.bind m f \<noteq> None"
  by (cases m) auto

lemma if_defined [defined_intros]:
  "(c \<Longrightarrow> a \<noteq> None) \<Longrightarrow> (\<not> c \<Longrightarrow> b \<noteq> None) \<Longrightarrow> (if c then a else b) \<noteq> None"
  by simp

lemma case_prod_defined [defined_intros]:
  "(\<And>a b. s = (a, b) \<Longrightarrow> f a b \<noteq> None) \<Longrightarrow> (case s of (a, b) \<Rightarrow> f a b) \<noteq> None"
  by (cases s) simp

lemma let_defined [defined_intros]: "f x \<noteq> None \<Longrightarrow> (let y = x in f y) \<noteq> None"
  by simp

lemma map_option_defined [defined_intros]: "m \<noteq> None \<Longrightarrow> map_option f m \<noteq> None"
  by simp

lemma Some_defined [defined_intros]: "Some x \<noteq> None"
  by simp

end
