(* ===== verification/Middfs_Util.thy ===== *)
theory Middfs_Util
  imports Middfs_Prelude "HOL-Library.List_Lexorder" "HOL-Library.Char_ord"
begin

text \<open>
  The helpers of \<open>lib/middfs-util.c\<close> (\<open>sizerem\<close>, \<open>smin\<close>, \<open>smax\<close>, \<open>memdup\<close>) and the
  functions of the C library the components call on strings and memory.
\<close>

section \<open>Sizes\<close>

definition sizerem :: "u64 \<Rightarrow> u64 \<Rightarrow> u64" where
  "sizerem nbytes used = (if used \<le> nbytes then nbytes - used else 0)"

definition smin :: "u64 \<Rightarrow> u64 \<Rightarrow> u64" where
  "smin s1 s2 = (if s1 < s2 then s1 else s2)"

definition smax :: "u64 \<Rightarrow> u64 \<Rightarrow> u64" where
  "smax s1 s2 = (if s1 < s2 then s2 else s1)"

text \<open>\<open>sizerem\<close> is the subtraction of \<open>nat\<close>: it stops at 0 and never wraps.\<close>

lemma unat_sizerem [simp]: "unat (sizerem nbytes used) = unat nbytes - unat used"
  by (auto simp: sizerem_def word_le_nat_alt unat_sub_if')

lemma sizerem_0 [simp]: "sizerem nbytes 0 = nbytes" "sizerem 0 used = 0"
  by (simp_all add: sizerem_def)

lemma unat_smin [simp]: "unat (smin s1 s2) = min (unat s1) (unat s2)"
  by (auto simp: smin_def word_less_nat_alt)

lemma unat_smax [simp]: "unat (smax s1 s2) = max (unat s1) (unat s2)"
  by (auto simp: smax_def word_less_nat_alt)

section \<open>Error numbers\<close>

definition EPERM :: int where "EPERM = 1"
definition ENOENT :: int where "ENOENT = 2"
definition EINTR :: int where "EINTR = 4"
definition EIO :: int where "EIO = 5"
definition EXDEV :: int where "EXDEV = 18"
definition EINVAL :: int where "EINVAL = 22"
definition EOPNOTSUPP :: int where "EOPNOTSUPP = 95"

section \<open>Memory\<close>

text \<open>
  \<open>memdup\<close> copies sz bytes into a block of its own; the inner None is the null pointer it
  returns when \<open>malloc\<close> fails, the outer None a read past the end of the source block.
\<close>

definition memdup :: "cenv \<Rightarrow> byte list \<Rightarrow> u64 \<Rightarrow> byte list option option" where
  "memdup E ptr sz =
     (if can_alloc E (unat sz) then map_option Some (mem_read ptr (unat sz))
      else Some None)"

text \<open>\<open>calloc\<close> checks the product of its arguments for overflow before it allocates.\<close>

definition calloc_ok :: "cenv \<Rightarrow> u64 \<Rightarrow> nat \<Rightarrow> bool" where
  "calloc_ok E nmemb sz \<longleftrightarrow>
     uint nmemb * int sz < 2 ^ 64 \<and> can_alloc E (unat nmemb * sz)"

lemma calloc_okI:
  assumes "unat nmemb * sz < 2 ^ 64" "can_alloc E (unat nmemb * sz)"
  shows "calloc_ok E nmemb sz"
proof -
  have "int (unat nmemb * sz) < int (2 ^ 64)" using assms(1) by (simp only: of_nat_less_iff)
  then have "uint nmemb * int sz < 2 ^ 64"
    by (simp only: of_nat_mult uint_nat of_nat_power of_nat_numeral)
  with assms(2) show ?thesis by (simp only: calloc_ok_def)
qed

text \<open>
  A pointer to an array on the heap: null, a block with its elements, or a block that was
  freed. The elements of an array of structures are options: None is a slot never written, or
  one whose contents have been released.
\<close>

datatype 'a block = Null | Live "'a list" | Freed

text \<open>The memory behind a pointer (none behind the null pointer), and changing it in place.\<close>

definition block_mem :: "'a block \<Rightarrow> 'a list option" where
  "block_mem b = (case b of Null \<Rightarrow> Some [] | Live m \<Rightarrow> Some m | Freed \<Rightarrow> None)"

definition block_set :: "'a block \<Rightarrow> 'a list \<Rightarrow> 'a block" where
  "block_set b m = (case b of Live _ \<Rightarrow> Live m | _ \<Rightarrow> b)"

definition PTRDIFF_MAX :: u64 where "PTRDIFF_MAX = 0x7FFFFFFFFFFFFFFF"

text \<open>
  \<open>realloc(b, nmemb * sz)\<close> of an array of structures of sz bytes. The product is computed
  modulo 2 to the 64, so the block can hold fewer elements than nmemb; the inner None is the
  null pointer, the outer None a use the C library does not define (a freed block, size 0).
\<close>

definition realloc_slots ::
    "cenv \<Rightarrow> 'a option block \<Rightarrow> u64 \<Rightarrow> u64 \<Rightarrow> 'a option block option option" where
  "realloc_slots E b nmemb sz = do {
     v \<leftarrow> block_mem b;
     let bytes = nmemb * sz;
     let k = unat bytes div unat sz;
     if bytes = 0 then None
     else if bytes \<le> PTRDIFF_MAX \<and> can_alloc E (unat bytes)
     then Some (Some (Live (take k v @ replicate (k - length v) None)))
     else Some None
   }"

text \<open>Reading and writing a slot: past the end of the block both are undefined.\<close>

definition slot_get :: "'a option block \<Rightarrow> nat \<Rightarrow> 'a option" where
  "slot_get b i = do { v \<leftarrow> block_mem b; if i < length v then v ! i else None }"

definition slot_set :: "'a option block \<Rightarrow> nat \<Rightarrow> 'a option \<Rightarrow> 'a option block option" where
  "slot_set b i x = do {
     v \<leftarrow> block_mem b;
     if i < length v then Some (block_set b (v[i := x])) else None
   }"

section \<open>Strings\<close>

text \<open>
  \<open>strdup\<close>: the inner None is the null pointer of a failed allocation, the outer None the
  undefined copy of a null pointer.
\<close>

definition strdup :: "cenv \<Rightarrow> cstr \<Rightarrow> cstr option" where
  "strdup E p = do { s \<leftarrow> p; Some (if can_alloc E (length s + 1) then Some s else None) }"

text \<open>
  \<open>strnlen\<close> on raw memory: the number of bytes before the first NUL, n at most. It reads up
  to that NUL or n bytes, and is undefined when the block ends before either.
\<close>

definition strnlen :: "byte list \<Rightarrow> u64 \<Rightarrow> u64 option" where
  "strnlen mem n =
     (if unat n \<le> length mem \<or> 0 \<in> set mem
      then Some (word_of_nat (length (takeWhile (\<lambda>b. b \<noteq> 0) (take (unat n) mem))))
      else None)"

lemma strnlen_Some:
  assumes "unat n \<le> length mem"
  obtains len where "strnlen mem n = Some len"
    "unat len = length (takeWhile (\<lambda>b. b \<noteq> 0) (take (unat n) mem))" "unat len \<le> unat n"
proof -
  let ?l = "length (takeWhile (\<lambda>b. b \<noteq> 0) (take (unat n) mem))"
  have le: "?l \<le> unat n"
    by (rule le_trans [OF length_takeWhile_le]) simp
  then have "?l < 2 ^ 64" using unat_u64_bound [of n] by (rule le_less_trans)
  then have "unat (word_of_nat ?l :: u64) = ?l" by (rule unat_of_nat_u64)
  with le assms show thesis by (intro that) (auto simp: strnlen_def)
qed

text \<open>
  \<open>strcmp\<close> compares as unsigned bytes; the model returns -1, 0 or 1 for the sign of the C
  result, the only thing its callers read.
\<close>

fun strcmp :: "string \<Rightarrow> string \<Rightarrow> int" where
  "strcmp [] [] = 0"
| "strcmp [] (d # ds) = -1"
| "strcmp (c # cs) [] = 1"
| "strcmp (c # cs) (d # ds) = (if c = d then strcmp cs ds else if c < d then -1 else 1)"

lemma strcmp_eq_0 [simp]: "strcmp s t = 0 \<longleftrightarrow> s = t"
  by (induction s t rule: strcmp.induct) auto

lemma strcmp_less_0 [simp]: "strcmp s t < 0 \<longleftrightarrow> s < t"
  by (induction s t rule: strcmp.induct) auto

lemma strcmp_greater_0 [simp]: "0 < strcmp s t \<longleftrightarrow> t < s"
  by (induction s t rule: strcmp.induct) (auto simp: not_less)

end
