(* ===== verification/Middfs_Conf.thy ===== *)
theory Middfs_Conf
  imports Middfs_Util
begin

text \<open>
  The configuration of \<open>lib/middfs-conf.c\<close>. Variables live in the process environment under
  the prefix MIDDFS_; the state of this component is that environment, a map from names to
  values. The stubs \<open>conf_set\<close> and \<open>conf_unset\<close> only abort.
\<close>

type_synonym environ = "string \<rightharpoonup> string"

definition MIDDFS_CONF_USERNAME :: string where "MIDDFS_CONF_USERNAME = ''username''"
definition MIDDFS_CONF_LOCALPORT :: string where "MIDDFS_CONF_LOCALPORT = ''localport''"
definition MIDDFS_CONF_SERVERPORT :: string where "MIDDFS_CONF_SERVERPORT = ''serverport''"
definition MIDDFS_CONF_HOMEPATH :: string where "MIDDFS_CONF_HOMEPATH = ''homepath''"
definition MIDDFS_CONF_SERVERIP :: string where "MIDDFS_CONF_SERVERIP = ''serverip''"

section \<open>Lookup\<close>

text \<open>\<open>asprintf\<close> of the prefixed name fails when its block cannot be allocated.\<close>

definition conf_envvar :: "cenv \<Rightarrow> string \<Rightarrow> cstr" where
  "conf_envvar E nm =
     (let s = ''MIDDFS_'' @ nm in if can_alloc E (length s + 1) then Some s else None)"

definition conf_get :: "cenv \<Rightarrow> environ \<Rightarrow> string \<Rightarrow> cstr" where
  "conf_get E env nm = (case conf_envvar E nm of None \<Rightarrow> None | Some v \<Rightarrow> env v)"

text \<open>
  \<open>strtoull\<close> with base 0: white space, an optional sign, then hexadecimal after 0x, octal
  after 0, decimal otherwise. It returns the value and the text its end pointer points to,
  which is the whole input when there is no digit; an overflow gives the largest value.
\<close>

definition isspace :: "char \<Rightarrow> bool" where
  "isspace c \<longleftrightarrow> of_char c = (32::nat) \<or> (9 \<le> (of_char c :: nat) \<and> of_char c \<le> (13::nat))"

definition digit_val :: "char \<Rightarrow> nat option" where
  "digit_val c =
     (let n = of_char c in
      if 48 \<le> n \<and> n \<le> 57 then Some (n - 48)
      else if 97 \<le> n \<and> n \<le> 122 then Some (n - 87)
      else if 65 \<le> n \<and> n \<le> 90 then Some (n - 55)
      else None)"

definition is_digit :: "nat \<Rightarrow> char \<Rightarrow> bool" where
  "is_digit base c \<longleftrightarrow> (case digit_val c of None \<Rightarrow> False | Some d \<Rightarrow> d < base)"

fun read_digits :: "nat \<Rightarrow> nat \<Rightarrow> string \<Rightarrow> nat \<times> string" where
  "read_digits base acc [] = (acc, [])"
| "read_digits base acc (c # cs) =
     (if is_digit base c then read_digits base (acc * base + the (digit_val c)) cs
      else (acc, c # cs))"

fun split_sign :: "string \<Rightarrow> bool \<times> string" where
  "split_sign [] = (False, [])"
| "split_sign (c # s) =
     (if c = CHR ''-'' then (True, s) else if c = CHR ''+'' then (False, s)
      else (False, c # s))"

definition split_base :: "string \<Rightarrow> nat \<times> string" where
  "split_base s =
     (case s of
        z # x # h # r \<Rightarrow>
          if z = CHR ''0'' \<and> (x = CHR ''x'' \<or> x = CHR ''X'') \<and> is_digit 16 h
          then (16, h # r) else if z = CHR ''0'' then (8, s) else (10, s)
      | z # r \<Rightarrow> if z = CHR ''0'' then (8, s) else (10, s)
      | [] \<Rightarrow> (10, s))"

definition strtoull :: "string \<Rightarrow> u64 \<times> string" where
  "strtoull str =
     (let (neg, s) = split_sign (dropWhile isspace str);
          (base, ds) = split_base s
      in case ds of
           [] \<Rightarrow> (0, str)
         | d # _ \<Rightarrow>
             if is_digit base d then
               (let (v, rest) = read_digits base 0 ds in
                (if int v \<ge> 2 ^ 64 then - 1 else if neg then - word_of_nat v else word_of_nat v,
                 rest))
             else (0, str))"

text \<open>The value and the new \<open>*errp\<close>, which is set to 1 on an error and left alone otherwise.\<close>

definition conf_get_ull :: "cenv \<Rightarrow> environ \<Rightarrow> string \<Rightarrow> int \<Rightarrow> u64 \<times> int" where
  "conf_get_ull E env nm err =
     (case conf_get E env nm of
        None \<Rightarrow> (0, 1)
      | Some str \<Rightarrow>
          (let (val, endptr) = strtoull str in
           if str = [] \<or> endptr \<noteq> [] then (0, 1) else (val, err)))"

definition conf_get_uint32 :: "cenv \<Rightarrow> environ \<Rightarrow> string \<Rightarrow> int \<Rightarrow> u32 \<times> int" where
  "conf_get_uint32 E env nm err = (let (v, e) = conf_get_ull E env nm err in (ucast v, e))"

definition conf_get_uint64 :: "cenv \<Rightarrow> environ \<Rightarrow> string \<Rightarrow> int \<Rightarrow> u64 \<times> int" where
  "conf_get_uint64 E env nm err = conf_get_ull E env nm err"

section \<open>Update\<close>

text \<open>
  \<open>putenv\<close> stores the text before the first = as the name and the rest as the value; the
  C library removes the variable when the string has no =. It fails when the environment
  cannot grow, which \<open>can_put\<close> says.
\<close>

definition putenv :: "string \<Rightarrow> environ \<Rightarrow> environ" where
  "putenv s env =
     (let nm = takeWhile (\<lambda>c. c \<noteq> CHR ''='') s in
      if CHR ''='' \<in> set s then env(nm \<mapsto> drop (length nm + 1) s) else env(nm := None))"

definition conf_put :: "cenv \<Rightarrow> string \<Rightarrow> environ \<Rightarrow> int \<times> environ" where
  "conf_put E str env =
     (case conf_envvar E str of
        None \<Rightarrow> (-1, env)
      | Some envstr \<Rightarrow> if \<not> can_put E envstr then (-1, env) else (0, putenv envstr env))"

definition conf_set :: "string \<Rightarrow> string \<Rightarrow> int \<Rightarrow> environ \<Rightarrow> (int \<times> environ) option" where
  "conf_set nm val overwrite env = None"

definition conf_unset :: "string \<Rightarrow> environ \<Rightarrow> (int \<times> environ) option" where
  "conf_unset nm env = None"

section \<open>Loading a file\<close>

definition CONF_LOAD_MAXLINE :: nat where "CONF_LOAD_MAXLINE = 1024"

text \<open>
  \<open>fgets\<close> takes the characters up to and including the next newline, n - 1 at most, and
  returns NULL (None) at the end of the file.
\<close>

fun fgets_line :: "nat \<Rightarrow> string \<Rightarrow> string \<times> string" where
  "fgets_line 0 s = ([], s)"
| "fgets_line (Suc n) [] = ([], [])"
| "fgets_line (Suc n) (c # s) =
     (if c = CHR 0x0A then ([c], s) else (let (l, r) = fgets_line n s in (c # l, r)))"

lemma fgets_line_append: "fgets_line n s = (l, r) \<Longrightarrow> s = l @ r"
  by (induction n s arbitrary: l r rule: fgets_line.induct) (auto split: if_splits prod.splits)

lemma fgets_line_nonempty: "0 < n \<Longrightarrow> s \<noteq> [] \<Longrightarrow> fgets_line n s = (l, r) \<Longrightarrow> l \<noteq> []"
  by (cases n; cases s) (auto split: if_splits prod.splits)

text \<open>The text of a line before a comment, a newline or a NUL: \<open>strcspn\<close> with the set #, newline.\<close>

definition strip_line :: "string \<Rightarrow> string" where
  "strip_line l = takeWhile (\<lambda>c. c \<noteq> CHR ''#'' \<and> c \<noteq> CHR 0x0A \<and> c \<noteq> CHR 0x00) l"

function conf_load_loop :: "cenv \<Rightarrow> string \<Rightarrow> environ \<Rightarrow> int \<times> environ" where
  "conf_load_loop E content env =
     (if content = [] then (0, env)
      else (let (line, rest) = fgets_line (CONF_LOAD_MAXLINE - 1) content;
                (retv, env') = conf_put E (strip_line line) env
            in if retv < 0 then (-1, env') else conf_load_loop E rest env'))"
  by pat_completeness auto
termination
proof (relation "measure (\<lambda>(E, content, env). length content)", goal_cases)
  case 1
  show ?case by simp
next
  case (2 E content env lr line rest pe retv env')
  then have "fgets_line (CONF_LOAD_MAXLINE - 1) content = (line, rest)" by simp
  moreover have "0 < CONF_LOAD_MAXLINE - 1" by (simp add: CONF_LOAD_MAXLINE_def)
  ultimately have "line \<noteq> []" "content = line @ rest"
    using 2 fgets_line_nonempty fgets_line_append by blast+
  then show ?case by simp
qed

declare conf_load_loop.simps [simp del]

text \<open>
  The file is None when \<open>fopen\<close> fails. ferr and cerr say whether \<open>ferror\<close> or \<open>fclose\<close>
  report an error after the last line.
\<close>

definition conf_load :: "cenv \<Rightarrow> string option \<Rightarrow> bool \<Rightarrow> bool \<Rightarrow> environ \<Rightarrow> int \<times> environ" where
  "conf_load E file ferr cerr env =
     (case file of
        None \<Rightarrow> (-1, env)
      | Some content \<Rightarrow>
          (let (retv, env') = conf_load_loop E content env in
           (if retv < 0 then -1 else if ferr \<or> cerr then -1 else 0, env')))"

end
