(* ===== verification/Middfs_Packet.thy ===== *)
theory Middfs_Packet
  imports Middfs_Conf
begin

text \<open>
  The data of the protocol: \<open>lib/middfs-pkt.h\<close>, \<open>lib/middfs-rsrc.h\<close> and the constructors of
  \<open>lib/middfs-pkt.c\<close>.

  A C enum read from the network holds any 32-bit value, so each enum is a datatype with the
  source's constructors and one more for the values that have no name. A C union is a datatype
  with one constructor per member and one for memory that is still all zero; reading another
  member than the one last written is outside the model (None).
\<close>

section \<open>Enumerations\<close>

datatype middfs_packet_type =
    MPKT_NONE
  | MPKT_CONNECT
  | MPKT_DISCONNECT
  | MPKT_REQUEST
  | MPKT_RESPONSE
  | MPKT_OTHER u32

fun mpkt_code :: "middfs_packet_type \<Rightarrow> u32" where
  "mpkt_code MPKT_NONE = 0"
| "mpkt_code MPKT_CONNECT = 1"
| "mpkt_code MPKT_DISCONNECT = 2"
| "mpkt_code MPKT_REQUEST = 3"
| "mpkt_code MPKT_RESPONSE = 4"
| "mpkt_code (MPKT_OTHER w) = w"

definition mpkt_of_code :: "u32 \<Rightarrow> middfs_packet_type" where
  "mpkt_of_code w =
     (if w = 0 then MPKT_NONE
      else if w = 1 then MPKT_CONNECT
      else if w = 2 then MPKT_DISCONNECT
      else if w = 3 then MPKT_REQUEST
      else if w = 4 then MPKT_RESPONSE
      else MPKT_OTHER w)"

datatype middfs_request_type =
    MREQ_NONE
  | MREQ_GETATTR
  | MREQ_ACCESS
  | MREQ_READLINK
  | MREQ_MKDIR
  | MREQ_SYMLINK
  | MREQ_UNLINK
  | MREQ_RMDIR
  | MREQ_RENAME
  | MREQ_CHMOD
  | MREQ_TRUNCATE
  | MREQ_OPEN
  | MREQ_CREATE
  | MREQ_READ
  | MREQ_WRITE
  | MREQ_READDIR
  | MREQ_OTHER u32

fun mreq_code :: "middfs_request_type \<Rightarrow> u32" where
  "mreq_code MREQ_NONE = 0"
| "mreq_code MREQ_GETATTR = 1"
| "mreq_code MREQ_ACCESS = 2"
| "mreq_code MREQ_READLINK = 3"
| "mreq_code MREQ_MKDIR = 4"
| "mreq_code MREQ_SYMLINK = 5"
| "mreq_code MREQ_UNLINK = 6"
| "mreq_code MREQ_RMDIR = 7"
| "mreq_code MREQ_RENAME = 8"
| "mreq_code MREQ_CHMOD = 9"
| "mreq_code MREQ_TRUNCATE = 10"
| "mreq_code MREQ_OPEN = 11"
| "mreq_code MREQ_CREATE = 12"
| "mreq_code MREQ_READ = 13"
| "mreq_code MREQ_WRITE = 14"
| "mreq_code MREQ_READDIR = 15"
| "mreq_code (MREQ_OTHER w) = w"

definition mreq_of_code :: "u32 \<Rightarrow> middfs_request_type" where
  "mreq_of_code w =
     (if w = 0 then MREQ_NONE
      else if w = 1 then MREQ_GETATTR
      else if w = 2 then MREQ_ACCESS
      else if w = 3 then MREQ_READLINK
      else if w = 4 then MREQ_MKDIR
      else if w = 5 then MREQ_SYMLINK
      else if w = 6 then MREQ_UNLINK
      else if w = 7 then MREQ_RMDIR
      else if w = 8 then MREQ_RENAME
      else if w = 9 then MREQ_CHMOD
      else if w = 10 then MREQ_TRUNCATE
      else if w = 11 then MREQ_OPEN
      else if w = 12 then MREQ_CREATE
      else if w = 13 then MREQ_READ
      else if w = 14 then MREQ_WRITE
      else if w = 15 then MREQ_READDIR
      else MREQ_OTHER w)"

datatype middfs_response_type =
    MRSP_OK
  | MRSP_DATA
  | MRSP_STAT
  | MRSP_DIR
  | MRSP_ERROR
  | MRSP_OTHER u32

fun mrsp_code :: "middfs_response_type \<Rightarrow> u32" where
  "mrsp_code MRSP_OK = 0"
| "mrsp_code MRSP_DATA = 1"
| "mrsp_code MRSP_STAT = 2"
| "mrsp_code MRSP_DIR = 3"
| "mrsp_code MRSP_ERROR = 4"
| "mrsp_code (MRSP_OTHER w) = w"

definition mrsp_of_code :: "u32 \<Rightarrow> middfs_response_type" where
  "mrsp_of_code w =
     (if w = 0 then MRSP_OK
      else if w = 1 then MRSP_DATA
      else if w = 2 then MRSP_STAT
      else if w = 3 then MRSP_DIR
      else if w = 4 then MRSP_ERROR
      else MRSP_OTHER w)"

lemma mpkt_code_of_code [simp]: "mpkt_code (mpkt_of_code w) = w"
  by (simp add: mpkt_of_code_def)

lemma mreq_code_of_code [simp]: "mreq_code (mreq_of_code w) = w"
  by (simp add: mreq_of_code_def)

lemma mrsp_code_of_code [simp]: "mrsp_code (mrsp_of_code w) = w"
  by (simp add: mrsp_of_code_def)

text \<open>A value of the enum written in its one canonical form.\<close>

definition mpkt_ok :: "middfs_packet_type \<Rightarrow> bool" where
  "mpkt_ok t \<longleftrightarrow> mpkt_of_code (mpkt_code t) = t"

definition mreq_ok :: "middfs_request_type \<Rightarrow> bool" where
  "mreq_ok t \<longleftrightarrow> mreq_of_code (mreq_code t) = t"

lemma mpkt_ok_of_code [simp]: "mpkt_ok (mpkt_of_code w)"
  by (simp add: mpkt_ok_def)

lemma mreq_ok_of_code [simp]: "mreq_ok (mreq_of_code w)"
  by (simp add: mreq_ok_def)

lemma mrsp_of_code_named: "(\<forall>w. t \<noteq> MRSP_OTHER w) \<Longrightarrow> mrsp_of_code (mrsp_code t) = t"
  by (cases t) (auto simp: mrsp_of_code_def)

section \<open>Structures\<close>

record rsrc =
  mr_owner :: cstr
  mr_path :: cstr

record middfs_request =
  mreq_type :: middfs_request_type
  mreq_requester :: cstr
  mreq_rsrc :: rsrc
  mreq_mode :: u32
  mreq_size :: u64
  mreq_to :: rsrc
  mreq_off :: u64
  mreq_data :: "byte list option"

record middfs_stat =
  mstat_mode :: u32
  mstat_size :: u64
  mstat_blocks :: u64
  mstat_blksize :: u64

record middfs_data =
  mdata_buf :: "byte list option"
  mdata_nbytes :: u64

record middfs_dirent =
  mde_name :: cstr
  mde_mode :: u32

record middfs_dir =
  mdir_count :: u64
  mdir_ents :: "middfs_dirent list option"

datatype rsp_un =
    Rsp_zero
  | Rsp_data middfs_data
  | Rsp_error u32
  | Rsp_stat middfs_stat
  | Rsp_dir middfs_dir

record middfs_response =
  mrsp_type :: middfs_response_type
  mrsp_un :: rsp_un

record middfs_connect =
  conn_name :: cstr
  conn_port :: u32

datatype pkt_un =
    Pkt_zero
  | Pkt_request middfs_request
  | Pkt_response middfs_response
  | Pkt_connect middfs_connect

record middfs_packet =
  mpkt_magic :: u32
  mpkt_type :: middfs_packet_type
  mpkt_un :: pkt_un

definition MPKT_MAGIC :: u32 where "MPKT_MAGIC = 1800"

subsection \<open>Zeroed memory\<close>

definition zero_rsrc :: rsrc where
  "zero_rsrc = \<lparr>mr_owner = None, mr_path = None\<rparr>"

definition zero_request :: middfs_request where
  "zero_request =
     \<lparr>mreq_type = MREQ_NONE, mreq_requester = None, mreq_rsrc = zero_rsrc, mreq_mode = 0,
      mreq_size = 0, mreq_to = zero_rsrc, mreq_off = 0, mreq_data = None\<rparr>"

definition zero_stat :: middfs_stat where
  "zero_stat = \<lparr>mstat_mode = 0, mstat_size = 0, mstat_blocks = 0, mstat_blksize = 0\<rparr>"

definition zero_data :: middfs_data where
  "zero_data = \<lparr>mdata_buf = None, mdata_nbytes = 0\<rparr>"

definition zero_dirent :: middfs_dirent where
  "zero_dirent = \<lparr>mde_name = None, mde_mode = 0\<rparr>"

definition zero_dir :: middfs_dir where
  "zero_dir = \<lparr>mdir_count = 0, mdir_ents = None\<rparr>"

definition zero_response :: middfs_response where
  "zero_response = \<lparr>mrsp_type = MRSP_OK, mrsp_un = Rsp_zero\<rparr>"

definition zero_connect :: middfs_connect where
  "zero_connect = \<lparr>conn_name = None, conn_port = 0\<rparr>"

definition zero_packet :: middfs_packet where
  "zero_packet = \<lparr>mpkt_magic = 0, mpkt_type = MPKT_NONE, mpkt_un = Pkt_zero\<rparr>"

subsection \<open>Reading a union\<close>

definition get_data :: "rsp_un \<Rightarrow> middfs_data option" where
  "get_data u = (case u of Rsp_zero \<Rightarrow> Some zero_data | Rsp_data d \<Rightarrow> Some d | _ \<Rightarrow> None)"

definition get_error :: "rsp_un \<Rightarrow> u32 option" where
  "get_error u = (case u of Rsp_zero \<Rightarrow> Some 0 | Rsp_error e \<Rightarrow> Some e | _ \<Rightarrow> None)"

definition get_stat :: "rsp_un \<Rightarrow> middfs_stat option" where
  "get_stat u = (case u of Rsp_zero \<Rightarrow> Some zero_stat | Rsp_stat s \<Rightarrow> Some s | _ \<Rightarrow> None)"

definition get_dir :: "rsp_un \<Rightarrow> middfs_dir option" where
  "get_dir u = (case u of Rsp_zero \<Rightarrow> Some zero_dir | Rsp_dir d \<Rightarrow> Some d | _ \<Rightarrow> None)"

definition get_request :: "pkt_un \<Rightarrow> middfs_request option" where
  "get_request u =
     (case u of Pkt_zero \<Rightarrow> Some zero_request | Pkt_request r \<Rightarrow> Some r | _ \<Rightarrow> None)"

definition get_response :: "pkt_un \<Rightarrow> middfs_response option" where
  "get_response u =
     (case u of Pkt_zero \<Rightarrow> Some zero_response | Pkt_response r \<Rightarrow> Some r | _ \<Rightarrow> None)"

definition get_connect :: "pkt_un \<Rightarrow> middfs_connect option" where
  "get_connect u =
     (case u of Pkt_zero \<Rightarrow> Some zero_connect | Pkt_connect c \<Rightarrow> Some c | _ \<Rightarrow> None)"

named_theorems union_simps \<open>what reading a union member gives\<close>

declare get_data_def [union_simps] get_error_def [union_simps] get_stat_def [union_simps]
  get_dir_def [union_simps] get_request_def [union_simps] get_response_def [union_simps]
  get_connect_def [union_simps]

section \<open>Which request carries which field\<close>

definition req_has_mode :: "middfs_request_type \<Rightarrow> bool" where
  "req_has_mode t \<longleftrightarrow> t = MREQ_ACCESS \<or> t = MREQ_CHMOD \<or> t = MREQ_CREATE \<or> t = MREQ_OPEN"

definition req_has_size :: "middfs_request_type \<Rightarrow> bool" where
  "req_has_size t \<longleftrightarrow>
     t = MREQ_READLINK \<or> t = MREQ_TRUNCATE \<or> t = MREQ_READ \<or> t = MREQ_WRITE"

definition req_has_to :: "middfs_request_type \<Rightarrow> bool" where
  "req_has_to t \<longleftrightarrow> t = MREQ_SYMLINK \<or> t = MREQ_RENAME"

definition req_has_off :: "middfs_request_type \<Rightarrow> bool" where
  "req_has_off t \<longleftrightarrow> t = MREQ_READ \<or> t = MREQ_WRITE"

definition req_has_data :: "middfs_request_type \<Rightarrow> bool" where
  "req_has_data t \<longleftrightarrow> t = MREQ_WRITE"

text \<open>A request that carries data also carries the size of that data and an offset.\<close>

lemma req_has_data_size: "req_has_data t \<Longrightarrow> req_has_size t \<and> req_has_off t"
  by (simp add: req_has_data_def req_has_size_def req_has_off_def)

section \<open>Constructors\<close>

definition response_error :: "middfs_response \<Rightarrow> int \<Rightarrow> middfs_response" where
  "response_error rsp err = rsp\<lparr>mrsp_type := MRSP_ERROR, mrsp_un := Rsp_error (word_of_int err)\<rparr>"

definition packet_error :: "middfs_packet \<Rightarrow> int \<Rightarrow> middfs_packet" where
  "packet_error pkt err =
     pkt\<lparr>mpkt_magic := MPKT_MAGIC, mpkt_type := MPKT_RESPONSE,
         mpkt_un := Pkt_response \<lparr>mrsp_type = MRSP_ERROR, mrsp_un = Rsp_error (word_of_int err)\<rparr>\<rparr>"

definition request_init ::
    "cenv \<Rightarrow> environ \<Rightarrow> middfs_request \<Rightarrow> middfs_request_type \<Rightarrow> rsrc \<Rightarrow> middfs_request" where
  "request_init E env req t r =
     req\<lparr>mreq_type := t, mreq_requester := conf_get E env MIDDFS_CONF_USERNAME,
         mreq_rsrc := r\<rparr>"

definition response_init :: "middfs_response \<Rightarrow> middfs_response_type \<Rightarrow> middfs_response" where
  "response_init rsp t = rsp\<lparr>mrsp_type := t\<rparr>"

definition connect_init ::
    "cenv \<Rightarrow> environ \<Rightarrow> middfs_connect \<Rightarrow> int \<times> middfs_connect" where
  "connect_init E env conn =
     (let c = conn\<lparr>conn_name := conf_get E env MIDDFS_CONF_USERNAME\<rparr>;
          (p, err) = conf_get_uint32 E env MIDDFS_CONF_LOCALPORT 0
      in (if err \<noteq> 0 then -1 else 0, c\<lparr>conn_port := p\<rparr>))"

definition packet_init :: "middfs_packet \<Rightarrow> middfs_packet_type \<Rightarrow> middfs_packet" where
  "packet_init pkt t = pkt\<lparr>mpkt_magic := MPKT_MAGIC, mpkt_type := t\<rparr>"

end
