(* ===== verification/Middfs_Serial.thy ===== *)
theory Middfs_Serial
  imports Middfs_Packet
begin

text \<open>
  The serialisation functions of \<open>lib/middfs-serial.c\<close>.

  A serialiser takes the memory at \<open>buf\<close> (to the end of its block) and \<open>nbytes\<close>, and returns
  the number of bytes it reports and the memory after it. A deserialiser takes the memory at
  \<open>buf\<close>, \<open>nbytes\<close>, the old value of its target and the old \<open>*errp\<close>, and returns the number of
  bytes it reports, the new target and the new \<open>*errp\<close>. All sizes are 64-bit words and wrap.

  The code is a sequence of statements of the form
  \<open>used += f(x, buf_ + used, sizerem(nbytes, used))\<close>; such a statement is \<open>ser_next f\<close> or
  \<open>des_next f\<close>, and a sequence of them is the list of its steps, run by the loop of
  \<open>serialize_struct\<close> or \<open>deserialize_struct\<close>.
\<close>

section \<open>Serialisers\<close>

type_synonym sres = "(u64 \<times> byte list) option"
type_synonym serializer = "byte list \<Rightarrow> u64 \<Rightarrow> sres"

definition ser_next :: "serializer \<Rightarrow> u64 \<Rightarrow> u64 \<times> byte list \<Rightarrow> sres" where
  "ser_next f nbytes s =
     (case s of (used, buf) \<Rightarrow> do {
        (m, b) \<leftarrow> f (drop (unat used) buf) (sizerem nbytes used);
        Some (used + m, take (unat used) buf @ b)
      })"

fun ser_fields :: "serializer list \<Rightarrow> u64 \<Rightarrow> u64 \<times> byte list \<Rightarrow> sres" where
  "ser_fields [] nbytes s = Some s"
| "ser_fields (f # fs) nbytes s = do { s' \<leftarrow> ser_next f nbytes s; ser_fields fs nbytes s' }"

definition serialize_struct :: "serializer list \<Rightarrow> serializer" where
  "serialize_struct fs buf nbytes = ser_fields fs nbytes (0, buf)"

text \<open>The members of a union as pairs of an enum value and a serialiser: the first match runs.\<close>

definition serialize_union :: "(int \<times> serializer) list \<Rightarrow> int \<Rightarrow> serializer" where
  "serialize_union membs e buf nbytes =
     (case find (\<lambda>(membenum, f). membenum = e) membs of
        None \<Rightarrow> Some (0, buf)
      | Some (_, f) \<Rightarrow> f buf nbytes)"

definition serialize_enum :: "int \<Rightarrow> serializer" where
  "serialize_enum e buf nbytes =
     (if e \<ge> 256 \<or> e < 0 then None
      else do {
        b \<leftarrow> (if 1 \<le> nbytes then mem_write buf [word_of_int e] else Some buf);
        Some (1, b)
      })"

definition serialize_str :: "cstr \<Rightarrow> serializer" where
  "serialize_str str buf nbytes = do {
     s \<leftarrow> str;
     let len = (word_of_nat (min (length s) (unat nbytes)) :: u64);
     b \<leftarrow> (if len < nbytes then mem_write buf (str_bytes s) else Some buf);
     Some (len + 1, b)
   }"

definition serialize_strp :: "cstr \<Rightarrow> serializer" where
  "serialize_strp str buf nbytes = serialize_str str buf nbytes"

text \<open>The bytes of \<open>htonl(w)\<close> in memory, on a machine of either byte order.\<close>

definition be32 :: "u32 \<Rightarrow> byte list" where
  "be32 w = [ucast (drop_bit 24 w), ucast (drop_bit 16 w), ucast (drop_bit 8 w), ucast w]"

definition serialize_uint32 :: "u32 \<Rightarrow> serializer" where
  "serialize_uint32 w buf nbytes = do {
     b \<leftarrow> (if 4 \<le> nbytes then mem_write buf (be32 w) else Some buf);
     Some (4, b)
   }"

definition serialize_int32 :: "u32 \<Rightarrow> serializer" where
  "serialize_int32 w buf nbytes = serialize_uint32 w buf nbytes"

definition serialize_uint64 :: "u64 \<Rightarrow> serializer" where
  "serialize_uint64 w =
     (let uint1 = ucast (drop_bit 32 w); uint2 = ucast (w AND 0xffffffff)
      in serialize_struct [serialize_uint32 uint1, serialize_uint32 uint2])"

definition serialize_int64 :: "u64 \<Rightarrow> serializer" where
  "serialize_int64 w buf nbytes = serialize_uint64 w buf nbytes"

definition serialize_rsrc :: "rsrc \<Rightarrow> serializer" where
  "serialize_rsrc r =
     serialize_struct [serialize_strp (mr_owner r), serialize_strp (mr_path r)]"

text \<open>
  \<open>memcpy\<close> of sz bytes to the start of dst. A null or too short source is undefined, unless
  there is nothing to copy.
\<close>

definition memcpy_to :: "byte list \<Rightarrow> byte list option \<Rightarrow> u64 \<Rightarrow> byte list option" where
  "memcpy_to dst src sz =
     (if sz = 0 then Some dst
      else do { m \<leftarrow> src; bs \<leftarrow> mem_read m (unat sz); mem_write dst bs })"

text \<open>
  The conversion \<open>(int32_t) x\<close> of a 64-bit value, widened again to the \<open>uint64_t\<close> parameter of
  \<open>serialize_uint64\<close>: the low 32 bits, sign extended.
\<close>

definition via_int32 :: "u64 \<Rightarrow> u64" where
  "via_int32 w = scast (ucast w :: u32)"

definition serialize_req_data :: "byte list option \<Rightarrow> u64 \<Rightarrow> serializer" where
  "serialize_req_data dat sz buf nbytes = do {
     b \<leftarrow> (if sz \<le> nbytes then memcpy_to buf dat sz else Some buf);
     Some (sz, b)
   }"

definition serialize_request :: "middfs_request \<Rightarrow> serializer" where
  "serialize_request req =
     (let t = mreq_type req in
      serialize_struct
        ([serialize_uint32 (mreq_code t), serialize_str (mreq_requester req),
          serialize_rsrc (mreq_rsrc req)]
         @ (if req_has_mode t then [serialize_int32 (mreq_mode req)] else [])
         @ (if req_has_size t then [serialize_uint64 (via_int32 (mreq_size req))] else [])
         @ (if req_has_to t then [serialize_rsrc (mreq_to req)] else [])
         @ (if req_has_off t then [serialize_uint64 (via_int32 (mreq_off req))] else [])
         @ (if req_has_data t then [serialize_req_data (mreq_data req) (mreq_size req)] else [])))"

definition serialize_connect :: "middfs_connect \<Rightarrow> serializer" where
  "serialize_connect conn =
     serialize_struct [serialize_uint32 (conn_port conn), serialize_str (conn_name conn)]"

definition serialize_stat :: "middfs_stat \<Rightarrow> serializer" where
  "serialize_stat st =
     serialize_struct [serialize_uint32 (mstat_mode st), serialize_uint64 (mstat_size st),
       serialize_uint64 (mstat_blocks st), serialize_uint64 (mstat_blksize st)]"

definition serialize_data_buf :: "middfs_data \<Rightarrow> serializer" where
  "serialize_data_buf d buf nbytes = do {
     b \<leftarrow> (if 0 < mdata_nbytes d \<and> mdata_nbytes d \<le> nbytes
           then memcpy_to buf (mdata_buf d) (mdata_nbytes d) else Some buf);
     Some (mdata_nbytes d, b)
   }"

definition serialize_data :: "middfs_data \<Rightarrow> serializer" where
  "serialize_data d =
     serialize_struct [serialize_uint64 (mdata_nbytes d), serialize_data_buf d]"

definition serialize_dirent :: "middfs_dirent \<Rightarrow> serializer" where
  "serialize_dirent de =
     serialize_struct [serialize_str (mde_name de), serialize_int32 (mde_mode de)]"

text \<open>Entry i of the array; undefined when there is none.\<close>

definition dirent_at :: "middfs_dirent list option \<Rightarrow> nat \<Rightarrow> middfs_dirent option" where
  "dirent_at ents i = do { es \<leftarrow> ents; if i < length es then Some (es ! i) else None }"

definition serialize_dir :: "middfs_dir \<Rightarrow> serializer" where
  "serialize_dir dir =
     serialize_struct
       (serialize_uint64 (mdir_count dir)
        # map (\<lambda>i buf nbytes. do {
                 de \<leftarrow> dirent_at (mdir_ents dir) i; serialize_dirent de buf nbytes })
              [0..<unat (mdir_count dir)])"

text \<open>The fields after the type; None is the \<open>abort()\<close> of the default case.\<close>

definition rsp_fields :: "middfs_response \<Rightarrow> serializer list option" where
  "rsp_fields rsp =
     (case mrsp_type rsp of
        MRSP_OK \<Rightarrow> Some []
      | MRSP_DATA \<Rightarrow> do { d \<leftarrow> get_data (mrsp_un rsp); Some [serialize_data d] }
      | MRSP_STAT \<Rightarrow> do { st \<leftarrow> get_stat (mrsp_un rsp); Some [serialize_stat st] }
      | MRSP_DIR \<Rightarrow> do { dir \<leftarrow> get_dir (mrsp_un rsp); Some [serialize_dir dir] }
      | MRSP_ERROR \<Rightarrow> do { e \<leftarrow> get_error (mrsp_un rsp); Some [serialize_int32 e] }
      | MRSP_OTHER _ \<Rightarrow> None)"

definition serialize_rsp :: "middfs_response \<Rightarrow> serializer" where
  "serialize_rsp rsp buf nbytes = do {
     fs \<leftarrow> rsp_fields rsp;
     serialize_struct (serialize_int32 (mrsp_code (mrsp_type rsp)) # fs) buf nbytes
   }"

definition pkt_fields :: "middfs_packet \<Rightarrow> serializer list option" where
  "pkt_fields pkt =
     (case mpkt_type pkt of
        MPKT_REQUEST \<Rightarrow> do { r \<leftarrow> get_request (mpkt_un pkt); Some [serialize_request r] }
      | MPKT_RESPONSE \<Rightarrow> do { r \<leftarrow> get_response (mpkt_un pkt); Some [serialize_rsp r] }
      | MPKT_CONNECT \<Rightarrow> do { c \<leftarrow> get_connect (mpkt_un pkt); Some [serialize_connect c] }
      | _ \<Rightarrow> Some [])"

definition serialize_pkt :: "middfs_packet \<Rightarrow> serializer" where
  "serialize_pkt pkt buf nbytes = do {
     fs \<leftarrow> pkt_fields pkt;
     serialize_struct
       ([serialize_uint32 (mpkt_magic pkt), serialize_uint32 (mpkt_code (mpkt_type pkt))] @ fs)
       buf nbytes
   }"

section \<open>Deserialisers\<close>

type_synonym 'a dres = "(u64 \<times> 'a \<times> int) option"
type_synonym 'a deserializer = "byte list \<Rightarrow> u64 \<Rightarrow> 'a \<Rightarrow> int \<Rightarrow> 'a dres"
type_synonym 'a dfield = "byte list \<Rightarrow> u64 \<Rightarrow> u64 \<times> 'a \<times> int \<Rightarrow> 'a dres"

definition des_next :: "'b deserializer \<Rightarrow> ('a \<Rightarrow> 'b) \<Rightarrow> ('b \<Rightarrow> 'a \<Rightarrow> 'a) \<Rightarrow> 'a dfield" where
  "des_next f get put buf nbytes s =
     (case s of (used, v, err) \<Rightarrow> do {
        (m, x, err') \<leftarrow> f (drop (unat used) buf) (sizerem nbytes used) (get v) err;
        Some (used + m, put x v, err')
      })"

fun des_fields :: "'a dfield list \<Rightarrow> 'a dfield" where
  "des_fields [] buf nbytes s = Some s"
| "des_fields (f # fs) buf nbytes s = do { s' \<leftarrow> f buf nbytes s; des_fields fs buf nbytes s' }"

definition deserialize_struct :: "'a dfield list \<Rightarrow> 'a deserializer" where
  "deserialize_struct fs buf nbytes v err =
     (if err \<noteq> 0 then Some (0, v, err) else des_fields fs buf nbytes (0, v, err))"

definition deserialize_union :: "(int \<times> 'a deserializer) list \<Rightarrow> int \<Rightarrow> 'a deserializer" where
  "deserialize_union membs e buf nbytes v err =
     (case find (\<lambda>(membenum, f). membenum = e) membs of
        None \<Rightarrow> Some (0, v, err)
      | Some (_, f) \<Rightarrow> f buf nbytes v err)"

definition deserialize_enum :: "int deserializer" where
  "deserialize_enum buf nbytes e err =
     (if err \<noteq> 0 then Some (0, e, err)
      else do {
        e' \<leftarrow> (if 1 \<le> nbytes then map_option (\<lambda>bs. uint (hd bs)) (mem_read buf 1) else Some e);
        Some (1, e', err)
      })"

definition ENOMEM :: int where "ENOMEM = 12"

definition deserialize_str :: "cenv \<Rightarrow> cstr deserializer" where
  "deserialize_str E buf nbytes strp err =
     (if err \<noteq> 0 then Some (0, strp, err)
      else do {
        len \<leftarrow> strnlen buf nbytes;
        if len < nbytes then
          (if can_alloc E (unat len + 1)
           then Some (len + 1, Some (map char_of_byte (take (unat len) buf)), err)
           else Some (0, strp, ENOMEM))
        else Some (nbytes + 1 + 1, strp, err)
      })"

definition unbe32 :: "byte list \<Rightarrow> u32" where
  "unbe32 bs =
     (case bs of
        [a, b, c, d] \<Rightarrow>
          push_bit 24 (ucast a) OR push_bit 16 (ucast b) OR push_bit 8 (ucast c) OR ucast d
      | _ \<Rightarrow> 0)"

definition deserialize_uint32 :: "u32 deserializer" where
  "deserialize_uint32 buf nbytes w err =
     (if err \<noteq> 0 then Some (0, w, err)
      else do {
        w' \<leftarrow> (if 4 \<le> nbytes then map_option unbe32 (mem_read buf 4) else Some w);
        Some (4, w', err)
      })"

definition deserialize_int32 :: "u32 deserializer" where
  "deserialize_int32 buf nbytes w err = deserialize_uint32 buf nbytes w err"

text \<open>
  The two halves go through uninitialised locals; with an error pending they are combined
  unread, which is the only use of \<open>indet32\<close>.
\<close>

definition deserialize_uint64 :: "cenv \<Rightarrow> u64 deserializer" where
  "deserialize_uint64 E buf nbytes w err = do {
     (used, (uint1, uint2), err') \<leftarrow>
       des_fields
         [des_next deserialize_uint32 fst (\<lambda>x (_, u2). (x, u2)),
          des_next deserialize_uint32 snd (\<lambda>x (u1, _). (u1, x))]
         buf nbytes (0, (indet32 E 0, indet32 E 1), err);
     Some (used,
       if used \<le> nbytes then push_bit 32 (ucast uint1) + ucast uint2 else w, err')
   }"

definition deserialize_int64 :: "cenv \<Rightarrow> u64 deserializer" where
  "deserialize_int64 E buf nbytes w err = deserialize_uint64 E buf nbytes w err"

definition deserialize_rsrc :: "cenv \<Rightarrow> rsrc deserializer" where
  "deserialize_rsrc E =
     deserialize_struct
       [des_next (deserialize_str E) mr_owner (\<lambda>x r. r\<lparr>mr_owner := x\<rparr>),
        des_next (deserialize_str E) mr_path (\<lambda>x r. r\<lparr>mr_path := x\<rparr>)]"

text \<open>The last statement of \<open>deserialize_request\<close>: 0 bytes if an error is pending.\<close>

definition des_result :: "u64 \<times> 'a \<times> int \<Rightarrow> u64 \<times> 'a \<times> int" where
  "des_result s = (case s of (used, v, err) \<Rightarrow> (if err \<noteq> 0 then 0 else used, v, err))"

definition request_shared :: "cenv \<Rightarrow> middfs_request dfield list" where
  "request_shared E =
     [des_next deserialize_uint32 (\<lambda>r. mreq_code (mreq_type r))
        (\<lambda>x r. r\<lparr>mreq_type := mreq_of_code x\<rparr>),
      des_next (deserialize_str E) mreq_requester (\<lambda>x r. r\<lparr>mreq_requester := x\<rparr>),
      des_next (deserialize_rsrc E) mreq_rsrc (\<lambda>x r. r\<lparr>mreq_rsrc := x\<rparr>)]"

definition request_specific :: "cenv \<Rightarrow> middfs_request_type \<Rightarrow> middfs_request dfield list" where
  "request_specific E t =
     (if req_has_mode t
      then [des_next deserialize_int32 mreq_mode (\<lambda>x r. r\<lparr>mreq_mode := x\<rparr>)] else [])
     @ (if req_has_size t
        then [des_next (deserialize_uint64 E) mreq_size (\<lambda>x r. r\<lparr>mreq_size := x\<rparr>)] else [])
     @ (if req_has_to t
        then [des_next (deserialize_rsrc E) mreq_to (\<lambda>x r. r\<lparr>mreq_to := x\<rparr>)] else [])
     @ (if req_has_off t
        then [des_next (deserialize_uint64 E) mreq_off (\<lambda>x r. r\<lparr>mreq_off := x\<rparr>)] else [])"

definition deserialize_req_data ::
    "cenv \<Rightarrow> byte list \<Rightarrow> u64 \<Rightarrow> u64 \<times> middfs_request \<times> int \<Rightarrow> middfs_request dres" where
  "deserialize_req_data E buf nbytes s =
     (case s of (used, req, err) \<Rightarrow>
        if mreq_size req \<le> sizerem nbytes used then do {
          d \<leftarrow> memdup E (drop (unat used) buf) (mreq_size req);
          Some (case d of
                  None \<Rightarrow> (0, req\<lparr>mreq_data := None\<rparr>, 1)
                | Some b \<Rightarrow>
                    des_result (used + mreq_size req, req\<lparr>mreq_data := Some b\<rparr>, err))
        }
        else Some (des_result (used + mreq_size req, req, err)))"

definition deserialize_request :: "cenv \<Rightarrow> middfs_request deserializer" where
  "deserialize_request E buf nbytes req err =
     (if err \<noteq> 0 then Some (0, req, err)
      else do {
        s1 \<leftarrow> des_fields (request_shared E) buf nbytes (0, req, err);
        if nbytes < fst s1 then Some s1
        else do {
          let t = mreq_type (fst (snd s1));
          s2 \<leftarrow> des_fields (request_specific E t) buf nbytes s1;
          if nbytes < fst s2 then Some s2
          else if req_has_data t then deserialize_req_data E buf nbytes s2
          else Some (des_result s2)
        }
      })"

definition deserialize_connect :: "cenv \<Rightarrow> middfs_connect deserializer" where
  "deserialize_connect E buf nbytes conn err =
     des_fields
       [des_next deserialize_uint32 conn_port (\<lambda>x c. c\<lparr>conn_port := x\<rparr>),
        des_next (deserialize_str E) conn_name (\<lambda>x c. c\<lparr>conn_name := x\<rparr>)]
       buf nbytes (0, conn, err)"

definition deserialize_stat :: "cenv \<Rightarrow> middfs_stat deserializer" where
  "deserialize_stat E buf nbytes st err =
     des_fields
       [des_next deserialize_uint32 mstat_mode (\<lambda>x s. s\<lparr>mstat_mode := x\<rparr>),
        des_next (deserialize_uint64 E) mstat_size (\<lambda>x s. s\<lparr>mstat_size := x\<rparr>),
        des_next (deserialize_uint64 E) mstat_blocks (\<lambda>x s. s\<lparr>mstat_blocks := x\<rparr>),
        des_next (deserialize_uint64 E) mstat_blksize (\<lambda>x s. s\<lparr>mstat_blksize := x\<rparr>)]
       buf nbytes (0, st, err)"

definition deserialize_data :: "cenv \<Rightarrow> middfs_data deserializer" where
  "deserialize_data E buf nbytes d err = do {
     (used, d1, err1) \<leftarrow>
       des_next (deserialize_uint64 E) mdata_nbytes (\<lambda>x d. d\<lparr>mdata_nbytes := x\<rparr>)
         buf nbytes (0, d, err);
     if nbytes < used \<or> err1 \<noteq> 0 then Some (used, d1, err1)
     else if mdata_nbytes d1 \<le> sizerem nbytes used \<and> 0 < mdata_nbytes d1 then do {
       m \<leftarrow> memdup E (drop (unat used) buf) (mdata_nbytes d1);
       Some (case m of
               None \<Rightarrow> (0, d1\<lparr>mdata_buf := None\<rparr>, 1)
             | Some b \<Rightarrow> (used + mdata_nbytes d1, d1\<lparr>mdata_buf := Some b\<rparr>, err1))
     }
     else Some (used + mdata_nbytes d1, d1, err1)
   }"

definition deserialize_dirent :: "cenv \<Rightarrow> middfs_dirent deserializer" where
  "deserialize_dirent E buf nbytes de err =
     des_fields
       [des_next (deserialize_str E) mde_name (\<lambda>x e. e\<lparr>mde_name := x\<rparr>),
        des_next deserialize_int32 mde_mode (\<lambda>x e. e\<lparr>mde_mode := x\<rparr>)]
       buf nbytes (0, de, err)"

text \<open>One turn of the loop over the entries; writing past the array is undefined.\<close>

definition dir_step :: "cenv \<Rightarrow> nat \<Rightarrow> middfs_dir dfield" where
  "dir_step E i buf nbytes s =
     (case s of (used, dir, err) \<Rightarrow> do {
        old \<leftarrow> dirent_at (mdir_ents dir) i;
        (m, de, err') \<leftarrow>
          deserialize_dirent E (drop (unat used) buf) (sizerem nbytes used) old err;
        Some (used + m,
          dir\<lparr>mdir_ents := map_option (\<lambda>es. es[i := de]) (mdir_ents dir)\<rparr>, err')
      })"

definition sizeof_dirent :: nat where "sizeof_dirent = 16"

definition deserialize_dir :: "cenv \<Rightarrow> middfs_dir deserializer" where
  "deserialize_dir E buf nbytes dir err = do {
     (used, dir1, err1) \<leftarrow>
       des_next (deserialize_uint64 E) mdir_count (\<lambda>x d. d\<lparr>mdir_count := x\<rparr>)
         buf nbytes (0, dir, err);
     if err1 \<noteq> 0 \<or> nbytes < used then Some (used, dir1, err1)
     else if mdir_ents dir1 = None \<and> \<not> calloc_ok E (mdir_count dir1) sizeof_dirent
     then Some (0, dir1, 1)
     else
       (let cnt = unat (mdir_count dir1);
            dir2 = (if mdir_ents dir1 = None
                    then dir1\<lparr>mdir_ents := Some (replicate cnt zero_dirent)\<rparr> else dir1)
        in des_fields (map (dir_step E) [0..<cnt]) buf nbytes (used, dir2, err1))
   }"

text \<open>The member of a union the code is about to overwrite, zero if another one was last.\<close>

definition old_data :: "rsp_un \<Rightarrow> middfs_data" where
  "old_data u = (case get_data u of Some d \<Rightarrow> d | None \<Rightarrow> zero_data)"

definition old_stat :: "rsp_un \<Rightarrow> middfs_stat" where
  "old_stat u = (case get_stat u of Some d \<Rightarrow> d | None \<Rightarrow> zero_stat)"

definition old_dir :: "rsp_un \<Rightarrow> middfs_dir" where
  "old_dir u = (case get_dir u of Some d \<Rightarrow> d | None \<Rightarrow> zero_dir)"

definition old_error :: "rsp_un \<Rightarrow> u32" where
  "old_error u = (case get_error u of Some d \<Rightarrow> d | None \<Rightarrow> 0)"

definition old_request :: "pkt_un \<Rightarrow> middfs_request" where
  "old_request u = (case get_request u of Some d \<Rightarrow> d | None \<Rightarrow> zero_request)"

definition old_response :: "pkt_un \<Rightarrow> middfs_response" where
  "old_response u = (case get_response u of Some d \<Rightarrow> d | None \<Rightarrow> zero_response)"

definition old_connect :: "pkt_un \<Rightarrow> middfs_connect" where
  "old_connect u = (case get_connect u of Some d \<Rightarrow> d | None \<Rightarrow> zero_connect)"

declare old_data_def [union_simps] old_stat_def [union_simps] old_dir_def [union_simps]
  old_error_def [union_simps] old_request_def [union_simps] old_response_def [union_simps]
  old_connect_def [union_simps]

definition deserialize_rsp :: "cenv \<Rightarrow> middfs_response deserializer" where
  "deserialize_rsp E buf nbytes rsp err = do {
     s \<leftarrow> des_next deserialize_int32 (\<lambda>r. mrsp_code (mrsp_type r))
            (\<lambda>x r. r\<lparr>mrsp_type := mrsp_of_code x\<rparr>) buf nbytes (0, rsp, err);
     if nbytes < fst s then Some s
     else
       (case mrsp_type (fst (snd s)) of
          MRSP_OK \<Rightarrow> Some s
        | MRSP_DATA \<Rightarrow>
            des_next (deserialize_data E) (\<lambda>r. old_data (mrsp_un r))
              (\<lambda>x r. r\<lparr>mrsp_un := Rsp_data x\<rparr>) buf nbytes s
        | MRSP_STAT \<Rightarrow>
            des_next (deserialize_stat E) (\<lambda>r. old_stat (mrsp_un r))
              (\<lambda>x r. r\<lparr>mrsp_un := Rsp_stat x\<rparr>) buf nbytes s
        | MRSP_DIR \<Rightarrow>
            des_next (deserialize_dir E) (\<lambda>r. old_dir (mrsp_un r))
              (\<lambda>x r. r\<lparr>mrsp_un := Rsp_dir x\<rparr>) buf nbytes s
        | MRSP_ERROR \<Rightarrow>
            des_next deserialize_int32 (\<lambda>r. old_error (mrsp_un r))
              (\<lambda>x r. r\<lparr>mrsp_un := Rsp_error x\<rparr>) buf nbytes s
        | MRSP_OTHER _ \<Rightarrow> None)
   }"

definition deserialize_pkt :: "cenv \<Rightarrow> middfs_packet deserializer" where
  "deserialize_pkt E buf nbytes pkt err =
     (if err \<noteq> 0 then Some (0, pkt, err)
      else do {
        s \<leftarrow> des_fields
               [des_next deserialize_uint32 mpkt_magic (\<lambda>x p. p\<lparr>mpkt_magic := x\<rparr>),
                des_next deserialize_uint32 (\<lambda>p. mpkt_code (mpkt_type p))
                  (\<lambda>x p. p\<lparr>mpkt_type := mpkt_of_code x\<rparr>)]
               buf nbytes (0, pkt, err);
        if nbytes < fst s \<or> snd (snd s) \<noteq> 0 then Some s
        else map_option des_result
          (case mpkt_type (fst (snd s)) of
             MPKT_REQUEST \<Rightarrow>
               des_next (deserialize_request E) (\<lambda>p. old_request (mpkt_un p))
                 (\<lambda>x p. p\<lparr>mpkt_un := Pkt_request x\<rparr>) buf nbytes s
           | MPKT_RESPONSE \<Rightarrow>
               des_next (deserialize_rsp E) (\<lambda>p. old_response (mpkt_un p))
                 (\<lambda>x p. p\<lparr>mpkt_un := Pkt_response x\<rparr>) buf nbytes s
           | MPKT_CONNECT \<Rightarrow>
               des_next (deserialize_connect E) (\<lambda>p. old_connect (mpkt_un p))
                 (\<lambda>x p. p\<lparr>mpkt_un := Pkt_connect x\<rparr>) buf nbytes s
           | _ \<Rightarrow> Some s)
      })"

end
