(* ===== verification/Serial_Laws.thy ===== *)
theory Serial_Laws
  imports Middfs_Serial
begin

text \<open>
  The contract of the serialisation functions, which the comment at the top of
  \<open>lib/middfs-serial.c\<close> states in words, as two predicates, and the lemmas that carry it
  through the sequences of statements the functions are made of.

  \<^item> \<open>writes f e\<close>: the serialiser f writes the bytes e when they fit, and otherwise reports
    more than it was given; it never touches memory past \<open>nbytes\<close>.
  \<^item> \<open>reads f e x\<close>: the deserialiser f turns the bytes e into x, and from a proper prefix
    of e it asks for more bytes than it was given, without an error.
\<close>

section \<open>Serialisers\<close>

definition wstate :: "byte list \<Rightarrow> u64 \<Rightarrow> byte list \<Rightarrow> u64 \<times> byte list \<Rightarrow> bool" where
  "wstate e nbytes buf s \<longleftrightarrow>
     (case s of (m, b) \<Rightarrow>
        length b = length buf \<and> drop (unat nbytes) b = drop (unat nbytes) buf \<and>
        unat m \<le> length e \<and>
        (if length e \<le> unat nbytes
         then unat m = length e \<and> b = e @ drop (length e) buf
         else unat nbytes < unat m))"

definition writes :: "serializer \<Rightarrow> byte list \<Rightarrow> bool" where
  "writes f e \<longleftrightarrow>
     (\<forall>buf nbytes. unat nbytes \<le> length buf \<longrightarrow>
        (\<exists>s. f buf nbytes = Some s \<and> wstate e nbytes buf s))"

lemma writesI:
  "(\<And>buf nbytes. unat nbytes \<le> length buf \<Longrightarrow>
      \<exists>s. f buf nbytes = Some s \<and> wstate e nbytes buf s) \<Longrightarrow> writes f e"
  by (simp add: writes_def)

lemma writesD:
  assumes "writes f e" "unat nbytes \<le> length buf"
  obtains s where "f buf nbytes = Some s" "wstate e nbytes buf s"
  using assms unfolding writes_def by blast

lemma wstate_start: "wstate [] nbytes buf (0, buf)"
  by (simp add: wstate_def)

text \<open>One more statement: a step that does not fit any more sees 0 bytes and writes nothing.\<close>

lemma wstate_next_full:
  assumes s: "wstate e nbytes buf s" and fits: "length e \<le> unat nbytes"
    and n: "unat nbytes \<le> length buf" and f: "writes f e'"
    and len: "length e + length e' < 2 ^ 64"
  shows "\<exists>s'. ser_next f nbytes s = Some s' \<and> wstate (e @ e') nbytes buf s'"
proof -
  obtain used b where s_eq: "s = (used, b)" by (cases s)
  from s fits s_eq have used: "unat used = length e" and b: "b = e @ drop (length e) buf"
    by (auto simp: wstate_def)
  let ?r = "drop (length e) buf"
  from n fits have "unat (sizerem nbytes used) \<le> length ?r" by (simp add: used)
  with f obtain m b' where fb: "f ?r (sizerem nbytes used) = Some (m, b')"
    and w: "wstate e' (sizerem nbytes used) ?r (m, b')"
    by (metis writesD surj_pair)
  have step: "ser_next f nbytes s = Some (used + m, e @ b')"
    using fb by (simp add: ser_next_def s_eq used b)
  have m: "unat (used + m) = length e + unat m"
    using w len by (intro trans [OF unat_add_u64]) (auto simp: wstate_def used)
  have tail: "drop (unat nbytes) (e @ b') = drop (unat nbytes) buf"
    using w fits n by (auto simp: wstate_def used)
  show ?thesis
    using step w m tail fits n
    by (auto simp: wstate_def used add.commute split: if_splits)
qed

lemma wstate_next_short:
  assumes s: "wstate e nbytes buf s" and short: "unat nbytes < length e"
    and n: "unat nbytes \<le> length buf" and f: "writes f e'"
    and len: "length e + length e' < 2 ^ 64"
  shows "\<exists>s'. ser_next f nbytes s = Some s' \<and> wstate (e @ e') nbytes buf s'"
proof -
  obtain used b where s_eq: "s = (used, b)" by (cases s)
  from s short s_eq have used: "unat nbytes < unat used" "unat used \<le> length e"
    and b: "length b = length buf" "drop (unat nbytes) b = drop (unat nbytes) buf"
    by (auto simp: wstate_def)
  have zero: "unat (sizerem nbytes used) = 0" using used by simp
  let ?r = "drop (unat used) b"
  obtain m b' where fb: "f ?r (sizerem nbytes used) = Some (m, b')"
    and w: "wstate e' (sizerem nbytes used) ?r (m, b')"
    using f zero by (metis writesD surj_pair le0)
  then have b': "b' = ?r" using zero by (simp add: wstate_def)
  have step: "ser_next f nbytes s = Some (used + m, b)"
    using fb b' by (simp add: ser_next_def s_eq)
  have "unat m \<le> length e'" using w by (simp add: wstate_def)
  then have "unat (used + m) = unat used + unat m" "unat used + unat m \<le> length e + length e'"
    using len used by (auto intro!: unat_add_u64)
  with step b used short show ?thesis
    by (auto simp: wstate_def)
qed

lemma wstate_next:
  assumes "wstate e nbytes buf s" "unat nbytes \<le> length buf" "writes f e'"
    "length e + length e' < 2 ^ 64"
  shows "\<exists>s'. ser_next f nbytes s = Some s' \<and> wstate (e @ e') nbytes buf s'"
  using assms wstate_next_full wstate_next_short by (meson not_le)

lemma ser_fields_wstate:
  assumes "list_all2 writes fs es" "wstate e nbytes buf s" "unat nbytes \<le> length buf"
    "length e + length (concat es) < 2 ^ 64"
  shows "\<exists>s'. ser_fields fs nbytes s = Some s' \<and> wstate (e @ concat es) nbytes buf s'"
  using assms
proof (induction fs es arbitrary: e s rule: list_all2_induct)
  case Nil
  then show ?case by simp
next
  case (Cons f fs e' es)
  have "length e + length e' < 2 ^ 64" using Cons.prems(3) by simp
  with Cons.prems Cons.hyps obtain s1 where s1: "ser_next f nbytes s = Some s1"
    and w1: "wstate (e @ e') nbytes buf s1"
    using wstate_next by blast
  have "length (e @ e') + length (concat es) < 2 ^ 64" using Cons.prems(3) by simp
  from Cons.IH [OF w1 Cons.prems(2) this] s1 show ?case by simp
qed

lemma writes_struct:
  assumes "list_all2 writes fs es" "length (concat es) < 2 ^ 64"
  shows "writes (serialize_struct fs) (concat es)"
proof (rule writesI)
  fix buf nbytes assume n: "unat (nbytes :: u64) \<le> length (buf :: byte list)"
  show "\<exists>s. serialize_struct fs buf nbytes = Some s \<and> wstate (concat es) nbytes buf s"
    using ser_fields_wstate [OF assms(1) wstate_start n] assms(2)
    by (simp add: serialize_struct_def)
qed

section \<open>Deserialisers\<close>

definition rstate :: "byte list \<Rightarrow> u64 \<Rightarrow> ('a \<Rightarrow> bool) \<Rightarrow> u64 \<times> 'a \<times> int \<Rightarrow> bool" where
  "rstate e nbytes Q s \<longleftrightarrow>
     (case s of (used, v, err) \<Rightarrow>
        err = 0 \<and>
        (if length e \<le> unat nbytes then unat used = length e \<and> Q v
         else unat nbytes < unat used \<and> unat used \<le> 2 * length e))"

text \<open>The memory holds as much of e as \<open>nbytes\<close> bytes can.\<close>

definition holds_prefix :: "byte list \<Rightarrow> byte list \<Rightarrow> u64 \<Rightarrow> bool" where
  "holds_prefix e buf nbytes \<longleftrightarrow>
     unat nbytes \<le> length buf \<and>
     take (min (length e) (unat nbytes)) buf = take (unat nbytes) e"

definition reads_from ::
    "('a \<Rightarrow> bool) \<Rightarrow> 'a deserializer \<Rightarrow> byte list \<Rightarrow> 'a \<Rightarrow> bool" where
  "reads_from P f e x \<longleftrightarrow>
     (\<forall>buf nbytes v. P v \<longrightarrow> holds_prefix e buf nbytes \<longrightarrow>
        (\<exists>s. f buf nbytes v 0 = Some s \<and> rstate e nbytes (\<lambda>v'. v' = x) s))"

abbreviation reads :: "'a deserializer \<Rightarrow> byte list \<Rightarrow> 'a \<Rightarrow> bool" where
  "reads \<equiv> reads_from (\<lambda>_. True)"

lemma readsI:
  "(\<And>buf nbytes v. P v \<Longrightarrow> holds_prefix e buf nbytes \<Longrightarrow>
      \<exists>s. f buf nbytes v 0 = Some s \<and> rstate e nbytes (\<lambda>v'. v' = x) s) \<Longrightarrow> reads_from P f e x"
  by (simp add: reads_from_def)

lemma readsD:
  assumes "reads_from P f e x" "P v" "holds_prefix e buf nbytes"
  obtains s where "f buf nbytes v 0 = Some s" "rstate e nbytes (\<lambda>v'. v' = x) s"
  using assms unfolding reads_from_def by blast

lemma rstate_start: "Q v \<Longrightarrow> rstate [] nbytes Q (0, v, 0)"
  by (simp add: rstate_def)

lemma rstate_mono: "rstate e nbytes Q s \<Longrightarrow> (\<And>v. Q v \<Longrightarrow> R v) \<Longrightarrow> rstate e nbytes R s"
  by (auto simp: rstate_def split: prod.splits if_splits)

lemma holds_prefix_left: "holds_prefix (e @ e') buf nbytes \<Longrightarrow> holds_prefix e buf nbytes"
proof -
  assume h: "holds_prefix (e @ e') buf nbytes"
  let ?m = "min (length e) (unat nbytes)"
  have "take ?m (take (min (length (e @ e')) (unat nbytes)) buf)
        = take ?m (take (unat nbytes) (e @ e'))"
    using h by (simp only: holds_prefix_def)
  then have "take ?m buf = take ?m (e @ e')"
    by (simp add: min.absorb1 min.assoc min_def split: if_splits)
  with h show ?thesis by (auto simp: holds_prefix_def min_def split: if_splits)
qed

lemma holds_prefix_right:
  assumes h: "holds_prefix (e @ e') buf nbytes" and fits: "length e \<le> unat nbytes"
    and used: "unat used = length e"
  shows "holds_prefix e' (drop (length e) buf) (sizerem nbytes used)"
proof -
  have "drop (length e) (take (min (length (e @ e')) (unat nbytes)) buf)
        = drop (length e) (take (unat nbytes) (e @ e'))"
    using h by (simp only: holds_prefix_def)
  then have "take (min (length e') (unat nbytes - length e)) (drop (length e) buf)
             = take (unat nbytes - length e) e'"
    using fits by (auto simp: drop_take min_def split: if_splits)
  moreover have "unat nbytes \<le> length buf" using h by (simp add: holds_prefix_def)
  ultimately show ?thesis by (simp add: holds_prefix_def used diff_le_mono)
qed

lemma holds_prefix_zero: "unat n = 0 \<Longrightarrow> holds_prefix e buf n"
  by (simp add: holds_prefix_def)

lemma reads_obtain:
  assumes "reads_from P f e x" "P v" "holds_prefix e buf nbytes"
  obtains m x' where "f buf nbytes v 0 = Some (m, x', 0)"
    "rstate e nbytes (\<lambda>v'. v' = x) (m, x', 0)" "unat m \<le> 2 * length e"
proof -
  obtain s where s: "f buf nbytes v 0 = Some s" "rstate e nbytes (\<lambda>v'. v' = x) s"
    by (rule readsD [OF assms])
  then show thesis
    by (intro that [of "fst s" "fst (snd s)"])
      (auto simp: rstate_def split: prod.splits if_splits)
qed

text \<open>The state after one more field; put may depend on the fields read before.\<close>

lemma rstate_next_full:
  assumes s: "rstate e nbytes Q s" and fits: "length e \<le> unat nbytes"
    and h: "holds_prefix (e @ e') buf nbytes" and f: "reads_from P f e' x"
    and P: "\<And>v. Q v \<Longrightarrow> P (get v)" and len: "2 * (length e + length e') < 2 ^ 64"
  shows "\<exists>s'. des_next f get put buf nbytes s = Some s' \<and>
           rstate (e @ e') nbytes (\<lambda>v'. \<exists>v. Q v \<and> v' = put x v) s'"
proof -
  obtain used v err where s_eq: "s = (used, v, err)" by (cases s)
  from s fits s_eq have used: "unat used = length e" and Q: "Q v" and err: "err = 0"
    by (auto simp: rstate_def)
  from readsD [OF f P [OF Q] holds_prefix_right [OF h fits used]]
  obtain m x' err' where fb: "f (drop (length e) buf) (sizerem nbytes used) (get v) 0
      = Some (m, x', err')"
    and w: "rstate e' (sizerem nbytes used) (\<lambda>v'. v' = x) (m, x', err')"
    by (metis prod_cases3)
  have step: "des_next f get put buf nbytes s = Some (used + m, put x' v, err')"
    using fb by (simp add: des_next_def s_eq used err)
  have "unat m \<le> 2 * length e'" using w by (auto simp: rstate_def split: if_splits)
  then have "unat (used + m) = length e + unat m"
    using len by (intro trans [OF unat_add_u64]) (auto simp: used)
  with step w Q fits show ?thesis
    by (auto simp: rstate_def used split: if_splits)
qed

lemma rstate_next_short:
  assumes s: "rstate e nbytes Q s" and short: "unat nbytes < length e"
    and f: "reads f e' x" and len: "2 * (length e + length e') < 2 ^ 64"
  shows "\<exists>s'. des_next f get put buf nbytes s = Some s' \<and> rstate (e @ e') nbytes R s'"
proof -
  obtain used v err where s_eq: "s = (used, v, err)" by (cases s)
  from s short s_eq have used: "unat nbytes < unat used" "unat used \<le> 2 * length e"
    and err: "err = 0"
    by (auto simp: rstate_def)
  have "unat (sizerem nbytes used) = 0" using used by simp
  from readsD [OF f TrueI holds_prefix_zero [OF this]]
  obtain m x' err' where fb: "f (drop (unat used) buf) (sizerem nbytes used) (get v) 0
      = Some (m, x', err')"
    and w: "rstate e' (sizerem nbytes used) (\<lambda>v'. v' = x) (m, x', err')"
    by (metis prod_cases3)
  have step: "des_next f get put buf nbytes s = Some (used + m, put x' v, err')"
    using fb by (simp add: des_next_def s_eq err)
  have "unat m \<le> 2 * length e'" using w by (auto simp: rstate_def split: if_splits)
  then have "unat (used + m) = unat used + unat m"
    using len used by (intro unat_add_u64) auto
  with step w used \<open>unat m \<le> 2 * length e'\<close> short show ?thesis
    by (auto simp: rstate_def split: if_splits)
qed

lemma rstate_next:
  assumes "rstate e nbytes Q s" "holds_prefix (e @ e') buf nbytes" "reads f e' x"
    "2 * (length e + length e') < 2 ^ 64"
  shows "\<exists>s'. des_next f get put buf nbytes s = Some s' \<and>
           rstate (e @ e') nbytes (\<lambda>v'. \<exists>v. Q v \<and> v' = put x v) s'"
proof (cases "length e \<le> unat nbytes")
  case True
  then show ?thesis using assms by (intro rstate_next_full [where P = "\<lambda>_. True"]) auto
next
  case False
  then show ?thesis using assms by (intro rstate_next_short) auto
qed

text \<open>
  A step of a sequence reads the bytes e and changes the target by h. The steps of a list,
  each with its bytes and its effect, read the concatenation and compose the effects.
\<close>

definition field_reads :: "'a dfield \<Rightarrow> byte list \<times> ('a \<Rightarrow> 'a) \<Rightarrow> bool" where
  "field_reads g eh \<longleftrightarrow>
     (\<forall>e0 buf nbytes Q s. rstate e0 nbytes Q s \<longrightarrow> holds_prefix (e0 @ fst eh) buf nbytes \<longrightarrow>
        2 * (length e0 + length (fst eh)) < 2 ^ 64 \<longrightarrow>
        (\<exists>s'. g buf nbytes s = Some s' \<and>
           rstate (e0 @ fst eh) nbytes (\<lambda>v'. \<exists>v. Q v \<and> v' = snd eh v) s'))"

lemma field_reads_next: "reads f e x \<Longrightarrow> field_reads (des_next f get put) (e, put x)"
  unfolding field_reads_def using rstate_next by fastforce

definition effects :: "(byte list \<times> ('a \<Rightarrow> 'a)) list \<Rightarrow> 'a \<Rightarrow> 'a" where
  "effects ehs v = foldl (\<lambda>w eh. snd eh w) v ehs"

lemma effects_simps [simp]:
  "effects [] v = v" "effects (eh # ehs) v = effects ehs (snd eh v)"
  "effects (xs @ ys) v = effects ys (effects xs v)"
  by (simp_all add: effects_def)

lemma des_fields_rstate:
  assumes "list_all2 field_reads gs ehs" "rstate e0 nbytes Q s"
    "holds_prefix (e0 @ concat (map fst ehs)) buf nbytes"
    "2 * (length e0 + length (concat (map fst ehs))) < 2 ^ 64"
  shows "\<exists>s'. des_fields gs buf nbytes s = Some s' \<and>
    rstate (e0 @ concat (map fst ehs)) nbytes (\<lambda>v'. \<exists>v. Q v \<and> v' = effects ehs v) s'"
  using assms
proof (induction gs ehs arbitrary: e0 Q s rule: list_all2_induct)
  case Nil
  then show ?case by simp
next
  case (Cons g gs eh ehs)
  have h1: "holds_prefix (e0 @ fst eh) buf nbytes"
    using Cons.prems(2) holds_prefix_left [of "e0 @ fst eh"] by simp
  have "2 * (length e0 + length (fst eh)) < 2 ^ 64" using Cons.prems(3) by simp
  with h1 Cons.prems Cons.hyps obtain s1 where s1: "g buf nbytes s = Some s1"
    and r1: "rstate (e0 @ fst eh) nbytes (\<lambda>v'. \<exists>v. Q v \<and> v' = snd eh v) s1"
    unfolding field_reads_def by blast
  have "\<exists>s'. des_fields gs buf nbytes s1 = Some s' \<and>
      rstate ((e0 @ fst eh) @ concat (map fst ehs)) nbytes
        (\<lambda>v'. \<exists>w. (\<exists>v. Q v \<and> w = snd eh v) \<and> v' = effects ehs w) s'"
    using Cons.prems(2,3) by (intro Cons.IH [OF r1]) simp_all
  then obtain s' where s': "des_fields gs buf nbytes s1 = Some s'"
    and r': "rstate ((e0 @ fst eh) @ concat (map fst ehs)) nbytes
        (\<lambda>v'. \<exists>w. (\<exists>v. Q v \<and> w = snd eh v) \<and> v' = effects ehs w) s'"
    by blast
  from r' have "rstate (e0 @ concat (map fst (eh # ehs))) nbytes
      (\<lambda>v'. \<exists>v. Q v \<and> v' = effects (eh # ehs) v) s'"
    by (auto elim: rstate_mono)
  with s1 s' show ?case by simp
qed

text \<open>A whole function of such a sequence, when the result does not depend on the old target.\<close>

lemma reads_fields:
  assumes "list_all2 field_reads gs ehs" "\<And>v. effects ehs v = x"
    "2 * length (concat (map fst ehs)) < 2 ^ 64"
    "\<And>buf nbytes v. f buf nbytes v 0 = des_fields gs buf nbytes (0, v, 0)"
  shows "reads f (concat (map fst ehs)) x"
proof (rule readsI)
  fix buf nbytes v assume "holds_prefix (concat (map fst ehs)) buf nbytes"
  then show "\<exists>s. f buf nbytes v 0 = Some s \<and>
      rstate (concat (map fst ehs)) nbytes (\<lambda>v'. v' = x) s"
    using des_fields_rstate [OF assms(1) rstate_start [of "\<lambda>w. w = v"]] assms(2,3,4)
    by simp
qed

text \<open>The same facts in the form the functions with early returns use.\<close>

lemma des_first:
  assumes "reads f e x" "holds_prefix (e @ e') buf nbytes" "2 * length e < 2 ^ 64"
  obtains used w where "des_next f get put buf nbytes (0, v, 0) = Some (used, w, 0)"
    "length e \<le> unat nbytes \<Longrightarrow> unat used = length e \<and> w = put x v"
    "unat nbytes < length e \<Longrightarrow> unat nbytes < unat used \<and> unat used \<le> 2 * length e"
proof -
  have "holds_prefix ([] @ e) buf nbytes" using assms(2) by (simp add: holds_prefix_left)
  from rstate_next [OF rstate_start [of "\<lambda>w. w = v"] this assms(1), where get = get and put = put] assms(3)
  obtain s where "des_next f get put buf nbytes (0, v, 0) = Some s"
    and "rstate e nbytes (\<lambda>v'. v' = put x v) s"
    by auto
  then show thesis
    by (intro that [of "fst s" "fst (snd s)"]) (auto simp: rstate_def split: prod.splits)
qed

lemma des_fields_obtain:
  assumes "list_all2 field_reads gs ehs" "rstate e0 nbytes (\<lambda>w. w = v) s"
    "holds_prefix (e0 @ concat (map fst ehs) @ e') buf nbytes"
    "2 * (length e0 + length (concat (map fst ehs))) < 2 ^ 64"
    "e = e0 @ concat (map fst ehs)"
  obtains used w where "des_fields gs buf nbytes s = Some (used, w, 0)"
    "rstate e nbytes (\<lambda>v'. v' = effects ehs v) (used, w, 0)"
    "length e \<le> unat nbytes \<Longrightarrow> unat used = length e \<and> w = effects ehs v"
    "unat nbytes < length e \<Longrightarrow> unat nbytes < unat used \<and> unat used \<le> 2 * length e"
proof -
  have "holds_prefix (e0 @ concat (map fst ehs)) buf nbytes"
    using assms(3) holds_prefix_left [of "e0 @ concat (map fst ehs)" e'] by simp
  from des_fields_rstate [OF assms(1,2) this assms(4)]
  obtain s' where "des_fields gs buf nbytes s = Some s'"
    and "rstate e nbytes (\<lambda>v'. v' = effects ehs v) s'"
    using assms(5) by auto
  then show thesis
    by (intro that [of "fst s'" "fst (snd s')"]) (auto simp: rstate_def split: prod.splits)
qed

section \<open>Deserialising again\<close>

text \<open>
  \<open>packet_recv\<close> deserialises into the same packet again and again while its bytes arrive; what
  an incomplete attempt leaves in the target must not change what a later one makes of it.
  \<open>resumes I f e x\<close> says so of the deserialiser f: from a target with I it reads e as x, and
  from a proper prefix of e it leaves a target with I.
\<close>

definition resumes :: "('a \<Rightarrow> bool) \<Rightarrow> 'a deserializer \<Rightarrow> byte list \<Rightarrow> 'a \<Rightarrow> bool" where
  "resumes I f e x \<longleftrightarrow>
     (\<forall>buf nbytes v. I v \<longrightarrow> holds_prefix e buf nbytes \<longrightarrow>
        (\<exists>m v'. f buf nbytes v 0 = Some (m, v', 0) \<and> rstate e nbytes (\<lambda>w. w = x) (m, v', 0) \<and>
           (unat nbytes < length e \<longrightarrow> I v')))"

lemma resumesI:
  "(\<And>buf nbytes v. I v \<Longrightarrow> holds_prefix e buf nbytes \<Longrightarrow>
      \<exists>m v'. f buf nbytes v 0 = Some (m, v', 0) \<and> rstate e nbytes (\<lambda>w. w = x) (m, v', 0) \<and>
        (unat nbytes < length e \<longrightarrow> I v')) \<Longrightarrow> resumes I f e x"
  by (simp add: resumes_def)

lemma resumesD:
  assumes "resumes I f e x" "I v" "holds_prefix e buf nbytes"
  obtains m v' where "f buf nbytes v 0 = Some (m, v', 0)" "rstate e nbytes (\<lambda>w. w = x) (m, v', 0)"
    "unat nbytes < length e \<Longrightarrow> I v'" "unat m \<le> 2 * length e"
proof -
  obtain m v' where r: "f buf nbytes v 0 = Some (m, v', 0)" "rstate e nbytes (\<lambda>w. w = x) (m, v', 0)"
    "unat nbytes < length e \<longrightarrow> I v'"
    using assms unfolding resumes_def by blast
  then show thesis by (intro that [of m v']) (auto simp: rstate_def split: if_splits)
qed

lemma reads_resumes: "reads f e x \<Longrightarrow> resumes (\<lambda>_. True) f e x"
  by (rule resumesI) (auto elim!: reads_obtain)

lemma resumes_reads: "resumes I f e x \<Longrightarrow> (\<And>v. P v \<Longrightarrow> I v) \<Longrightarrow> reads_from P f e x"
  by (rule readsI) (blast elim: resumesD)

text \<open>A step only changes its own field.\<close>

lemma des_next_target:
  "des_next f get put buf nbytes (used, v, err) = Some (m, w, err') \<Longrightarrow> \<exists>x. w = put x v"
  by (auto simp: des_next_def bind_Some_iff)

end
