(* ===== verification/Serial_Wire.thy ===== *)
theory Serial_Wire
  imports Serial_Laws
begin

text \<open>
  The wire format as a reference: for every type the bytes it is sent as, which values can be
  sent, and what a receiver gets. The serialisers write these bytes and the deserialisers read
  them back.
\<close>

section \<open>Integers and strings\<close>

definition be64 :: "u64 \<Rightarrow> byte list" where
  "be64 w = be32 (ucast (drop_bit 32 w)) @ be32 (ucast (w AND 0xffffffff))"

lemma length_be32 [simp]: "length (be32 w) = 4"
  by (simp add: be32_def)

lemma length_be64 [simp]: "length (be64 w) = 8"
  by (simp add: be64_def)

lemma unbe32_be32 [simp]: "unbe32 (be32 w) = w"
proof (rule bit_word_eqI)
  fix n assume "n < LENGTH(32)"
  then show "bit (unbe32 (be32 w)) n = bit w n"
    by (cases "24 \<le> n"; cases "16 \<le> n"; cases "8 \<le> n")
      (auto simp: unbe32_def be32_def bit_simps)
qed

lemma mask32_eq: "(0xffffffff :: u64) = mask 32"
  by (simp add: mask_eq_exp_minus_1)

lemma combine_halves:
  "push_bit 32 (ucast (ucast (drop_bit 32 w) :: u32)) + ucast (ucast (w AND 0xffffffff) :: u32)
   = (w :: u64)"
proof -
  let ?hi = "push_bit 32 (ucast (ucast (drop_bit 32 w) :: u32)) :: u64"
  let ?lo = "ucast (ucast (w AND mask 32) :: u32) :: u64"
  have "?hi + ?lo = (?hi OR ?lo)"
    by (rule disjunctive_add) (auto simp: bit_simps)
  also have "\<dots> = w" by (rule bit_word_eqI) (auto simp: bit_simps)
  finally show ?thesis unfolding mask32_eq .
qed

text \<open>The detour through \<open>int32_t\<close> is the identity below 2 to the 31.\<close>

lemma via_int32_signed: "via_int32 w = word_of_int (signed_take_bit 31 (uint w))"
  unfolding via_int32_def by (rule bit_word_eqI) (auto simp: bit_simps min_def)

lemma via_int32_small: "unat w < 2 ^ 31 \<Longrightarrow> via_int32 w = w"
proof -
  assume "unat w < 2 ^ 31"
  then have "uint w < 2 ^ 31"
    by (metis of_nat_less_numeral_power_cancel_iff uint_nat)
  moreover have "- (2 ^ 31) \<le> uint w" by (rule order_trans [of _ 0]) simp_all
  ultimately have "signed_take_bit 31 (uint w) = uint w"
    by (intro signed_take_bit_int_eq_self)
  then show ?thesis by (simp add: via_int32_signed)
qed

lemma via_int32_idem [simp]: "via_int32 (via_int32 w) = via_int32 w"
  unfolding via_int32_def by (rule bit_word_eqI) (auto simp: bit_simps min_def)

definition cstr_bytes :: "cstr \<Rightarrow> byte list" where
  "cstr_bytes p = (case p of None \<Rightarrow> [] | Some s \<Rightarrow> str_bytes s)"

named_theorems writes_intros \<open>the serialisers and the bytes they write\<close>
named_theorems reads_intros \<open>the deserialisers and the bytes they read\<close>

lemma writes_uint32 [writes_intros]: "writes (serialize_uint32 w) (be32 w)"
  by (rule writesI) (auto simp: serialize_uint32_def wstate_def word_le_nat_alt)

lemma writes_int32 [writes_intros]: "writes (serialize_int32 w) (be32 w)"
  using writes_uint32 [of w] by (simp add: writes_def serialize_int32_def)

lemma writes_uint64 [writes_intros]: "writes (serialize_uint64 w) (be64 w)"
proof -
  let ?hi = "ucast (drop_bit 32 w) :: u32" and ?lo = "ucast (w AND 0xffffffff) :: u32"
  have "writes (serialize_struct [serialize_uint32 ?hi, serialize_uint32 ?lo])
          (concat [be32 ?hi, be32 ?lo])"
    by (rule writes_struct) (auto intro: writes_intros)
  then show ?thesis by (simp add: serialize_uint64_def be64_def Let_def)
qed

lemma writes_str [writes_intros]:
  assumes "p = Some s" "length s + 1 < 2 ^ 64"
  shows "writes (serialize_str p) (cstr_bytes p)"
proof (rule writesI)
  fix buf :: "byte list" and nbytes :: u64 assume n: "unat nbytes \<le> length buf"
  let ?len = "word_of_nat (min (length s) (unat nbytes)) :: u64"
  have len: "unat ?len = min (length s) (unat nbytes)"
    using assms by (intro unat_of_nat_u64) auto
  have len1: "unat (?len + 1) = min (length s) (unat nbytes) + 1"
    using assms len by (intro trans [OF unat_add_u64]) auto
  show "\<exists>sa. serialize_str p buf nbytes = Some sa \<and> wstate (cstr_bytes p) nbytes buf sa"
    using n assms len len1
    by (auto simp: serialize_str_def wstate_def Let_def word_less_nat_alt cstr_bytes_def)
qed

lemma writes_strp [writes_intros]:
  "p = Some s \<Longrightarrow> length s + 1 < 2 ^ 64 \<Longrightarrow> writes (serialize_strp p) (cstr_bytes p)"
  using writes_str [of p s] by (simp add: writes_def serialize_strp_def)

lemma reads_uint32 [reads_intros]: "reads deserialize_uint32 (be32 w) w"
proof (rule readsI)
  fix buf :: "byte list" and nbytes :: u64 and v
  assume h: "holds_prefix (be32 w) buf nbytes"
  show "\<exists>s. deserialize_uint32 buf nbytes v 0 = Some s \<and> rstate (be32 w) nbytes (\<lambda>v'. v' = w) s"
  proof (cases "4 \<le> unat nbytes")
    case True
    then have "take 4 buf = be32 w" "4 \<le> length buf"
      using h by (auto simp: holds_prefix_def min_def)
    with True show ?thesis
      by (auto simp: deserialize_uint32_def rstate_def word_le_nat_alt)
  next
    case False
    then show ?thesis by (auto simp: deserialize_uint32_def rstate_def word_le_nat_alt)
  qed
qed

lemma reads_int32 [reads_intros]: "reads deserialize_int32 (be32 w) w"
  using reads_uint32 [of w] by (simp add: reads_from_def deserialize_int32_def)

lemma reads_uint64 [reads_intros]: "reads (deserialize_uint64 E) (be64 w) w"
proof (rule readsI)
  fix buf :: "byte list" and nbytes :: u64 and v
  let ?hi = "ucast (drop_bit 32 w) :: u32" and ?lo = "ucast (w AND 0xffffffff) :: u32"
  assume h: "holds_prefix (be64 w) buf nbytes"
  have fields: "list_all2 field_reads
      [des_next deserialize_uint32 fst (\<lambda>x (_, u2). (x, u2)),
       des_next deserialize_uint32 snd (\<lambda>x (u1, _). (u1, x))]
      [(be32 ?hi, \<lambda>(_, u2). (?hi, u2)), (be32 ?lo, \<lambda>(u1, _). (u1, ?lo))]"
    by (auto intro!: field_reads_next reads_uint32)
  from des_fields_rstate [OF fields rstate_start [of "\<lambda>_. True"]] h
  obtain s2 where s2: "des_fields
      [des_next deserialize_uint32 fst (\<lambda>x (_, u2). (x, u2)),
       des_next deserialize_uint32 snd (\<lambda>x (u1, _). (u1, x))]
      buf nbytes (0, (indet32 E 0, indet32 E 1), 0) = Some s2"
    and r2: "rstate (be64 w) nbytes (\<lambda>v'. v' = (?hi, ?lo)) s2"
    by (fastforce simp: be64_def elim: rstate_mono)
  show "\<exists>s. deserialize_uint64 E buf nbytes v 0 = Some s \<and> rstate (be64 w) nbytes (\<lambda>v'. v' = w) s"
    using s2 r2 combine_halves [of w]
    by (auto simp: deserialize_uint64_def rstate_def word_le_nat_alt be64_def
        split: if_splits prod.splits)
qed

lemma strnlen_str:
  assumes "str_ok s" "holds_prefix (str_bytes s) buf nbytes" "length s + 1 < 2 ^ 64"
  shows "\<exists>len. strnlen buf nbytes = Some len \<and> unat len = min (length s) (unat nbytes)"
proof -
  have tk: "take (min (Suc (length s)) (unat nbytes)) buf = take (unat nbytes) (str_bytes s)"
    and n: "unat nbytes \<le> length buf"
    using assms(2) by (auto simp: holds_prefix_def)
  have "takeWhile (\<lambda>b. b \<noteq> 0) (take (unat nbytes) buf) = map byte_of_char (take (unat nbytes) s)"
  proof (cases "unat nbytes \<le> length s")
    case True
    then have "take (unat nbytes) buf = map byte_of_char (take (unat nbytes) s)"
      using tk by (simp add: str_bytes_def take_map)
    then show ?thesis
      using assms(1) by (auto simp: takeWhile_eq_all_conv str_ok_def dest: in_set_takeD)
  next
    case False
    then have "take (Suc (length s)) buf = map byte_of_char s @ [0]"
      using tk by (simp add: str_bytes_def min_def split: if_splits)
    then have "take (unat nbytes) buf =
        map byte_of_char s @ 0 # take (unat nbytes - Suc (length s)) (drop (Suc (length s)) buf)"
      using False by (metis append.assoc append_Cons append_Nil le_add_diff_inverse
          not_less_eq_eq take_add)
    then show ?thesis using assms(1) False takeWhile_map_bytes by simp
  qed
  with n show ?thesis
    using assms(3) by (auto simp: strnlen_def min.commute unat_of_nat_u64)
qed

lemma reads_str [reads_intros]:
  assumes "p = Some s" "str_ok s" "can_alloc E (length s + 1)" "2 * (length s + 1) < 2 ^ 64"
  shows "reads (deserialize_str E) (cstr_bytes p) p"
proof (rule readsI)
  fix buf :: "byte list" and nbytes :: u64 and v
  assume "holds_prefix (cstr_bytes p) buf nbytes"
  then have h: "holds_prefix (str_bytes s) buf nbytes" using assms by (simp add: cstr_bytes_def)
  with assms obtain len where len: "strnlen buf nbytes = Some len"
    and ulen: "unat len = min (length s) (unat nbytes)"
    using strnlen_str [of s buf nbytes] by auto
  show "\<exists>sa. deserialize_str E buf nbytes v 0 = Some sa \<and>
          rstate (cstr_bytes p) nbytes (\<lambda>v'. v' = p) sa"
  proof (cases "length s < unat nbytes")
    case True
    then have "take (Suc (length s)) buf = str_bytes s"
      using h by (simp add: holds_prefix_def min_def split: if_splits)
    then have "take (length s) buf = map byte_of_char s"
      by (metis append_eq_conv_conj length_map str_bytes_def take_take min.absorb1 lessI less_imp_le)
    moreover have "unat (len + 1) = length s + 1"
      using True ulen assms by (intro trans [OF unat_add_u64]) auto
    ultimately show ?thesis
      using True ulen len assms
      by (auto simp: deserialize_str_def rstate_def word_less_nat_alt cstr_bytes_def comp_def)
  next
    case False
    then have "unat (2 + nbytes) = unat nbytes + 2"
      using assms by (intro trans [OF unat_add_u64]) auto
    then show ?thesis
      using False ulen len assms
      by (auto simp: deserialize_str_def rstate_def word_less_nat_alt cstr_bytes_def)
  qed
qed

end
