(* ===== verification/Serial_Structs.thy ===== *)
theory Serial_Structs
  imports Serial_Wire
begin

text \<open>
  The wire format of the structures a packet is made of (resources, requests, connect
  packets, stat and data buffers, directories), which values of them can be sent, and what a
  receiver gets: the fields a request does not carry are zero there, and a block that was
  longer than its count is cut.

  A size bound of 2 to the 59 bytes keeps every count of the functions below 2 to the 64,
  also while a deserialiser overshoots on incomplete data.
\<close>

abbreviation wire_max :: nat where "wire_max \<equiv> 2 ^ 59"

lemma writes_cstr:
  assumes "cstr_ok p" "length (cstr_bytes p) < wire_max"
  shows "writes (serialize_str p) (cstr_bytes p)" "writes (serialize_strp p) (cstr_bytes p)"
proof -
  from assms(1) obtain s where s: "p = Some s" by (rule cstr_okE)
  then have "length s + 1 < 2 ^ 64" using assms(2) by (simp add: cstr_bytes_def)
  with s show "writes (serialize_str p) (cstr_bytes p)"
    and "writes (serialize_strp p) (cstr_bytes p)"
    by (auto intro: writes_str writes_strp)
qed

lemma reads_cstr:
  assumes "cstr_ok p" "length (cstr_bytes p) < wire_max" "alloc_upto E (length (cstr_bytes p))"
  shows "reads (deserialize_str E) (cstr_bytes p) p"
proof -
  from assms(1) obtain s where s: "p = Some s" "str_ok s" by (rule cstr_okE)
  have "length (cstr_bytes p) = length s + 1" using s by (simp add: cstr_bytes_def)
  with s assms show ?thesis
    by (intro reads_str) (auto elim!: alloc_uptoD)
qed

section \<open>Resources\<close>

definition enc_rsrc :: "rsrc \<Rightarrow> byte list" where
  "enc_rsrc r = cstr_bytes (mr_owner r) @ cstr_bytes (mr_path r)"

definition rsrc_ok :: "rsrc \<Rightarrow> bool" where
  "rsrc_ok r \<longleftrightarrow> cstr_ok (mr_owner r) \<and> cstr_ok (mr_path r)"

declare rsrc_ok_def [wf_simps]

lemma writes_rsrc:
  assumes "rsrc_ok r" "length (enc_rsrc r) < wire_max"
  shows "writes (serialize_rsrc r) (enc_rsrc r)"
proof -
  have "writes (serialize_struct [serialize_strp (mr_owner r), serialize_strp (mr_path r)])
          (concat [cstr_bytes (mr_owner r), cstr_bytes (mr_path r)])"
    using assms
    by (intro writes_struct) (auto simp: rsrc_ok_def enc_rsrc_def intro!: writes_cstr)
  then show ?thesis by (simp add: serialize_rsrc_def enc_rsrc_def)
qed

lemma reads_rsrc:
  assumes "rsrc_ok r" "length (enc_rsrc r) < wire_max" "alloc_upto E (length (enc_rsrc r))"
  shows "reads (deserialize_rsrc E) (enc_rsrc r) r"
proof -
  let ?ehs = "[(cstr_bytes (mr_owner r), \<lambda>v::rsrc. v\<lparr>mr_owner := mr_owner r\<rparr>),
               (cstr_bytes (mr_path r), \<lambda>v::rsrc. v\<lparr>mr_path := mr_path r\<rparr>)]"
  have "reads (deserialize_rsrc E) (concat (map fst ?ehs)) r"
    using assms
    by (intro reads_fields [where gs =
          "[des_next (deserialize_str E) mr_owner (\<lambda>x r. r\<lparr>mr_owner := x\<rparr>),
            des_next (deserialize_str E) mr_path (\<lambda>x r. r\<lparr>mr_path := x\<rparr>)] :: rsrc dfield list"])
      (auto simp: rsrc_ok_def enc_rsrc_def deserialize_rsrc_def deserialize_struct_def
        intro!: field_reads_next reads_cstr elim: alloc_upto_mono)
  then show ?thesis by (simp add: enc_rsrc_def)
qed

section \<open>Connect packets and stat buffers\<close>

definition enc_connect :: "middfs_connect \<Rightarrow> byte list" where
  "enc_connect c = be32 (conn_port c) @ cstr_bytes (conn_name c)"

definition connect_ok :: "middfs_connect \<Rightarrow> bool" where
  "connect_ok c \<longleftrightarrow> cstr_ok (conn_name c)"

declare connect_ok_def [wf_simps]

lemma writes_connect:
  assumes "connect_ok c" "length (enc_connect c) < wire_max"
  shows "writes (serialize_connect c) (enc_connect c)"
proof -
  have "writes (serialize_struct [serialize_uint32 (conn_port c), serialize_str (conn_name c)])
          (concat [be32 (conn_port c), cstr_bytes (conn_name c)])"
    using assms
    by (intro writes_struct)
      (auto simp: connect_ok_def enc_connect_def intro!: writes_cstr writes_uint32)
  then show ?thesis by (simp add: serialize_connect_def enc_connect_def)
qed

lemma reads_connect:
  assumes "connect_ok c" "length (enc_connect c) < wire_max"
    "alloc_upto E (length (enc_connect c))"
  shows "reads (deserialize_connect E) (enc_connect c) c"
proof -
  let ?ehs = "[(be32 (conn_port c), \<lambda>v::middfs_connect. v\<lparr>conn_port := conn_port c\<rparr>),
               (cstr_bytes (conn_name c), \<lambda>v::middfs_connect. v\<lparr>conn_name := conn_name c\<rparr>)]"
  have "reads (deserialize_connect E) (concat (map fst ?ehs)) c"
    using assms
    by (intro reads_fields [where gs =
          "[des_next deserialize_uint32 conn_port (\<lambda>x c. c\<lparr>conn_port := x\<rparr>),
            des_next (deserialize_str E) conn_name (\<lambda>x c. c\<lparr>conn_name := x\<rparr>)] :: middfs_connect dfield list"])
      (auto simp: connect_ok_def enc_connect_def deserialize_connect_def
        intro!: field_reads_next reads_cstr reads_uint32 elim: alloc_upto_mono)
  then show ?thesis by (simp add: enc_connect_def)
qed

definition enc_stat :: "middfs_stat \<Rightarrow> byte list" where
  "enc_stat s = be32 (mstat_mode s) @ be64 (mstat_size s) @ be64 (mstat_blocks s)
     @ be64 (mstat_blksize s)"

lemma writes_stat: "writes (serialize_stat s) (enc_stat s)"
proof -
  have "writes (serialize_struct [serialize_uint32 (mstat_mode s),
            serialize_uint64 (mstat_size s), serialize_uint64 (mstat_blocks s),
            serialize_uint64 (mstat_blksize s)])
          (concat [be32 (mstat_mode s), be64 (mstat_size s), be64 (mstat_blocks s),
            be64 (mstat_blksize s)])"
    by (intro writes_struct) (auto intro!: writes_uint32 writes_uint64)
  then show ?thesis by (simp add: serialize_stat_def enc_stat_def)
qed

lemma reads_stat: "reads (deserialize_stat E) (enc_stat s) s"
proof -
  let ?ehs = "[(be32 (mstat_mode s), \<lambda>v::middfs_stat. v\<lparr>mstat_mode := mstat_mode s\<rparr>),
               (be64 (mstat_size s), \<lambda>v::middfs_stat. v\<lparr>mstat_size := mstat_size s\<rparr>),
               (be64 (mstat_blocks s), \<lambda>v::middfs_stat. v\<lparr>mstat_blocks := mstat_blocks s\<rparr>),
               (be64 (mstat_blksize s), \<lambda>v::middfs_stat. v\<lparr>mstat_blksize := mstat_blksize s\<rparr>)]"
  have "reads (deserialize_stat E) (concat (map fst ?ehs)) s"
    by (intro reads_fields [where gs =
          "[des_next deserialize_uint32 mstat_mode (\<lambda>x s. s\<lparr>mstat_mode := x\<rparr>),
            des_next (deserialize_uint64 E) mstat_size (\<lambda>x s. s\<lparr>mstat_size := x\<rparr>),
            des_next (deserialize_uint64 E) mstat_blocks (\<lambda>x s. s\<lparr>mstat_blocks := x\<rparr>),
            des_next (deserialize_uint64 E) mstat_blksize (\<lambda>x s. s\<lparr>mstat_blksize := x\<rparr>)] :: middfs_stat dfield list"])
      (auto simp: deserialize_stat_def intro!: field_reads_next reads_uint64 reads_uint32)
  then show ?thesis by (simp add: enc_stat_def)
qed

section \<open>Blocks with a count\<close>

text \<open>A block that a count of bytes describes; the null pointer is fine for a count of 0.\<close>

definition block_ok :: "u64 \<Rightarrow> byte list option \<Rightarrow> bool" where
  "block_ok sz p \<longleftrightarrow>
     sz = 0 \<or> (case p of None \<Rightarrow> False | Some d \<Rightarrow> unat sz \<le> length d)"

definition block_bytes :: "u64 \<Rightarrow> byte list option \<Rightarrow> byte list" where
  "block_bytes sz p = (case p of None \<Rightarrow> [] | Some d \<Rightarrow> take (unat sz) d)"

declare block_ok_def [wf_simps]

lemma length_block_bytes [simp]: "block_ok sz p \<Longrightarrow> length (block_bytes sz p) = unat sz"
  by (auto simp: block_ok_def block_bytes_def split: option.splits)

lemma block_bytes_0 [simp]: "block_bytes 0 p = []"
  by (simp add: block_bytes_def split: option.splits)

lemma memcpy_to_block:
  "block_ok sz p \<Longrightarrow> unat sz \<le> length dst \<Longrightarrow>
   memcpy_to dst p sz = Some (block_bytes sz p @ drop (unat sz) dst)"
  by (auto simp: block_ok_def block_bytes_def memcpy_to_def split: option.splits)

lemma writes_req_data:
  "block_ok sz p \<Longrightarrow> writes (serialize_req_data p sz) (block_bytes sz p)"
  by (rule writesI) (auto simp: serialize_req_data_def wstate_def memcpy_to_block word_le_nat_alt)

lemma writes_data_buf:
  assumes "block_ok (mdata_nbytes d) (mdata_buf d)"
  shows "writes (serialize_data_buf d) (block_bytes (mdata_nbytes d) (mdata_buf d))"
proof (rule writesI)
  fix buf :: "byte list" and nbytes :: u64 assume "unat nbytes \<le> length buf"
  with assms show "\<exists>s. serialize_data_buf d buf nbytes = Some s \<and>
      wstate (block_bytes (mdata_nbytes d) (mdata_buf d)) nbytes buf s"
    by (cases "mdata_nbytes d = 0")
      (auto simp: serialize_data_buf_def wstate_def memcpy_to_block word_le_nat_alt
        word_less_nat_alt unat_eq_0)
qed

definition enc_data :: "middfs_data \<Rightarrow> byte list" where
  "enc_data d = be64 (mdata_nbytes d) @ block_bytes (mdata_nbytes d) (mdata_buf d)"

definition data_ok :: "middfs_data \<Rightarrow> bool" where
  "data_ok d \<longleftrightarrow> block_ok (mdata_nbytes d) (mdata_buf d)"

definition canon_data :: "middfs_data \<Rightarrow> middfs_data" where
  "canon_data d =
     d\<lparr>mdata_buf := if mdata_nbytes d = 0 then None
                   else Some (block_bytes (mdata_nbytes d) (mdata_buf d))\<rparr>"

declare data_ok_def [wf_simps]

lemma writes_data:
  assumes "data_ok d" "length (enc_data d) < wire_max"
  shows "writes (serialize_data d) (enc_data d)"
proof -
  have "writes (serialize_struct [serialize_uint64 (mdata_nbytes d), serialize_data_buf d])
          (concat [be64 (mdata_nbytes d), block_bytes (mdata_nbytes d) (mdata_buf d)])"
    using assms
    by (intro writes_struct)
      (auto simp: data_ok_def enc_data_def intro!: writes_uint64 writes_data_buf)
  then show ?thesis by (simp add: serialize_data_def enc_data_def)
qed

lemma memdup_block:
  "can_alloc E (unat sz) \<Longrightarrow> unat sz \<le> length mem \<Longrightarrow>
   memdup E mem sz = Some (Some (take (unat sz) mem))"
  by (simp add: memdup_def)

text \<open>What a counted block at the end of the bytes holds, and how far the count overshoots.\<close>

lemma holds_prefix_block:
  assumes "holds_prefix (e @ blk) buf nbytes" "unat used = length e"
    "length e + length blk \<le> unat nbytes"
  shows "take (length blk) (drop (unat used) buf) = blk"
    "length blk \<le> length (drop (unat used) buf)"
proof -
  have tk: "take (length e + length blk) buf = e @ blk" "unat nbytes \<le> length buf"
    using assms by (auto simp: holds_prefix_def min_def split: if_splits)
  then show "take (length blk) (drop (unat used) buf) = blk"
    using assms(2) by (simp add: take_drop add.commute)
  show "length blk \<le> length (drop (unat used) buf)"
    using tk assms by simp
qed

lemma reads_data:
  assumes "data_ok d" "length (enc_data d) < wire_max" "alloc_upto E (length (enc_data d))"
  shows "reads_from (\<lambda>v. mdata_buf v = None) (deserialize_data E) (enc_data d) (canon_data d)"
proof (rule readsI)
  fix buf :: "byte list" and nbytes :: u64 and v :: middfs_data
  assume v: "mdata_buf v = None" and h: "holds_prefix (enc_data d) buf nbytes"
  let ?blk = "block_bytes (mdata_nbytes d) (mdata_buf d)"
  let ?get = "\<lambda>x d. d\<lparr>mdata_nbytes := x\<rparr> :: middfs_data"
  have blk: "length ?blk = unat (mdata_nbytes d)" using assms(1) by (simp add: data_ok_def)
  have len: "8 + unat (mdata_nbytes d) < wire_max" using assms(2) blk by (simp add: enc_data_def)
  obtain used d1 where s: "des_next (deserialize_uint64 E) mdata_nbytes ?get buf nbytes (0, v, 0)
      = Some (used, d1, 0)"
    and full: "8 \<le> unat nbytes \<Longrightarrow> unat used = 8 \<and> d1 = v\<lparr>mdata_nbytes := mdata_nbytes d\<rparr>"
    and short: "unat nbytes < 8 \<Longrightarrow> unat nbytes < unat used \<and> unat used \<le> 16"
    by (rule des_first [OF reads_uint64 [of E] h [unfolded enc_data_def],
          where get = mdata_nbytes and put = ?get and v = v]) auto
  show "\<exists>s. deserialize_data E buf nbytes v 0 = Some s \<and>
      rstate (enc_data d) nbytes (\<lambda>v'. v' = canon_data d) s"
  proof (cases "8 \<le> unat nbytes")
    case False
    with s short show ?thesis
      by (auto simp: deserialize_data_def rstate_def enc_data_def word_less_nat_alt)
  next
    case True
    with full have used: "unat used = 8" and d1: "d1 = v\<lparr>mdata_nbytes := mdata_nbytes d\<rparr>"
      by auto
    have sum: "unat (used + mdata_nbytes d) = 8 + unat (mdata_nbytes d)"
      using used len by (intro trans [OF unat_add_u64]) auto
    have alloc: "can_alloc E (unat (mdata_nbytes d))"
      using assms(3) blk by (auto intro: alloc_uptoD simp: enc_data_def)
    show ?thesis
    proof (cases "8 + unat (mdata_nbytes d) \<le> unat nbytes \<and> mdata_nbytes d \<noteq> 0")
      case True
      with holds_prefix_block [of "be64 (mdata_nbytes d)" ?blk buf nbytes used] h used blk alloc
      have "memdup E (drop (unat used) buf) (mdata_nbytes d) = Some (Some ?blk)"
        by (simp add: memdup_block enc_data_def)
      with True s used d1 sum blk show ?thesis
        by (auto simp: deserialize_data_def rstate_def enc_data_def canon_data_def
            word_less_nat_alt word_le_nat_alt unat_eq_0)
    next
      case False
      with s used d1 sum blk v \<open>8 \<le> unat nbytes\<close> show ?thesis
        by (auto simp: deserialize_data_def rstate_def enc_data_def canon_data_def
            word_less_nat_alt word_le_nat_alt unat_eq_0)
    qed
  qed
qed

lemma resumes_data:
  assumes "data_ok d" "length (enc_data d) < wire_max" "alloc_upto E (length (enc_data d))"
  shows "resumes (\<lambda>v. mdata_buf v = None) (deserialize_data E) (enc_data d) (canon_data d)"
proof (rule resumesI)
  fix buf :: "byte list" and nbytes :: u64 and v :: middfs_data
  assume v: "mdata_buf v = None" and h: "holds_prefix (enc_data d) buf nbytes"
  obtain m v' where des: "deserialize_data E buf nbytes v 0 = Some (m, v', 0)"
    and r: "rstate (enc_data d) nbytes (\<lambda>w. w = canon_data d) (m, v', 0)"
    by (rule reads_obtain [OF reads_data [OF assms] v h])
  have "mdata_buf v' = None" if "unat nbytes < length (enc_data d)"
  proof -
    have over: "unat nbytes < unat m" using r that by (simp add: rstate_def)
    obtain used d1 e1 where s: "des_next (deserialize_uint64 E) mdata_nbytes (\<lambda>x d. d\<lparr>mdata_nbytes := x\<rparr>)
        buf nbytes (0, v, 0) = Some (used, d1, e1)"
      using des by (auto simp: deserialize_data_def bind_Some_iff)
    have d1: "mdata_buf d1 = None" using des_next_target [OF s] v by auto
    show ?thesis
    proof (cases "nbytes < used \<or> e1 \<noteq> 0")
      case True
      with des s d1 show ?thesis by (auto simp: deserialize_data_def)
    next
      case False
      have "\<not> (mdata_nbytes d1 \<le> sizerem nbytes used \<and> 0 < mdata_nbytes d1)"
      proof
        assume c: "mdata_nbytes d1 \<le> sizerem nbytes used \<and> 0 < mdata_nbytes d1"
        then have le: "unat used + unat (mdata_nbytes d1) \<le> unat nbytes"
          using False by (auto simp: word_le_nat_alt word_less_nat_alt)
        from le_less_trans [OF le unat_u64_bound] le
        have sum: "unat (used + mdata_nbytes d1) \<le> unat nbytes"
          by (simp only: unat_add_u64)
        from des s False c have "m = used + mdata_nbytes d1 \<or> m = 0"
          by (auto simp: deserialize_data_def bind_Some_iff split: option.splits)
        with over sum show False by auto
      qed
      with des s d1 False show ?thesis by (auto simp: deserialize_data_def)
    qed
  qed
  with des r show "\<exists>m v'. deserialize_data E buf nbytes v 0 = Some (m, v', 0) \<and>
      rstate (enc_data d) nbytes (\<lambda>w. w = canon_data d) (m, v', 0) \<and>
      (unat nbytes < length (enc_data d) \<longrightarrow> mdata_buf v' = None)"
    by blast
qed

section \<open>Directories\<close>

definition enc_dirent :: "middfs_dirent \<Rightarrow> byte list" where
  "enc_dirent e = cstr_bytes (mde_name e) @ be32 (mde_mode e)"

definition dirent_ok :: "middfs_dirent \<Rightarrow> bool" where
  "dirent_ok e \<longleftrightarrow> cstr_ok (mde_name e)"

declare dirent_ok_def [wf_simps]

lemma writes_dirent:
  assumes "dirent_ok e" "length (enc_dirent e) < wire_max"
  shows "writes (serialize_dirent e) (enc_dirent e)"
proof -
  have "writes (serialize_struct [serialize_str (mde_name e), serialize_int32 (mde_mode e)])
          (concat [cstr_bytes (mde_name e), be32 (mde_mode e)])"
    using assms
    by (intro writes_struct)
      (auto simp: dirent_ok_def enc_dirent_def intro!: writes_cstr writes_int32)
  then show ?thesis by (simp add: serialize_dirent_def enc_dirent_def)
qed

lemma reads_dirent:
  assumes "dirent_ok e" "length (enc_dirent e) < wire_max" "alloc_upto E (length (enc_dirent e))"
  shows "reads (deserialize_dirent E) (enc_dirent e) e"
proof -
  let ?ehs = "[(cstr_bytes (mde_name e), \<lambda>v::middfs_dirent. v\<lparr>mde_name := mde_name e\<rparr>),
               (be32 (mde_mode e), \<lambda>v. v\<lparr>mde_mode := mde_mode e\<rparr>)]"
  have "reads (deserialize_dirent E) (concat (map fst ?ehs)) e"
    using assms
    by (intro reads_fields [where gs =
          "[des_next (deserialize_str E) mde_name (\<lambda>x e. e\<lparr>mde_name := x\<rparr>),
            des_next deserialize_int32 mde_mode (\<lambda>x e. e\<lparr>mde_mode := x\<rparr>)]
           :: middfs_dirent dfield list"])
      (auto simp: dirent_ok_def enc_dirent_def deserialize_dirent_def
        intro!: field_reads_next reads_cstr reads_int32 elim: alloc_upto_mono)
  then show ?thesis by (simp add: enc_dirent_def)
qed

text \<open>The entries a directory's count covers.\<close>

definition dir_entries :: "middfs_dir \<Rightarrow> middfs_dirent list" where
  "dir_entries d =
     (case mdir_ents d of None \<Rightarrow> [] | Some es \<Rightarrow> take (unat (mdir_count d)) es)"

definition enc_dir :: "middfs_dir \<Rightarrow> byte list" where
  "enc_dir d = be64 (mdir_count d) @ concat (map enc_dirent (dir_entries d))"

definition dir_ok :: "middfs_dir \<Rightarrow> bool" where
  "dir_ok d \<longleftrightarrow>
     length (dir_entries d) = unat (mdir_count d) \<and> list_all dirent_ok (dir_entries d)"

definition canon_dir :: "middfs_dir \<Rightarrow> middfs_dir" where
  "canon_dir d = d\<lparr>mdir_ents := Some (dir_entries d)\<rparr>"

declare dir_ok_def [wf_simps]

lemma dir_entries_at:
  assumes "dir_ok d" "i < unat (mdir_count d)"
  shows "dirent_at (mdir_ents d) i = Some (dir_entries d ! i)"
  using assms
  by (auto simp: dir_ok_def dir_entries_def dirent_at_def split: option.splits)

lemma length_enc_dirent_le:
  "e \<in> set es \<Longrightarrow> length (enc_dirent e) \<le> length (concat (map enc_dirent es))"
  by (induction es) auto

lemma writes_dir:
  assumes "dir_ok d" "length (enc_dir d) < wire_max"
  shows "writes (serialize_dir d) (enc_dir d)"
proof -
  let ?n = "unat (mdir_count d)" and ?es = "dir_entries d"
  let ?f = "\<lambda>i buf nbytes. do { de \<leftarrow> dirent_at (mdir_ents d) i; serialize_dirent de buf nbytes }"
  have len: "length ?es = ?n" and ok: "\<forall>e\<in>set ?es. dirent_ok e"
    using assms(1) by (auto simp: dir_ok_def list_all_iff)
  have "writes (?f i) (enc_dirent (?es ! i))" if "i < ?n" for i
  proof -
    have mem: "?es ! i \<in> set ?es" using that len by simp
    then have "length (enc_dirent (?es ! i)) < wire_max"
      using length_enc_dirent_le [OF mem] assms(2) by (simp add: enc_dir_def)
    with ok mem have "writes (serialize_dirent (?es ! i)) (enc_dirent (?es ! i))"
      by (intro writes_dirent) auto
    with dir_entries_at [OF assms(1) that] show ?thesis by (simp add: writes_def)
  qed
  then have "list_all2 writes (map ?f [0..<?n]) (map enc_dirent ?es)"
    using len by (auto simp: list_all2_conv_all_nth)
  then have "writes (serialize_struct (serialize_uint64 (mdir_count d) # map ?f [0..<?n]))
      (concat (be64 (mdir_count d) # map enc_dirent ?es))"
    using assms(2) by (intro writes_struct) (auto simp: enc_dir_def intro: writes_uint64)
  then show ?thesis by (simp add: serialize_dir_def enc_dir_def)
qed

text \<open>
  The loop over the entries keeps an array of the full length; after i turns its first i
  entries are those of the sender, if their bytes were there.
\<close>

definition dir_state ::
    "middfs_dir \<Rightarrow> u64 \<Rightarrow> nat \<Rightarrow> u64 \<times> middfs_dir \<times> int \<Rightarrow> bool" where
  "dir_state d nbytes i s \<longleftrightarrow>
     (let es = dir_entries d; e = be64 (mdir_count d) @ concat (map enc_dirent (take i es)) in
      \<exists>used arr. s = (used, \<lparr>mdir_count = mdir_count d, mdir_ents = Some arr\<rparr>, 0) \<and>
        length arr = length es \<and>
        (if length e \<le> unat nbytes
         then unat used = length e \<and> take i arr = take i es
         else unat nbytes < unat used \<and> unat used \<le> 2 * length e))"

lemma take_Suc_update:
  assumes "i < length arr" "i < length es" "take i arr = take i es"
  shows "take (Suc i) (arr[i := es ! i]) = take (Suc i) es"
  using assms by (simp add: take_Suc_conv_app_nth)

lemma dir_step_state:
  assumes s: "dir_state d nbytes i s" and i: "i < length (dir_entries d)"
    and ok: "dir_ok d" and len: "length (enc_dir d) < wire_max"
    and al: "alloc_upto E (length (enc_dir d))" and h: "holds_prefix (enc_dir d) buf nbytes"
  shows "\<exists>s'. dir_step E i buf nbytes s = Some s' \<and> dir_state d nbytes (Suc i) s'"
proof -
  let ?es = "dir_entries d"
  let ?e = "be64 (mdir_count d) @ concat (map enc_dirent (take i ?es))"
  let ?x = "?es ! i"
  let ?r = "concat (map enc_dirent (drop (Suc i) ?es))"
  have "concat (map enc_dirent ?es) = concat (map enc_dirent (take i ?es @ ?x # drop (Suc i) ?es))"
    by (rule arg_cong [OF id_take_nth_drop [OF i]])
  then have split: "enc_dir d = (?e @ enc_dirent ?x) @ ?r"
    by (simp add: enc_dir_def)
  have e1: "be64 (mdir_count d) @ concat (map enc_dirent (take (Suc i) ?es)) = ?e @ enc_dirent ?x"
    using i by (simp add: take_Suc_conv_app_nth)
  obtain used arr where s_eq: "s = (used, \<lparr>mdir_count = mdir_count d, mdir_ents = Some arr\<rparr>, 0)"
    and arr: "length arr = length ?es"
    and full: "length ?e \<le> unat nbytes \<Longrightarrow> unat used = length ?e \<and> take i arr = take i ?es"
    and short: "unat nbytes < length ?e \<Longrightarrow> unat nbytes < unat used \<and> unat used \<le> 2 * length ?e"
    using s unfolding dir_state_def Let_def by (metis not_le)
  have "dirent_ok ?x" using ok i by (auto simp: dir_ok_def list_all_iff)
  moreover have "length ?e + length (enc_dirent ?x) \<le> length (enc_dir d)" using split by simp
  ultimately have rd: "reads (deserialize_dirent E) (enc_dirent ?x) ?x"
    using len al by (intro reads_dirent) (auto elim: alloc_upto_mono)
  have he: "holds_prefix (?e @ enc_dirent ?x) buf nbytes"
    using h holds_prefix_left unfolding split by blast
  have arr_i: "dirent_at (Some arr) i = Some (arr ! i)" using i arr by (simp add: dirent_at_def)
  have hd: "holds_prefix (enc_dirent ?x) (drop (unat used) buf) (sizerem nbytes used)"
  proof (cases "length ?e \<le> unat nbytes")
    case True
    with holds_prefix_right [OF he True, of used] full show ?thesis by simp
  next
    case False
    with short show ?thesis by (intro holds_prefix_zero) simp
  qed
  obtain m x' where step:
      "deserialize_dirent E (drop (unat used) buf) (sizerem nbytes used) (arr ! i) 0
       = Some (m, x', 0)"
    and w: "rstate (enc_dirent ?x) (sizerem nbytes used) (\<lambda>v'. v' = ?x) (m, x', 0)"
    and m: "unat m \<le> 2 * length (enc_dirent ?x)"
    by (rule reads_obtain [OF rd TrueI hd])
  have bound: "length ?e + length (enc_dirent ?x) < wire_max" using split len by simp
  have used: "unat used \<le> 2 * length ?e"
    using full short by (cases "length ?e \<le> unat nbytes") auto
  then have sum: "unat (used + m) = unat used + unat m"
    using m bound by (intro unat_add_u64) simp
  have "dir_state d nbytes (Suc i)
      (used + m, \<lparr>mdir_count = mdir_count d, mdir_ents = Some (arr[i := x'])\<rparr>, 0)"
    unfolding dir_state_def Let_def e1
    using full short w sum arr i m used
    by (cases "length ?e \<le> unat nbytes")
      (auto simp: rstate_def intro!: take_Suc_update split: if_splits)
  with step arr_i show ?thesis by (simp add: dir_step_def s_eq)
qed

lemma dir_loop_state:
  assumes "dir_state d nbytes i s" "i \<le> length (dir_entries d)" "dir_ok d"
    "length (enc_dir d) < wire_max" "alloc_upto E (length (enc_dir d))"
    "holds_prefix (enc_dir d) buf nbytes"
  shows "\<exists>s'. des_fields (map (dir_step E) [i..<length (dir_entries d)]) buf nbytes s = Some s' \<and>
           dir_state d nbytes (length (dir_entries d)) s'"
  using assms(1,2)
proof (induction "length (dir_entries d) - i" arbitrary: i s)
  case 0
  then show ?case by simp
next
  case (Suc k)
  then have i: "i < length (dir_entries d)" by simp
  from dir_step_state [OF Suc.prems(1) i assms(3-6)] obtain s1
    where "dir_step E i buf nbytes s = Some s1" "dir_state d nbytes (Suc i) s1" by blast
  with Suc.hyps(1) [of "Suc i" s1] Suc.hyps(2) i show ?case
    by (simp add: upt_conv_Cons)
qed

definition dir_target :: "middfs_dir \<Rightarrow> middfs_dir \<Rightarrow> bool" where
  "dir_target d v \<longleftrightarrow> (\<forall>es. mdir_ents v = Some es \<longrightarrow> length es = unat (mdir_count d))"

lemma resumes_dir:
  assumes ok: "dir_ok d" and len: "length (enc_dir d) < wire_max"
    and al: "alloc_upto E (16 * length (enc_dir d))"
  shows "resumes (dir_target d) (deserialize_dir E) (enc_dir d) (canon_dir d)"
proof (rule resumesI)
  fix buf :: "byte list" and nbytes :: u64 and v :: middfs_dir
  assume v: "dir_target d v" and h: "holds_prefix (enc_dir d) buf nbytes"
  let ?put = "\<lambda>x d. d\<lparr>mdir_count := x\<rparr> :: middfs_dir"
  let ?cnt = "length (dir_entries d)"
  have cnt: "?cnt = unat (mdir_count d)" using ok by (simp add: dir_ok_def)
  have le: "length (concat (map enc_dirent es)) \<ge> length es" for es
    by (induction es) (auto simp: enc_dirent_def)
  then have cle: "unat (mdir_count d) + 8 \<le> length (enc_dir d)"
    using cnt by (simp add: enc_dir_def add.commute) (metis le)
  obtain used d1 where s: "des_next (deserialize_uint64 E) mdir_count ?put buf nbytes (0, v, 0)
      = Some (used, d1, 0)"
    and full: "8 \<le> unat nbytes \<Longrightarrow> unat used = 8 \<and> d1 = v\<lparr>mdir_count := mdir_count d\<rparr>"
    and short: "unat nbytes < 8 \<Longrightarrow> unat nbytes < unat used \<and> unat used \<le> 16"
    by (rule des_first [OF reads_uint64 [of E] h [unfolded enc_dir_def],
          where get = mdir_count and put = ?put and v = v]) auto
  show "\<exists>m v'. deserialize_dir E buf nbytes v 0 = Some (m, v', 0) \<and>
      rstate (enc_dir d) nbytes (\<lambda>w. w = canon_dir d) (m, v', 0) \<and>
      (unat nbytes < length (enc_dir d) \<longrightarrow> dir_target d v')"
  proof (cases "8 \<le> unat nbytes")
    case False
    have "dir_target d d1" using des_next_target [OF s] v by (auto simp: dir_target_def)
    with False s short cle show ?thesis
      by (auto simp: deserialize_dir_def rstate_def word_less_nat_alt)
  next
    case True
    define arr where "arr = (case mdir_ents v of None \<Rightarrow> replicate ?cnt zero_dirent | Some es \<Rightarrow> es)"
    let ?d2 = "\<lparr>mdir_count = mdir_count d, mdir_ents = Some arr\<rparr>"
    have used: "unat used = 8" and d1: "d1 = \<lparr>mdir_count = mdir_count d, mdir_ents = mdir_ents v\<rparr>"
      using full True by (auto intro: middfs_dir.equality)
    have arr: "length arr = ?cnt"
      using v cnt by (auto simp: arr_def dir_target_def split: option.splits)
    have "can_alloc E (unat (mdir_count d) * 16)" using al cle by (auto intro: alloc_uptoD)
    moreover have "unat (mdir_count d) * 16 < 2 ^ 64" using cle len by simp
    ultimately have calloc: "calloc_ok E (mdir_count d) sizeof_dirent"
      unfolding sizeof_dirent_def by (intro calloc_okI)
    have st: "dir_state d nbytes 0 (used, ?d2, 0)"
      using used True arr by (auto simp: dir_state_def)
    from dir_loop_state [OF st _ ok len alloc_upto_mono [OF al] h] obtain s'
      where loop: "des_fields (map (dir_step E) [0..<?cnt]) buf nbytes (used, ?d2, 0) = Some s'"
        and st': "dir_state d nbytes ?cnt s'" by auto
    obtain m v' where s': "s' = (m, v', 0)" and keep: "dir_target d v'"
      using st' cnt by (auto simp: dir_state_def Let_def dir_target_def)
    have "rstate (enc_dir d) nbytes (\<lambda>w. w = canon_dir d) s'"
      using st' by (auto simp: dir_state_def Let_def rstate_def enc_dir_def canon_dir_def
          intro: middfs_dir.equality)
    moreover have "\<not> nbytes < used" using True used by (simp add: word_less_nat_alt)
    ultimately have "deserialize_dir E buf nbytes v 0 = Some s'"
      using s d1 calloc loop cnt
      by (cases "mdir_ents v") (simp_all add: deserialize_dir_def Let_def arr_def)
    with \<open>rstate (enc_dir d) nbytes (\<lambda>w. w = canon_dir d) s'\<close> s' keep show ?thesis by blast
  qed
qed

lemma reads_dir:
  assumes "dir_ok d" "length (enc_dir d) < wire_max" "alloc_upto E (16 * length (enc_dir d))"
  shows "reads_from (\<lambda>v. mdir_ents v = None) (deserialize_dir E) (enc_dir d) (canon_dir d)"
  by (rule resumes_reads [OF resumes_dir [OF assms]]) (simp add: dir_target_def)

end
