(* ===== verification/Serial_Packets.thy ===== *)
theory Serial_Packets
  imports Serial_Structs
begin

text \<open>
  The wire format of requests, responses and whole packets. \<open>pkt_ok\<close> says which packets can
  be sent, \<open>enc_pkt\<close> the bytes they are sent as, \<open>canon_pkt\<close> the packet a receiver gets.
\<close>

section \<open>Requests\<close>

definition request_shared_bytes :: "middfs_request \<Rightarrow> byte list list" where
  "request_shared_bytes r =
     [be32 (mreq_code (mreq_type r)), cstr_bytes (mreq_requester r), enc_rsrc (mreq_rsrc r)]"

definition request_specific_bytes :: "middfs_request \<Rightarrow> byte list list" where
  "request_specific_bytes r =
     (let t = mreq_type r in
      (if req_has_mode t then [be32 (mreq_mode r)] else [])
      @ (if req_has_size t then [be64 (mreq_size r)] else [])
      @ (if req_has_to t then [enc_rsrc (mreq_to r)] else [])
      @ (if req_has_off t then [be64 (mreq_off r)] else []))"

definition request_data_bytes :: "middfs_request \<Rightarrow> byte list list" where
  "request_data_bytes r =
     (if req_has_data (mreq_type r) then [block_bytes (mreq_size r) (mreq_data r)] else [])"

definition enc_request :: "middfs_request \<Rightarrow> byte list" where
  "enc_request r =
     concat (request_shared_bytes r @ request_specific_bytes r @ request_data_bytes r)"

text \<open>
  A request can be sent faithfully if its strings are set, its data covers its size, and its
  size and offset, which pass through an \<open>int32_t\<close>, are below 2 to the 31.
\<close>

definition request_ok :: "middfs_request \<Rightarrow> bool" where
  "request_ok r \<longleftrightarrow>
     (let t = mreq_type r in
      mreq_ok t \<and> cstr_ok (mreq_requester r) \<and> rsrc_ok (mreq_rsrc r) \<and>
      (req_has_size t \<longrightarrow> unat (mreq_size r) < 2 ^ 31) \<and>
      (req_has_to t \<longrightarrow> rsrc_ok (mreq_to r)) \<and>
      (req_has_off t \<longrightarrow> unat (mreq_off r) < 2 ^ 31) \<and>
      (req_has_data t \<longrightarrow> block_ok (mreq_size r) (mreq_data r)))"

definition canon_request :: "middfs_request \<Rightarrow> middfs_request" where
  "canon_request r =
     (let t = mreq_type r in
      \<lparr>mreq_type = t, mreq_requester = mreq_requester r, mreq_rsrc = mreq_rsrc r,
       mreq_mode = if req_has_mode t then mreq_mode r else 0,
       mreq_size = if req_has_size t then mreq_size r else 0,
       mreq_to = if req_has_to t then mreq_to r else zero_rsrc,
       mreq_off = if req_has_off t then mreq_off r else 0,
       mreq_data = if req_has_data t then Some (block_bytes (mreq_size r) (mreq_data r))
                   else None\<rparr>)"

declare request_ok_def [wf_simps]

text \<open>What reading needs of a request: of its strings, and of its data.\<close>

definition request_named :: "middfs_request \<Rightarrow> bool" where
  "request_named r \<longleftrightarrow>
     mreq_ok (mreq_type r) \<and> cstr_ok (mreq_requester r) \<and> rsrc_ok (mreq_rsrc r) \<and>
     (req_has_to (mreq_type r) \<longrightarrow> rsrc_ok (mreq_to r))"

definition request_filled :: "middfs_request \<Rightarrow> bool" where
  "request_filled r \<longleftrightarrow> (req_has_data (mreq_type r) \<longrightarrow> block_ok (mreq_size r) (mreq_data r))"

lemma request_ok_parts: "request_ok r \<Longrightarrow> request_named r" "request_ok r \<Longrightarrow> request_filled r"
  by (simp_all add: request_ok_def request_named_def request_filled_def Let_def)

text \<open>The size and the offset are what is left of them after the casts.\<close>

definition request_narrow :: "middfs_request \<Rightarrow> bool" where
  "request_narrow r \<longleftrightarrow>
     (req_has_size (mreq_type r) \<longrightarrow> via_int32 (mreq_size r) = mreq_size r) \<and>
     (req_has_off (mreq_type r) \<longrightarrow> via_int32 (mreq_off r) = mreq_off r)"

lemma request_ok_narrow: "request_ok r \<Longrightarrow> request_narrow r"
  by (simp add: request_ok_def request_narrow_def Let_def via_int32_small)

lemma enc_request_split:
  "enc_request r = concat (request_shared_bytes r) @ concat (request_specific_bytes r)
     @ concat (request_data_bytes r)"
  by (simp add: enc_request_def)

lemma request_part_length:
  "e \<in> set (request_shared_bytes r @ request_specific_bytes r @ request_data_bytes r) \<Longrightarrow>
   length e \<le> length (enc_request r)"
  unfolding enc_request_def by (rule member_length_concat)

lemma request_to_length:
  "req_has_to (mreq_type r) \<Longrightarrow> length (enc_rsrc (mreq_to r)) \<le> length (enc_request r)"
  by (rule request_part_length) (simp add: request_specific_bytes_def Let_def)

lemma request_shared_length:
  "length (cstr_bytes (mreq_requester r)) \<le> length (enc_request r)"
  "length (enc_rsrc (mreq_rsrc r)) \<le> length (enc_request r)"
  by (rule request_part_length, simp add: request_shared_bytes_def)+

lemma writes_request:
  assumes ok: "request_named r" "request_filled r" "request_narrow r" and len: "length (enc_request r) < wire_max"
  shows "writes (serialize_request r) (enc_request r)"
proof -
  let ?t = "mreq_type r"
  let ?es = "request_shared_bytes r @ request_specific_bytes r @ request_data_bytes r"
  have name: "writes (serialize_str (mreq_requester r)) (cstr_bytes (mreq_requester r))"
    using ok len request_shared_length(1) [of r]
    by (intro writes_cstr) (simp_all add: request_named_def)
  have res: "writes (serialize_rsrc (mreq_rsrc r)) (enc_rsrc (mreq_rsrc r))"
    using ok len request_shared_length(2) [of r]
    by (intro writes_rsrc) (simp_all add: request_named_def)
  have shared: "list_all2 writes
      [serialize_uint32 (mreq_code ?t), serialize_str (mreq_requester r),
       serialize_rsrc (mreq_rsrc r)] (request_shared_bytes r)"
    unfolding request_shared_bytes_def
    by (intro list.rel_intros writes_uint32 name res)
  have to: "writes (serialize_rsrc (mreq_to r)) (enc_rsrc (mreq_to r))" if "req_has_to ?t"
    using ok len request_to_length [OF that] that
    by (intro writes_rsrc) (simp_all add: request_named_def)
  have sz: "via_int32 (mreq_size r) = mreq_size r" if "req_has_size ?t"
    using ok that by (simp add: request_narrow_def)
  have off: "via_int32 (mreq_off r) = mreq_off r" if "req_has_off ?t"
    using ok that by (simp add: request_narrow_def)
  have specific: "list_all2 writes
      ((if req_has_mode ?t then [serialize_int32 (mreq_mode r)] else [])
       @ (if req_has_size ?t then [serialize_uint64 (via_int32 (mreq_size r))] else [])
       @ (if req_has_to ?t then [serialize_rsrc (mreq_to r)] else [])
       @ (if req_has_off ?t then [serialize_uint64 (via_int32 (mreq_off r))] else []))
      (request_specific_bytes r)"
    unfolding request_specific_bytes_def Let_def
    by (intro list_all2_appendI list_all2_if)
      (simp_all only: sz off to writes_int32 writes_uint64)
  have dat: "list_all2 writes
      (if req_has_data ?t then [serialize_req_data (mreq_data r) (mreq_size r)] else [])
      (request_data_bytes r)"
    using ok by (auto simp: request_data_bytes_def request_filled_def intro!: writes_req_data)
  have "writes (serialize_struct
      ([serialize_uint32 (mreq_code ?t), serialize_str (mreq_requester r),
        serialize_rsrc (mreq_rsrc r)]
       @ ((if req_has_mode ?t then [serialize_int32 (mreq_mode r)] else [])
          @ (if req_has_size ?t then [serialize_uint64 (via_int32 (mreq_size r))] else [])
          @ (if req_has_to ?t then [serialize_rsrc (mreq_to r)] else [])
          @ (if req_has_off ?t then [serialize_uint64 (via_int32 (mreq_off r))] else []))
       @ (if req_has_data ?t then [serialize_req_data (mreq_data r) (mreq_size r)] else [])))
      (concat ?es)"
    using len
    by (intro writes_struct list_all2_appendI shared specific dat) (simp add: enc_request_def)
  then show ?thesis by (simp only: enc_request_def serialize_request_def Let_def append_assoc)
qed

subsection \<open>Reading a request\<close>

definition request_shared_effects :: "middfs_request \<Rightarrow> (byte list \<times> (middfs_request \<Rightarrow> middfs_request)) list" where
  "request_shared_effects r =
     [(be32 (mreq_code (mreq_type r)), \<lambda>v. v\<lparr>mreq_type := mreq_type r\<rparr>),
      (cstr_bytes (mreq_requester r), \<lambda>v. v\<lparr>mreq_requester := mreq_requester r\<rparr>),
      (enc_rsrc (mreq_rsrc r), \<lambda>v. v\<lparr>mreq_rsrc := mreq_rsrc r\<rparr>)]"

definition request_specific_effects :: "middfs_request \<Rightarrow> (byte list \<times> (middfs_request \<Rightarrow> middfs_request)) list" where
  "request_specific_effects r =
     (let t = mreq_type r in
      (if req_has_mode t then [(be32 (mreq_mode r), \<lambda>v. v\<lparr>mreq_mode := mreq_mode r\<rparr>)] else [])
      @ (if req_has_size t then [(be64 (mreq_size r), \<lambda>v. v\<lparr>mreq_size := mreq_size r\<rparr>)] else [])
      @ (if req_has_to t then [(enc_rsrc (mreq_to r), \<lambda>v. v\<lparr>mreq_to := mreq_to r\<rparr>)] else [])
      @ (if req_has_off t then [(be64 (mreq_off r), \<lambda>v. v\<lparr>mreq_off := mreq_off r\<rparr>)] else []))"

lemma request_effects_bytes:
  "map fst (request_shared_effects r) = request_shared_bytes r"
  "map fst (request_specific_effects r) = request_specific_bytes r"
  by (simp_all add: request_shared_effects_def request_shared_bytes_def
      request_specific_effects_def request_specific_bytes_def Let_def)

lemma request_fields_read:
  assumes ok: "request_named r" and len: "length (enc_request r) < wire_max"
    and al: "alloc_upto E (length (enc_request r))"
  shows "list_all2 field_reads (request_shared E) (request_shared_effects r)"
    "list_all2 field_reads (request_specific E (mreq_type r)) (request_specific_effects r)"
proof -
  let ?t = "mreq_type r"
  have name: "reads (deserialize_str E) (cstr_bytes (mreq_requester r)) (mreq_requester r)"
    using ok len request_shared_length(1) [of r] alloc_upto_mono [OF al]
    by (intro reads_cstr) (simp_all add: request_named_def)
  have res: "reads (deserialize_rsrc E) (enc_rsrc (mreq_rsrc r)) (mreq_rsrc r)"
    using ok len request_shared_length(2) [of r] alloc_upto_mono [OF al]
    by (intro reads_rsrc) (simp_all add: request_named_def)
  have "mreq_of_code (mreq_code ?t) = ?t" using ok by (simp add: request_named_def mreq_ok_def)
  with field_reads_next [OF reads_uint32, of "\<lambda>r. mreq_code (mreq_type r)"
      "\<lambda>x (r :: middfs_request). r\<lparr>mreq_type := mreq_of_code x\<rparr>" "mreq_code ?t"]
  have ty: "field_reads (des_next deserialize_uint32 (\<lambda>r. mreq_code (mreq_type r))
      (\<lambda>x (r :: middfs_request). r\<lparr>mreq_type := mreq_of_code x\<rparr>))
      (be32 (mreq_code ?t), \<lambda>v. v\<lparr>mreq_type := ?t\<rparr>)"
    by simp
  show "list_all2 field_reads (request_shared E) (request_shared_effects r)"
    unfolding request_shared_def request_shared_effects_def
    by (intro list.rel_intros ty field_reads_next name res)
  have to: "reads (deserialize_rsrc E) (enc_rsrc (mreq_to r)) (mreq_to r)" if "req_has_to ?t"
    using ok len request_to_length [OF that] that alloc_upto_mono [OF al]
    by (intro reads_rsrc) (simp_all add: request_named_def)
  show "list_all2 field_reads (request_specific E ?t) (request_specific_effects r)"
    unfolding request_specific_def request_specific_effects_def Let_def
    by (intro list_all2_appendI list_all2_if field_reads_next to reads_int32 reads_uint64)
qed

lemma request_effects:
  "effects (request_specific_effects r) (effects (request_shared_effects r) zero_request)
   = (canon_request r)\<lparr>mreq_data := None\<rparr>"
  by (simp add: request_specific_effects_def request_shared_effects_def canon_request_def
      zero_request_def Let_def)

text \<open>The data block at the end, when the rest of the request is there.\<close>

lemma request_data_read:
  assumes ok: "request_filled r" and dat: "req_has_data (mreq_type r)"
    and e: "enc_request r = e @ block_bytes (mreq_size r) (mreq_data r)"
    and len: "length (enc_request r) < wire_max" and al: "alloc_upto E (length (enc_request r))"
    and h: "holds_prefix (enc_request r) buf nbytes"
    and used: "unat used = length e" "length e \<le> unat nbytes"
  shows "\<exists>s. deserialize_req_data E buf nbytes (used, (canon_request r)\<lparr>mreq_data := None\<rparr>, 0)
           = Some s \<and> rstate (enc_request r) nbytes (\<lambda>v'. v' = canon_request r) s"
proof -
  let ?sz = "mreq_size r" and ?blk = "block_bytes (mreq_size r) (mreq_data r)"
  have blk: "length ?blk = unat ?sz" using ok dat by (simp add: request_filled_def)
  have size_eq: "mreq_size (canon_request r) = ?sz"
    using req_has_data_size [OF dat] by (simp add: canon_request_def Let_def)
  have sum: "unat (used + ?sz) = length e + unat ?sz"
    using used len e blk by (intro trans [OF unat_add_u64]) auto
  show ?thesis
  proof (cases "length e + unat ?sz \<le> unat nbytes")
    case True
    have "can_alloc E (unat ?sz)" using al e blk by (auto intro: alloc_uptoD)
    with holds_prefix_block [of e ?blk buf nbytes used] h e used blk True
    have "memdup E (drop (unat used) buf) ?sz = Some (Some ?blk)"
      by (simp add: memdup_block)
    with True used sum blk e size_eq dat show ?thesis
      by (auto simp: deserialize_req_data_def rstate_def des_result_def word_le_nat_alt
          canon_request_def Let_def)
  next
    case False
    with used sum blk e size_eq show ?thesis
      by (auto simp: deserialize_req_data_def rstate_def des_result_def word_le_nat_alt)
  qed
qed

lemma rstate_cut:
  assumes "unat nbytes < unat used" "unat used \<le> 2 * length e" "unat nbytes < length e"
  shows "rstate (e @ e') nbytes Q (used, v, 0)"
  using assms by (auto simp: rstate_def)

text \<open>
  Reading as far as the data, when no more than the strings are known to be right: what the rest
  of the function goes on with, or the count of a request that is cut short.
\<close>

lemma request_header_read:
  assumes ok: "request_named r" and len: "length (enc_request r) < wire_max"
    and al: "alloc_upto E (length (enc_request r))" and h: "holds_prefix (enc_request r) buf nbytes"
    and e2: "e2 = concat (request_shared_bytes r) @ concat (request_specific_bytes r)"
  obtains (cut) s where "deserialize_request E buf nbytes zero_request 0 = Some s"
      "rstate (enc_request r) nbytes Q s" "unat nbytes < length e2"
  | (whole) used where "length e2 \<le> unat nbytes" "unat used = length e2"
      "deserialize_request E buf nbytes zero_request 0 =
         (if req_has_data (mreq_type r)
          then deserialize_req_data E buf nbytes (used, (canon_request r)\<lparr>mreq_data := None\<rparr>, 0)
          else Some (used, (canon_request r)\<lparr>mreq_data := None\<rparr>, 0))"
proof -
  let ?t = "mreq_type r"
  let ?e1 = "concat (request_shared_bytes r)" and ?e2 = "concat (request_specific_bytes r)"
  let ?e3 = "concat (request_data_bytes r)"
  note e = enc_request_split [of r]
  obtain used1 w1 where s1: "des_fields (request_shared E) buf nbytes (0, zero_request, 0) = Some (used1, w1, 0)"
    and full1: "length ?e1 \<le> unat nbytes \<Longrightarrow>
      unat used1 = length ?e1 \<and> w1 = effects (request_shared_effects r) zero_request"
    and short1: "unat nbytes < length ?e1 \<Longrightarrow>
      unat nbytes < unat used1 \<and> unat used1 \<le> 2 * length ?e1"
  proof (rule des_fields_obtain [OF request_fields_read(1) [OF ok len al]
          rstate_start [of "\<lambda>w. w = zero_request" zero_request, OF refl], where e' = "?e2 @ ?e3" and e = ?e1])
    show "holds_prefix ([] @ concat (map fst (request_shared_effects r)) @ ?e2 @ ?e3) buf nbytes"
      using h by (simp add: request_effects_bytes e)
  qed (use len that in \<open>simp_all add: request_effects_bytes e\<close>)
  show thesis
  proof (cases "length ?e1 \<le> unat nbytes")
    case False
    with s1 short1 show thesis
      by (intro cut [of "(used1, w1, 0)"])
        (auto simp: deserialize_request_def word_less_nat_alt e e2 intro!: rstate_cut)
  next
    case True
    have fits1: "\<not> nbytes < used1" using full1 True by (simp add: word_less_nat_alt)
    have t1: "mreq_type w1 = ?t" using full1 True by (simp add: request_shared_effects_def)
    obtain used2 w2 where s2: "des_fields (request_specific E ?t) buf nbytes (used1, w1, 0)
        = Some (used2, w2, 0)"
      and full2: "length (?e1 @ ?e2) \<le> unat nbytes \<Longrightarrow> unat used2 = length (?e1 @ ?e2) \<and>
        w2 = effects (request_specific_effects r) w1"
      and short2: "unat nbytes < length (?e1 @ ?e2) \<Longrightarrow>
        unat nbytes < unat used2 \<and> unat used2 \<le> 2 * length (?e1 @ ?e2)"
    proof (rule des_fields_obtain [OF request_fields_read(2) [OF ok len al],
          where e' = ?e3 and v = w1 and ?e0.0 = ?e1 and s = "(used1, w1, 0)" and e = "?e1 @ ?e2"])
      show "rstate ?e1 nbytes (\<lambda>w. w = w1) (used1, w1, 0)"
        using full1 True by (simp add: rstate_def)
      show "holds_prefix (?e1 @ concat (map fst (request_specific_effects r)) @ ?e3) buf nbytes"
        using h by (simp add: request_effects_bytes e)
    qed (use len that in \<open>simp_all add: request_effects_bytes e\<close>)
    have des: "deserialize_request E buf nbytes zero_request 0 =
        (if nbytes < used2 then Some (used2, w2, 0)
         else if req_has_data ?t then deserialize_req_data E buf nbytes (used2, w2, 0)
         else Some (used2, w2, 0))"
      using s1 s2 fits1 t1 by (simp add: deserialize_request_def des_result_def)
    show thesis
    proof (cases "length (?e1 @ ?e2) \<le> unat nbytes")
      case False
      with des short2 show thesis
        by (intro cut [of "(used2, w2, 0)"])
          (auto simp: word_less_nat_alt e e2 append_assoc [symmetric] simp del: append_assoc intro!: rstate_cut)
    next
      case fits2: True
      have w2: "w2 = (canon_request r)\<lparr>mreq_data := None\<rparr>" and u2: "unat used2 = length (?e1 @ ?e2)"
        using full2 [OF fits2] full1 True request_effects by auto
      have "\<not> nbytes < used2" using u2 fits2 by (simp add: word_less_nat_alt)
      with des w2 u2 fits2 show thesis by (intro whole [of used2]) (simp_all add: e2)
    qed
  qed
qed

lemma reads_request:
  assumes ok: "request_named r" "request_filled r" and len: "length (enc_request r) < wire_max"
    and al: "alloc_upto E (length (enc_request r))"
  shows "reads_from (\<lambda>v. v = zero_request) (deserialize_request E) (enc_request r) (canon_request r)"
proof (rule readsI)
  fix buf :: "byte list" and nbytes :: u64 and v
  assume v: "v = zero_request" and h: "holds_prefix (enc_request r) buf nbytes"
  let ?Q = "\<lambda>v'. v' = canon_request r"
  let ?e2 = "concat (request_shared_bytes r) @ concat (request_specific_bytes r)"
  note e = enc_request_split [of r, folded append_assoc]
  show "\<exists>s. deserialize_request E buf nbytes v 0 = Some s \<and> rstate (enc_request r) nbytes ?Q s"
    unfolding v
  proof (rule request_header_read [OF ok(1) len al h refl])
    fix s assume "deserialize_request E buf nbytes zero_request 0 = Some s" "rstate (enc_request r) nbytes ?Q s"
    then show "\<exists>s. deserialize_request E buf nbytes zero_request 0 = Some s \<and> rstate (enc_request r) nbytes ?Q s" by blast
  next
    fix used assume u: "length ?e2 \<le> unat nbytes" "unat used = length ?e2"
      "deserialize_request E buf nbytes zero_request 0 =
         (if req_has_data (mreq_type r)
          then deserialize_req_data E buf nbytes (used, (canon_request r)\<lparr>mreq_data := None\<rparr>, 0)
          else Some (used, (canon_request r)\<lparr>mreq_data := None\<rparr>, 0))"
    show "\<exists>s. deserialize_request E buf nbytes zero_request 0 = Some s \<and> rstate (enc_request r) nbytes ?Q s"
    proof (cases "req_has_data (mreq_type r)")
      case dat: True
      then have "enc_request r = ?e2 @ block_bytes (mreq_size r) (mreq_data r)"
        by (simp add: e request_data_bytes_def)
      from request_data_read [OF ok(2) dat this len al h u(2,1)] u(3) dat show "\<exists>s. deserialize_request E buf nbytes zero_request 0 = Some s \<and> rstate (enc_request r) nbytes ?Q s" by simp
    next
      case False
      then have "canon_request r = (canon_request r)\<lparr>mreq_data := None\<rparr>" "enc_request r = ?e2"
        by (simp_all add: canon_request_def Let_def e request_data_bytes_def)
      with False u show "\<exists>s. deserialize_request E buf nbytes zero_request 0 = Some s \<and> rstate (enc_request r) nbytes ?Q s" by (auto simp: rstate_def)
    qed
  qed
qed

section \<open>Responses\<close>

definition rsp_body :: "middfs_response \<Rightarrow> byte list" where
  "rsp_body rsp =
     (case mrsp_type rsp of
        MRSP_DATA \<Rightarrow> enc_data (old_data (mrsp_un rsp))
      | MRSP_STAT \<Rightarrow> enc_stat (old_stat (mrsp_un rsp))
      | MRSP_DIR \<Rightarrow> enc_dir (old_dir (mrsp_un rsp))
      | MRSP_ERROR \<Rightarrow> be32 (old_error (mrsp_un rsp))
      | _ \<Rightarrow> [])"

definition enc_response :: "middfs_response \<Rightarrow> byte list" where
  "enc_response rsp = be32 (mrsp_code (mrsp_type rsp)) @ rsp_body rsp"

definition response_ok :: "middfs_response \<Rightarrow> bool" where
  "response_ok rsp \<longleftrightarrow>
     (case mrsp_type rsp of
        MRSP_OK \<Rightarrow> True
      | MRSP_DATA \<Rightarrow> get_data (mrsp_un rsp) \<noteq> None \<and> data_ok (old_data (mrsp_un rsp))
      | MRSP_STAT \<Rightarrow> get_stat (mrsp_un rsp) \<noteq> None
      | MRSP_DIR \<Rightarrow> get_dir (mrsp_un rsp) \<noteq> None \<and> dir_ok (old_dir (mrsp_un rsp))
      | MRSP_ERROR \<Rightarrow> get_error (mrsp_un rsp) \<noteq> None
      | MRSP_OTHER _ \<Rightarrow> False)"

definition canon_response :: "middfs_response \<Rightarrow> middfs_response" where
  "canon_response rsp =
     rsp\<lparr>mrsp_un :=
       (case mrsp_type rsp of
          MRSP_DATA \<Rightarrow> Rsp_data (canon_data (old_data (mrsp_un rsp)))
        | MRSP_STAT \<Rightarrow> Rsp_stat (old_stat (mrsp_un rsp))
        | MRSP_DIR \<Rightarrow> Rsp_dir (canon_dir (old_dir (mrsp_un rsp)))
        | MRSP_ERROR \<Rightarrow> Rsp_error (old_error (mrsp_un rsp))
        | _ \<Rightarrow> Rsp_zero)\<rparr>"

declare response_ok_def [wf_simps]

lemma response_ok_fields:
  assumes "response_ok rsp" "length (enc_response rsp) < wire_max"
  shows "\<exists>fs es. rsp_fields rsp = Some fs \<and> list_all2 writes fs es \<and> concat es = rsp_body rsp"
proof -
  have len: "length (rsp_body rsp) < wire_max" using assms(2) by (simp add: enc_response_def)
  show ?thesis
  proof (cases "mrsp_type rsp")
    case MRSP_OK
    then show ?thesis by (intro exI [of _ "[]"]) (simp add: rsp_fields_def rsp_body_def)
  next
    case MRSP_DATA
    with assms(1) len show ?thesis
      by (intro exI [of _ "[serialize_data (old_data (mrsp_un rsp))]"] exI [of _ "[rsp_body rsp]"])
        (auto simp: rsp_fields_def rsp_body_def response_ok_def old_data_def intro!: writes_data)
  next
    case MRSP_STAT
    with assms(1) show ?thesis
      by (intro exI [of _ "[serialize_stat (old_stat (mrsp_un rsp))]"] exI [of _ "[rsp_body rsp]"])
        (auto simp: rsp_fields_def rsp_body_def response_ok_def old_stat_def intro!: writes_stat)
  next
    case MRSP_DIR
    with assms(1) len show ?thesis
      by (intro exI [of _ "[serialize_dir (old_dir (mrsp_un rsp))]"] exI [of _ "[rsp_body rsp]"])
        (auto simp: rsp_fields_def rsp_body_def response_ok_def old_dir_def intro!: writes_dir)
  next
    case MRSP_ERROR
    with assms(1) show ?thesis
      by (intro exI [of _ "[serialize_int32 (old_error (mrsp_un rsp))]"] exI [of _ "[rsp_body rsp]"])
        (auto simp: rsp_fields_def rsp_body_def response_ok_def old_error_def intro!: writes_int32)
  next
    case (MRSP_OTHER w)
    with assms(1) show ?thesis by (simp add: response_ok_def)
  qed
qed

lemma writes_rsp:
  assumes "response_ok rsp" "length (enc_response rsp) < wire_max"
  shows "writes (serialize_rsp rsp) (enc_response rsp)"
proof -
  obtain fs es where fs: "rsp_fields rsp = Some fs" "list_all2 writes fs es"
    and es: "concat es = rsp_body rsp"
    using response_ok_fields [OF assms] by blast
  have "writes (serialize_struct (serialize_int32 (mrsp_code (mrsp_type rsp)) # fs))
      (concat (be32 (mrsp_code (mrsp_type rsp)) # es))"
    using fs es assms(2)
    by (intro writes_struct) (simp_all add: enc_response_def writes_int32)
  with fs es show ?thesis by (simp add: serialize_rsp_def enc_response_def writes_def)
qed

text \<open>A union member read after the tag, into a union that is still zero.\<close>

lemma des_member:
  assumes f: "reads_from P f e' x" and P: "P (get v)"
    and h: "holds_prefix (e @ e') buf nbytes" and fits: "length e \<le> unat nbytes"
    and used: "unat used = length e" and len: "length (e @ e') < wire_max"
    and x: "put x v = y"
  shows "\<exists>s. des_next f get put buf nbytes (used, v, 0) = Some s \<and>
           rstate (e @ e') nbytes (\<lambda>v'. v' = y) s"
proof -
  have "rstate e nbytes (\<lambda>w. w = v) (used, v, 0)" using used fits by (simp add: rstate_def)
  from rstate_next_full [OF this fits h f, of get put] P len obtain s
    where "des_next f get put buf nbytes (used, v, 0) = Some s"
      "rstate (e @ e') nbytes (\<lambda>v'. \<exists>w. w = v \<and> v' = put x w) s" by auto
  with x show ?thesis by auto
qed

text \<open>A union member read after the tag.\<close>

lemma resume_member:
  assumes f: "resumes I f e' x" and I: "I (get v)"
    and h: "holds_prefix (e @ e') buf nbytes" and fits: "length e \<le> unat nbytes"
    and used: "unat used = length e" and len: "length (e @ e') < wire_max"
    and x: "put x v = y"
  shows "\<exists>m w. des_next f get put buf nbytes (used, v, 0) = Some (m, put w v, 0) \<and>
           rstate (e @ e') nbytes (\<lambda>v'. v' = y) (m, put w v, 0) \<and>
           (unat nbytes < length (e @ e') \<longrightarrow> I w)"
proof -
  obtain m w where fb: "f (drop (length e) buf) (sizerem nbytes used) (get v) 0 = Some (m, w, 0)"
    and r: "rstate e' (sizerem nbytes used) (\<lambda>w. w = x) (m, w, 0)"
    and keep: "unat (sizerem nbytes used) < length e' \<Longrightarrow> I w" and m: "unat m \<le> 2 * length e'"
    by (rule resumesD [OF f I holds_prefix_right [OF h fits used]]) blast
  have sum: "unat (used + m) = length e + unat m"
    using len m used by (intro trans [OF unat_add_u64]) auto
  have "des_next f get put buf nbytes (used, v, 0) = Some (used + m, put w v, 0)"
    using fb by (simp add: des_next_def used)
  moreover have "rstate (e @ e') nbytes (\<lambda>v'. v' = y) (used + m, put w v, 0)"
    using r fits x sum by (auto simp: rstate_def used split: if_splits)
  moreover have "unat nbytes < length (e @ e') \<longrightarrow> I w" using keep fits by (auto simp: used)
  ultimately show ?thesis by blast
qed

text \<open>
  The targets that attempts at the response rsp leave, when the union of the response held u at
  first. What it held makes no difference to a response without pointers; an OK response has no
  member and leaves u where it is.
\<close>

definition rsp_target :: "rsp_un \<Rightarrow> middfs_response \<Rightarrow> middfs_response \<Rightarrow> bool" where
  "rsp_target u rsp v \<longleftrightarrow>
     (case mrsp_type rsp of
        MRSP_OK \<Rightarrow> mrsp_un v = u
      | MRSP_DATA \<Rightarrow> (case mrsp_un v of Rsp_zero \<Rightarrow> True | Rsp_data d \<Rightarrow> mdata_buf d = None | _ \<Rightarrow> False)
      | MRSP_DIR \<Rightarrow>
          (case mrsp_un v of
             Rsp_zero \<Rightarrow> True | Rsp_dir d \<Rightarrow> dir_target (old_dir (mrsp_un rsp)) d | _ \<Rightarrow> False)
      | _ \<Rightarrow> True)"

definition read_response :: "rsp_un \<Rightarrow> middfs_response \<Rightarrow> middfs_response" where
  "read_response u rsp =
     (if mrsp_type rsp = MRSP_OK then rsp\<lparr>mrsp_un := u\<rparr> else canon_response rsp)"

lemma read_response_zero [simp]: "read_response Rsp_zero rsp = canon_response rsp"
  by (simp add: read_response_def canon_response_def)

lemma rsp_target_type [simp]: "rsp_target u rsp (v\<lparr>mrsp_type := t\<rparr>) = rsp_target u rsp v"
  by (simp add: rsp_target_def split: middfs_response_type.splits)

lemma rsp_target_zero: "mrsp_un v = Rsp_zero \<Longrightarrow> rsp_target Rsp_zero rsp v"
  by (simp add: rsp_target_def split: middfs_response_type.splits)

lemma rsp_target_parts:
  assumes "rsp_target u rsp v"
  shows "mrsp_type rsp = MRSP_DATA \<Longrightarrow> mdata_buf (old_data (mrsp_un v)) = None"
    "mrsp_type rsp = MRSP_DIR \<Longrightarrow> dir_target (old_dir (mrsp_un rsp)) (old_dir (mrsp_un v))"
    "mrsp_type rsp = MRSP_OK \<Longrightarrow> mrsp_un v = u"
  using assms
  by (auto simp: rsp_target_def old_data_def get_data_def zero_data_def old_dir_def get_dir_def
      zero_dir_def dir_target_def split: rsp_un.splits)

lemma resumes_rsp:
  assumes ok: "response_ok rsp" and len: "length (enc_response rsp) < wire_max"
    and al: "alloc_upto E (16 * length (enc_response rsp))"
  shows "resumes (rsp_target u rsp) (deserialize_rsp E) (enc_response rsp) (read_response u rsp)"
proof (rule resumesI)
  fix buf :: "byte list" and nbytes :: u64 and v :: middfs_response
  assume v: "rsp_target u rsp v" and h: "holds_prefix (enc_response rsp) buf nbytes"
  let ?t = "mrsp_type rsp"
  let ?tag = "be32 (mrsp_code ?t)"
  let ?put = "\<lambda>x (r :: middfs_response). r\<lparr>mrsp_type := mrsp_of_code x\<rparr>"
  have t: "mrsp_of_code (mrsp_code ?t) = ?t"
    using ok by (intro mrsp_of_code_named) (auto simp: response_ok_def)
  have body: "length (rsp_body rsp) < wire_max" "alloc_upto E (16 * length (rsp_body rsp))"
    using len alloc_upto_mono [OF al] by (simp_all add: enc_response_def)
  obtain used w where s: "des_next deserialize_int32 (\<lambda>r. mrsp_code (mrsp_type r)) ?put
      buf nbytes (0, v, 0) = Some (used, w, 0)"
    and full: "4 \<le> unat nbytes \<Longrightarrow> unat used = 4 \<and> w = v\<lparr>mrsp_type := ?t\<rparr>"
    and short: "unat nbytes < 4 \<Longrightarrow> unat nbytes < unat used \<and> unat used \<le> 8"
    by (rule des_first [OF reads_int32 h [unfolded enc_response_def],
          where get = "\<lambda>r. mrsp_code (mrsp_type r)" and put = ?put and v = v]) (auto simp: t)
  have target: "rsp_target u rsp w" using des_next_target [OF s] v by auto
  show "\<exists>m v'. deserialize_rsp E buf nbytes v 0 = Some (m, v', 0) \<and>
      rstate (enc_response rsp) nbytes (\<lambda>w. w = read_response u rsp) (m, v', 0) \<and>
      (unat nbytes < length (enc_response rsp) \<longrightarrow> rsp_target u rsp v')"
  proof (cases "4 \<le> unat nbytes")
    case False
    with s short target show ?thesis
      by (auto simp: deserialize_rsp_def word_less_nat_alt enc_response_def intro!: rstate_cut)
  next
    case True
    have used: "unat used = length ?tag" and w: "w = v\<lparr>mrsp_type := ?t\<rparr>" and fits: "\<not> nbytes < used"
      using full True by (auto simp: word_less_nat_alt)
    have fits4: "length ?tag \<le> unat nbytes" using True by simp
    note member = resume_member [OF _ _ h [unfolded enc_response_def] fits4 used
        len [unfolded enc_response_def], folded enc_response_def]
    note parts = rsp_target_parts [OF target]
    show ?thesis
    proof (cases ?t)
      case MRSP_OK
      have "deserialize_rsp E buf nbytes v 0 = Some (used, w, 0)"
        using s fits w MRSP_OK by (simp add: deserialize_rsp_def)
      moreover have "w = read_response u rsp"
        using parts(3) MRSP_OK w by (simp add: read_response_def)
      moreover have "length (enc_response rsp) = unat used"
        using MRSP_OK used by (simp add: enc_response_def rsp_body_def)
      ultimately show ?thesis using True used by (auto simp: rstate_def)
    next
      case MRSP_DATA
      then have e: "rsp_body rsp = enc_data (old_data (mrsp_un rsp))"
        and d: "data_ok (old_data (mrsp_un rsp))"
        using ok by (simp_all add: rsp_body_def response_ok_def)
      have al': "alloc_upto E (length (enc_data (old_data (mrsp_un rsp))))"
        using body(2) e by (auto elim: alloc_upto_mono)
      note rd = resumes_data [OF d body(1) [unfolded e] al', folded e]
      have c: "w\<lparr>mrsp_un := Rsp_data (canon_data (old_data (mrsp_un rsp)))\<rparr> = read_response u rsp"
        using MRSP_DATA w by (simp add: read_response_def canon_response_def)
      from member [OF rd, where get = "\<lambda>r. old_data (mrsp_un r)" and v = w
          and put = "\<lambda>x r. r\<lparr>mrsp_un := Rsp_data x\<rparr>", OF parts(1) [OF MRSP_DATA] c]
      show ?thesis
        using s fits w MRSP_DATA by (auto simp: deserialize_rsp_def rsp_target_def)
    next
      case MRSP_STAT
      then have e: "rsp_body rsp = enc_stat (old_stat (mrsp_un rsp))" by (simp add: rsp_body_def)
      note rd = reads_resumes [OF reads_stat [of E "old_stat (mrsp_un rsp)"], folded e]
      have c: "w\<lparr>mrsp_un := Rsp_stat (old_stat (mrsp_un rsp))\<rparr> = read_response u rsp"
        using MRSP_STAT w by (simp add: read_response_def canon_response_def)
      from member [OF rd, where get = "\<lambda>r. old_stat (mrsp_un r)" and v = w
          and put = "\<lambda>x r. r\<lparr>mrsp_un := Rsp_stat x\<rparr>", OF TrueI c]
      show ?thesis
        using s fits w MRSP_STAT by (auto simp: deserialize_rsp_def rsp_target_def)
    next
      case MRSP_DIR
      then have e: "rsp_body rsp = enc_dir (old_dir (mrsp_un rsp))"
        and d: "dir_ok (old_dir (mrsp_un rsp))"
        using ok by (simp_all add: rsp_body_def response_ok_def)
      note rd = resumes_dir [OF d body(1) [unfolded e] body(2) [unfolded e], folded e]
      have c: "w\<lparr>mrsp_un := Rsp_dir (canon_dir (old_dir (mrsp_un rsp)))\<rparr> = read_response u rsp"
        using MRSP_DIR w by (simp add: read_response_def canon_response_def)
      from member [OF rd, where get = "\<lambda>r. old_dir (mrsp_un r)" and v = w
          and put = "\<lambda>x r. r\<lparr>mrsp_un := Rsp_dir x\<rparr>", OF parts(2) [OF MRSP_DIR] c]
      show ?thesis
        using s fits w MRSP_DIR by (auto simp: deserialize_rsp_def rsp_target_def)
    next
      case MRSP_ERROR
      then have e: "rsp_body rsp = be32 (old_error (mrsp_un rsp))" by (simp add: rsp_body_def)
      note rd = reads_resumes [OF reads_int32 [of "old_error (mrsp_un rsp)"], folded e]
      have c: "w\<lparr>mrsp_un := Rsp_error (old_error (mrsp_un rsp))\<rparr> = read_response u rsp"
        using MRSP_ERROR w by (simp add: read_response_def canon_response_def)
      from member [OF rd, where get = "\<lambda>r. old_error (mrsp_un r)" and v = w
          and put = "\<lambda>x r. r\<lparr>mrsp_un := Rsp_error x\<rparr>", OF TrueI c]
      show ?thesis
        using s fits w MRSP_ERROR by (auto simp: deserialize_rsp_def rsp_target_def)
    next
      case (MRSP_OTHER x)
      with ok show ?thesis by (simp add: response_ok_def)
    qed
  qed
qed

lemma reads_rsp:
  assumes "response_ok rsp" "length (enc_response rsp) < wire_max"
    "alloc_upto E (16 * length (enc_response rsp))"
  shows "reads_from (\<lambda>v. mrsp_un v = Rsp_zero) (deserialize_rsp E) (enc_response rsp)
           (canon_response rsp)"
  by (rule resumes_reads [OF resumes_rsp [OF assms, of Rsp_zero, unfolded read_response_zero]])
    (rule rsp_target_zero)

section \<open>Packets\<close>

definition pkt_body :: "middfs_packet \<Rightarrow> byte list" where
  "pkt_body pkt =
     (case mpkt_type pkt of
        MPKT_REQUEST \<Rightarrow> enc_request (old_request (mpkt_un pkt))
      | MPKT_RESPONSE \<Rightarrow> enc_response (old_response (mpkt_un pkt))
      | MPKT_CONNECT \<Rightarrow> enc_connect (old_connect (mpkt_un pkt))
      | _ \<Rightarrow> [])"

definition enc_pkt :: "middfs_packet \<Rightarrow> byte list" where
  "enc_pkt pkt = be32 (mpkt_magic pkt) @ be32 (mpkt_code (mpkt_type pkt)) @ pkt_body pkt"

definition pkt_ok :: "middfs_packet \<Rightarrow> bool" where
  "pkt_ok pkt \<longleftrightarrow>
     mpkt_ok (mpkt_type pkt) \<and> length (enc_pkt pkt) < wire_max \<and>
     (case mpkt_type pkt of
        MPKT_REQUEST \<Rightarrow> get_request (mpkt_un pkt) \<noteq> None \<and> request_ok (old_request (mpkt_un pkt))
      | MPKT_RESPONSE \<Rightarrow>
          get_response (mpkt_un pkt) \<noteq> None \<and> response_ok (old_response (mpkt_un pkt))
      | MPKT_CONNECT \<Rightarrow> get_connect (mpkt_un pkt) \<noteq> None \<and> connect_ok (old_connect (mpkt_un pkt))
      | _ \<Rightarrow> True)"

definition canon_pkt :: "middfs_packet \<Rightarrow> middfs_packet" where
  "canon_pkt pkt =
     pkt\<lparr>mpkt_un :=
       (case mpkt_type pkt of
          MPKT_REQUEST \<Rightarrow> Pkt_request (canon_request (old_request (mpkt_un pkt)))
        | MPKT_RESPONSE \<Rightarrow> Pkt_response (canon_response (old_response (mpkt_un pkt)))
        | MPKT_CONNECT \<Rightarrow> Pkt_connect (old_connect (mpkt_un pkt))
        | _ \<Rightarrow> Pkt_zero)\<rparr>"

declare pkt_ok_def [wf_simps]

text \<open>The allocations that reading a packet makes are all below this many bytes.\<close>

definition alloc_for :: "cenv \<Rightarrow> middfs_packet \<Rightarrow> bool" where
  "alloc_for E pkt \<longleftrightarrow> alloc_upto E (16 * length (enc_pkt pkt))"

lemma pkt_ok_fields:
  assumes "pkt_ok pkt"
  shows "\<exists>fs es. pkt_fields pkt = Some fs \<and> list_all2 writes fs es \<and> concat es = pkt_body pkt"
proof -
  have len: "length (pkt_body pkt) < wire_max"
    using assms by (simp add: pkt_ok_def enc_pkt_def)
  show ?thesis
  proof (cases "mpkt_type pkt")
    case MPKT_REQUEST
    with assms len show ?thesis
      by (intro exI [of _ "[serialize_request (old_request (mpkt_un pkt))]"] exI [of _ "[pkt_body pkt]"])
        (auto simp: pkt_fields_def pkt_body_def pkt_ok_def old_request_def intro!: writes_request request_ok_parts request_ok_narrow)
  next
    case MPKT_RESPONSE
    with assms len show ?thesis
      by (intro exI [of _ "[serialize_rsp (old_response (mpkt_un pkt))]"] exI [of _ "[pkt_body pkt]"])
        (auto simp: pkt_fields_def pkt_body_def pkt_ok_def old_response_def intro!: writes_rsp)
  next
    case MPKT_CONNECT
    with assms len show ?thesis
      by (intro exI [of _ "[serialize_connect (old_connect (mpkt_un pkt))]"] exI [of _ "[pkt_body pkt]"])
        (auto simp: pkt_fields_def pkt_body_def pkt_ok_def old_connect_def intro!: writes_connect)
  qed (auto simp: pkt_fields_def pkt_body_def intro: exI [of _ "[]"])
qed

lemma writes_pkt:
  assumes "pkt_ok pkt"
  shows "writes (serialize_pkt pkt) (enc_pkt pkt)"
proof -
  obtain fs es where fs: "pkt_fields pkt = Some fs" "list_all2 writes fs es"
    and es: "concat es = pkt_body pkt"
    using pkt_ok_fields [OF assms] by blast
  let ?hd = "[serialize_uint32 (mpkt_magic pkt), serialize_uint32 (mpkt_code (mpkt_type pkt))]"
  have "writes (serialize_struct (?hd @ fs))
      (concat ([be32 (mpkt_magic pkt), be32 (mpkt_code (mpkt_type pkt))] @ es))"
    using fs es assms
    by (intro writes_struct list_all2_appendI)
      (simp_all add: enc_pkt_def pkt_ok_def writes_uint32)
  with fs es show ?thesis by (simp add: serialize_pkt_def enc_pkt_def writes_def)
qed

lemma rstate_des_result:
  "\<exists>s. m = Some s \<and> rstate e nbytes Q s \<Longrightarrow>
   \<exists>s. map_option des_result m = Some s \<and> rstate e nbytes Q s"
  by (auto simp: rstate_def des_result_def split: prod.splits)

lemma reads_pkt:
  assumes ok: "pkt_ok pkt" and al: "alloc_for E pkt"
  shows "reads_from (\<lambda>v. mpkt_un v = Pkt_zero) (deserialize_pkt E) (enc_pkt pkt) (canon_pkt pkt)"
proof (rule readsI)
  fix buf :: "byte list" and nbytes :: u64 and v :: middfs_packet
  assume v: "mpkt_un v = Pkt_zero" and h: "holds_prefix (enc_pkt pkt) buf nbytes"
  let ?t = "mpkt_type pkt"
  let ?hd = "be32 (mpkt_magic pkt) @ be32 (mpkt_code ?t)"
  let ?gs = "[des_next deserialize_uint32 mpkt_magic (\<lambda>x p. p\<lparr>mpkt_magic := x\<rparr>),
      des_next deserialize_uint32 (\<lambda>p. mpkt_code (mpkt_type p))
        (\<lambda>x p. p\<lparr>mpkt_type := mpkt_of_code x\<rparr>)] :: middfs_packet dfield list"
  let ?ehs = "[(be32 (mpkt_magic pkt), \<lambda>p. p\<lparr>mpkt_magic := mpkt_magic pkt\<rparr>),
      (be32 (mpkt_code ?t), \<lambda>p. p\<lparr>mpkt_type := mpkt_of_code (mpkt_code ?t)\<rparr>)]
      :: (byte list \<times> (middfs_packet \<Rightarrow> middfs_packet)) list"
  have t: "mpkt_of_code (mpkt_code ?t) = ?t" using ok by (simp add: pkt_ok_def mpkt_ok_def)
  have e: "enc_pkt pkt = ?hd @ pkt_body pkt" by (simp add: enc_pkt_def)
  have len: "length (enc_pkt pkt) < wire_max" using ok by (simp add: pkt_ok_def)
  have body: "length (pkt_body pkt) < wire_max" "alloc_upto E (16 * length (pkt_body pkt))"
    using len alloc_upto_mono [OF al [unfolded alloc_for_def]] by (simp_all add: enc_pkt_def)
  have gs: "list_all2 field_reads ?gs ?ehs"
    by (intro list.rel_intros field_reads_next reads_uint32)
  obtain used w where s: "des_fields ?gs buf nbytes (0, v, 0) = Some (used, w, 0)"
    and full: "8 \<le> unat nbytes \<Longrightarrow>
      unat used = 8 \<and> w = v\<lparr>mpkt_magic := mpkt_magic pkt, mpkt_type := ?t\<rparr>"
    and short: "unat nbytes < 8 \<Longrightarrow> unat nbytes < unat used \<and> unat used \<le> 16"
  proof (rule des_fields_obtain [OF gs rstate_start [of "\<lambda>w. w = v" v, OF refl],
        where e' = "pkt_body pkt" and e = ?hd])
    show "holds_prefix ([] @ concat (map fst ?ehs) @ pkt_body pkt) buf nbytes"
      using h by (simp add: e)
  qed (use that t in \<open>simp_all\<close>)
  show "\<exists>s. deserialize_pkt E buf nbytes v 0 = Some s \<and>
      rstate (enc_pkt pkt) nbytes (\<lambda>v'. v' = canon_pkt pkt) s"
  proof (cases "8 \<le> unat nbytes")
    case False
    with s short show ?thesis
      by (auto simp: deserialize_pkt_def word_less_nat_alt e append_assoc [symmetric]
          simp del: append_assoc intro!: rstate_cut)
  next
    case True
    have used: "unat used = length ?hd"
      and w: "w = v\<lparr>mpkt_magic := mpkt_magic pkt, mpkt_type := ?t\<rparr>"
      and fits: "\<not> nbytes < used"
      using full True by (auto simp: word_less_nat_alt)
    have fits8: "length ?hd \<le> unat nbytes" using True by simp
    note member = des_member [OF _ _ h [unfolded e] fits8 used len [unfolded e], folded e]
    have mt: "mpkt_type w = ?t" using w by simp
    have des: "deserialize_pkt E buf nbytes v 0 = map_option des_result
        (case ?t of
           MPKT_REQUEST \<Rightarrow>
             des_next (deserialize_request E) (\<lambda>p. old_request (mpkt_un p))
               (\<lambda>x p. p\<lparr>mpkt_un := Pkt_request x\<rparr>) buf nbytes (used, w, 0)
         | MPKT_RESPONSE \<Rightarrow>
             des_next (deserialize_rsp E) (\<lambda>p. old_response (mpkt_un p))
               (\<lambda>x p. p\<lparr>mpkt_un := Pkt_response x\<rparr>) buf nbytes (used, w, 0)
         | MPKT_CONNECT \<Rightarrow>
             des_next (deserialize_connect E) (\<lambda>p. old_connect (mpkt_un p))
               (\<lambda>x p. p\<lparr>mpkt_un := Pkt_connect x\<rparr>) buf nbytes (used, w, 0)
         | _ \<Rightarrow> Some (used, w, 0))"
      using fits mt by (simp add: deserialize_pkt_def s del: des_fields.simps)
    have un: "mpkt_un w = Pkt_zero" using w v by simp
    show ?thesis
    proof (cases ?t)
      case MPKT_REQUEST
      then have b: "pkt_body pkt = enc_request (old_request (mpkt_un pkt))"
        and ok': "request_ok (old_request (mpkt_un pkt))"
        using ok by (simp_all add: pkt_body_def pkt_ok_def)
      have al': "alloc_upto E (length (enc_request (old_request (mpkt_un pkt))))"
        using body(2) b by (auto elim: alloc_upto_mono)
      note rd = reads_request [OF request_ok_parts [OF ok'] body(1) [unfolded b] al', folded b]
      show ?thesis
        unfolding des
        by (rule rstate_des_result)
          (use member [OF rd, where get = "\<lambda>p. old_request (mpkt_un p)" and v = w
             and put = "\<lambda>x p. p\<lparr>mpkt_un := Pkt_request x\<rparr>" and y = "canon_pkt pkt"]
             MPKT_REQUEST un w in \<open>simp add: canon_pkt_def old_request_def get_request_def\<close>)
    next
      case MPKT_RESPONSE
      then have b: "pkt_body pkt = enc_response (old_response (mpkt_un pkt))"
        and ok': "response_ok (old_response (mpkt_un pkt))"
        using ok by (simp_all add: pkt_body_def pkt_ok_def)
      note rd = reads_rsp [OF ok' body(1) [unfolded b] body(2) [unfolded b], folded b]
      show ?thesis
        unfolding des
        by (rule rstate_des_result)
          (use member [OF rd, where get = "\<lambda>p. old_response (mpkt_un p)" and v = w
             and put = "\<lambda>x p. p\<lparr>mpkt_un := Pkt_response x\<rparr>" and y = "canon_pkt pkt"]
             MPKT_RESPONSE un w in \<open>simp add: canon_pkt_def old_response_def get_response_def zero_response_def\<close>)
    next
      case MPKT_CONNECT
      then have b: "pkt_body pkt = enc_connect (old_connect (mpkt_un pkt))"
        and ok': "connect_ok (old_connect (mpkt_un pkt))"
        using ok by (simp_all add: pkt_body_def pkt_ok_def)
      have al': "alloc_upto E (length (enc_connect (old_connect (mpkt_un pkt))))"
        using body(2) b by (auto elim: alloc_upto_mono)
      note rd = reads_connect [OF ok' body(1) [unfolded b] al', folded b]
      show ?thesis
        unfolding des
        by (rule rstate_des_result)
          (use member [OF rd, where get = "\<lambda>p. old_connect (mpkt_un p)" and v = w
             and put = "\<lambda>x p. p\<lparr>mpkt_un := Pkt_connect x\<rparr>" and y = "canon_pkt pkt"]
             MPKT_CONNECT un w in \<open>simp add: canon_pkt_def\<close>)
    qed (use used True in \<open>auto simp: des w v canon_pkt_def rstate_def des_result_def e pkt_body_def\<close>)
  qed
qed

end
