(* ===== verification/Serial_Codec.thy ===== *)
theory Serial_Codec
  imports Serial_Packets
begin

text \<open>
  The contract between the serialisation functions and their callers (\<open>lib/middfs-buf.c\<close>,
  \<open>lib/middfs-conn.c\<close>, \<open>client/middfs-client-pkt.c\<close>) as two locales, their interpretation on
  packets, connect packets and resources, and what the callers rely on: framing, round trip,
  incremental reading, and that no two packets' encodings are confused on a stream.
\<close>

section \<open>The interfaces\<close>

locale serializes =
  fixes ser :: "'a \<Rightarrow> serializer" and enc :: "'a \<Rightarrow> byte list" and ok :: "'a \<Rightarrow> bool"
  assumes writes_enc: "ok x \<Longrightarrow> writes (ser x) (enc x)"
    and enc_small: "ok x \<Longrightarrow> length (enc x) < wire_max"
begin

lemma ser_result:
  assumes "ok x" "unat nbytes \<le> length buf"
  obtains m b where "ser x buf nbytes = Some (m, b)" "length b = length buf"
    "drop (unat nbytes) b = drop (unat nbytes) buf" "unat m \<le> length (enc x)"
    "length (enc x) \<le> unat nbytes \<Longrightarrow>
       unat m = length (enc x) \<and> b = enc x @ drop (length (enc x)) buf"
    "unat nbytes < length (enc x) \<Longrightarrow> unat nbytes < unat m"
proof -
  obtain s where s: "ser x buf nbytes = Some s" "wstate (enc x) nbytes buf s"
    by (rule writesD [OF writes_enc [OF assms(1)] assms(2)])
  then show thesis
    by (intro that [of "fst s" "snd s"]) (auto simp: wstate_def split: prod.splits if_splits)
qed

lemma ser_fits:
  assumes "ok x" "length (enc x) \<le> unat nbytes" "unat nbytes \<le> length buf"
  shows "ser x buf nbytes
    = Some (word_of_nat (length (enc x)), enc x @ drop (length (enc x)) buf)"
proof -
  obtain m where "ser x buf nbytes = Some (m, enc x @ drop (length (enc x)) buf)"
    "unat m = length (enc x)"
    using ser_result [OF assms(1,3)] assms(2) by metis
  then show ?thesis by (auto dest: word_of_unat_eq)
qed

lemma ser_short:
  assumes "ok x" "unat nbytes < length (enc x)" "unat nbytes \<le> length buf"
  obtains m b where "ser x buf nbytes = Some (m, b)" "length b = length buf"
    "unat nbytes < unat m" "unat m \<le> length (enc x)"
    "drop (unat nbytes) b = drop (unat nbytes) buf"
  using ser_result [OF assms(1,3)] assms(2) by metis

end

locale codec = serializes +
  fixes des :: "'a deserializer" and fresh :: "'a \<Rightarrow> bool" and canon :: "'a \<Rightarrow> 'a"
    and avail :: "'a \<Rightarrow> bool"
  assumes reads_enc: "ok x \<Longrightarrow> avail x \<Longrightarrow> reads_from fresh des (enc x) (canon x)"
    and fresh_ex: "\<exists>v. fresh v"
begin

lemma des_complete:
  assumes "ok x" "avail x" "fresh v" "length (enc x) \<le> unat nbytes"
    "unat nbytes \<le> length (enc x @ rest)"
  shows "des (enc x @ rest) nbytes v 0 = Some (word_of_nat (length (enc x)), canon x, 0)"
proof -
  have "holds_prefix (enc x) (enc x @ rest) nbytes"
    using assms(4,5) by (simp add: holds_prefix_def min_def)
  with reads_enc [OF assms(1,2)] assms(3) obtain used
    where "des (enc x @ rest) nbytes v 0 = Some (used, canon x, 0)" "unat used = length (enc x)"
    by (rule readsD) (use assms(4) in \<open>auto simp: rstate_def\<close>)
  then show ?thesis by (auto dest: word_of_unat_eq)
qed

lemma des_partial:
  assumes "ok x" "avail x" "fresh v" "unat nbytes < length (enc x)" "unat nbytes \<le> length buf"
    "take (unat nbytes) buf = take (unat nbytes) (enc x)"
  obtains m v' where "des buf nbytes v 0 = Some (m, v', 0)" "unat nbytes < unat m"
    "unat m \<le> 2 * length (enc x)"
proof -
  have "holds_prefix (enc x) buf nbytes"
    using assms(4-6) by (simp add: holds_prefix_def min_def)
  with reads_enc [OF assms(1,2)] assms(3) show thesis
    by (rule readsD) (use assms(4) in \<open>auto simp: rstate_def intro: that\<close>)
qed

lemma roundtrip:
  assumes "ok x" "avail x" "fresh v" "length (enc x) \<le> unat nbytes" "unat nbytes \<le> length buf"
  shows "\<exists>m b. ser x buf nbytes = Some (m, b) \<and> des b nbytes v 0 = Some (m, canon x, 0)"
  using ser_fits [OF assms(1,4,5)] des_complete [OF assms(1-4)] assms(4,5) by simp

text \<open>Two values whose encodings start the same bytes are read as one and the same value.\<close>

lemma prefix_free:
  assumes x: "ok x" "avail x" and y: "ok y" "avail y" and eq: "enc x @ s = enc y @ t"
  shows "enc x = enc y \<and> canon x = canon y \<and> s = t"
proof -
  obtain v where v: "fresh v" using fresh_ex by blast
  let ?k = "max (length (enc x)) (length (enc y))"
  let ?n = "word_of_nat ?k :: u64"
  have "?k < wire_max" using enc_small x(1) y(1) by (simp add: max_def)
  then have n: "unat ?n = ?k" by (intro unat_of_nat_u64) auto
  have le: "?k \<le> length (enc x @ s)" using arg_cong [OF eq, of length] by simp
  have "des (enc x @ s) ?n v 0 = Some (word_of_nat (length (enc x)), canon x, 0)"
    using n le by (intro des_complete [OF x v]) simp_all
  moreover have "des (enc y @ t) ?n v 0 = Some (word_of_nat (length (enc y)), canon y, 0)"
    using n le eq by (intro des_complete [OF y v]) simp_all
  ultimately have "(word_of_nat (length (enc x)) :: u64) = word_of_nat (length (enc y))"
    and c: "canon x = canon y"
    using eq by auto
  moreover have "length (enc x) < 2 ^ 64" "length (enc y) < 2 ^ 64"
    using enc_small [OF x(1)] enc_small [OF y(1)] by simp_all
  ultimately have "length (enc x) = length (enc y)" by (intro word_of_nat_u64_inj)
  with eq c show ?thesis by simp
qed

end

section \<open>The code's own codecs\<close>

lemma zero_packet_fresh [simp]: "mpkt_un zero_packet = Pkt_zero"
  by (simp add: zero_packet_def)

interpretation pkt: codec serialize_pkt enc_pkt pkt_ok "deserialize_pkt E"
  "\<lambda>v. mpkt_un v = Pkt_zero" canon_pkt "alloc_for E"
proof unfold_locales
  show "\<exists>v :: middfs_packet. mpkt_un v = Pkt_zero" by (intro exI [of _ zero_packet]) simp
qed (auto simp: pkt_ok_def intro: writes_pkt reads_pkt)

interpretation connect: codec serialize_connect enc_connect
  "\<lambda>c. connect_ok c \<and> length (enc_connect c) < wire_max" "deserialize_connect E"
  "\<lambda>_. True" "\<lambda>c. c" "\<lambda>c. alloc_upto E (length (enc_connect c))"
  by unfold_locales (auto intro: writes_connect reads_connect)

interpretation rsrc: codec serialize_rsrc enc_rsrc
  "\<lambda>r. rsrc_ok r \<and> length (enc_rsrc r) < wire_max" "deserialize_rsrc E"
  "\<lambda>_. True" "\<lambda>r. r" "\<lambda>r. alloc_upto E (length (enc_rsrc r))"
  by unfold_locales (auto intro: writes_rsrc reads_rsrc)

end
