(* ===== verification/Serial_Canon.thy ===== *)
theory Serial_Canon
  imports Serial_Codec
begin

text \<open>
  What is received can be sent again: the packet a receiver gets is well-formed and has the
  encoding it arrived in. The server forwards requests and responses by reading and writing
  them, so this is what makes forwarding transparent.
\<close>

lemma block_bytes_again [simp]: "block_bytes sz (Some (block_bytes sz p)) = block_bytes sz p"
  by (auto simp: block_bytes_def split: option.splits)

lemma block_ok_again [simp]: "block_ok sz p \<Longrightarrow> block_ok sz (Some (block_bytes sz p))"
  using length_block_bytes [of sz p] by (simp add: block_ok_def)

section \<open>Requests\<close>

lemma canon_request_type [simp]: "mreq_type (canon_request r) = mreq_type r"
  by (simp add: canon_request_def Let_def)

lemma enc_canon_request: "enc_request (canon_request r) = enc_request r"
proof -
  have "request_shared_bytes (canon_request r) = request_shared_bytes r"
    by (simp add: request_shared_bytes_def canon_request_def Let_def)
  moreover have "request_specific_bytes (canon_request r) = request_specific_bytes r"
    by (simp add: request_specific_bytes_def canon_request_def Let_def)
  moreover have "request_data_bytes (canon_request r) = request_data_bytes r"
    using req_has_data_size [of "mreq_type r"]
    by (auto simp: request_data_bytes_def canon_request_def Let_def)
  ultimately show ?thesis by (simp add: enc_request_def)
qed

lemma canon_request_ok: "request_ok r \<Longrightarrow> request_ok (canon_request r)"
  using req_has_data_size [of "mreq_type r"]
  by (auto simp: request_ok_def canon_request_def Let_def)

section \<open>Responses\<close>

lemma canon_response_type [simp]: "mrsp_type (canon_response r) = mrsp_type r"
  by (simp add: canon_response_def)

lemma canon_data_again: "enc_data (canon_data d) = enc_data d" "data_ok d \<Longrightarrow> data_ok (canon_data d)"
  by (cases "mdata_buf d"; auto simp: enc_data_def canon_data_def data_ok_def block_ok_def block_bytes_def)+

lemma dir_entries_again [simp]: "dir_entries (canon_dir d) = dir_entries d"
  by (auto simp: dir_entries_def canon_dir_def split: option.splits)

lemma canon_dir_again: "enc_dir (canon_dir d) = enc_dir d" "dir_ok d \<Longrightarrow> dir_ok (canon_dir d)"
  by (simp_all add: enc_dir_def dir_ok_def) (simp_all add: canon_dir_def)

lemma enc_canon_response: "response_ok r \<Longrightarrow> enc_response (canon_response r) = enc_response r"
  by (auto simp: enc_response_def rsp_body_def canon_response_def old_data_def old_stat_def
      old_dir_def old_error_def get_data_def get_stat_def get_dir_def get_error_def canon_data_again
      canon_dir_again split: middfs_response_type.splits)

lemma canon_response_ok: "response_ok r \<Longrightarrow> response_ok (canon_response r)"
  by (auto simp: response_ok_def canon_response_def old_data_def old_stat_def old_dir_def
      old_error_def get_data_def get_stat_def get_dir_def get_error_def canon_data_again
      canon_dir_again split: middfs_response_type.splits)

section \<open>Packets\<close>

lemma canon_pkt_type [simp]: "mpkt_type (canon_pkt p) = mpkt_type p"
  by (simp add: canon_pkt_def)

lemma enc_canon_pkt: "pkt_ok p \<Longrightarrow> enc_pkt (canon_pkt p) = enc_pkt p"
  by (cases "mpkt_type p")
    (simp_all add: enc_pkt_def pkt_body_def canon_pkt_def pkt_ok_def old_request_def old_response_def
      old_connect_def get_request_def get_response_def get_connect_def enc_canon_request
      enc_canon_response)

lemma canon_pkt_ok:
  assumes "pkt_ok p"
  shows "pkt_ok (canon_pkt p)"
proof -
  have "length (enc_pkt (canon_pkt p)) < wire_max" using assms enc_canon_pkt by (simp add: pkt_ok_def)
  with assms show ?thesis
    by (cases "mpkt_type p")
      (simp_all add: pkt_ok_def canon_pkt_def old_request_def old_response_def old_connect_def
        get_request_def get_response_def get_connect_def canon_request_ok canon_response_ok)
qed

end
