(* ===== verification/Serial_Safety.thy ===== *)
theory Serial_Safety
  imports Serial_Codec
begin

text \<open>
  What the serialisation functions do on arbitrary input, well-formed or not: a serialiser
  never changes memory past \<open>nbytes\<close>, a deserialiser never reads past it, and the exact bytes
  on which reading a packet stops the process.
\<close>

section \<open>Serialisers stay inside the buffer\<close>

definition framed :: "serializer \<Rightarrow> bool" where
  "framed f \<longleftrightarrow>
     (\<forall>buf nbytes m b. f buf nbytes = Some (m, b) \<longrightarrow>
        length b = length buf \<and>
        (unat nbytes \<le> length buf \<longrightarrow> drop (unat nbytes) b = drop (unat nbytes) buf))"

named_theorems framed_intros \<open>serialisers that stay inside their buffer\<close>

lemma framedI:
  "(\<And>buf nbytes m b. f buf nbytes = Some (m, b) \<Longrightarrow>
      length b = length buf \<and>
      (unat nbytes \<le> length buf \<longrightarrow> drop (unat nbytes) b = drop (unat nbytes) buf)) \<Longrightarrow>
   framed f"
  by (simp add: framed_def)

lemma framedD:
  assumes "framed f" "f buf nbytes = Some (m, b)"
  shows "length b = length buf"
    "unat nbytes \<le> length buf \<Longrightarrow> drop (unat nbytes) b = drop (unat nbytes) buf"
  using assms by (auto simp: framed_def)

text \<open>A guarded \<open>memcpy\<close>, the shape of every leaf.\<close>

lemma framed_write:
  assumes "\<And>buf nbytes m b. f buf nbytes = Some (m, b) \<Longrightarrow>
    b = buf \<or> (\<exists>bs. length bs \<le> unat nbytes \<and> mem_write buf bs = Some b)"
  shows "framed f"
proof (rule framedI)
  fix buf nbytes m b
  assume "f buf nbytes = Some (m, b)"
  with assms [of buf nbytes m b]
  show "length b = length buf \<and>
      (unat nbytes \<le> length buf \<longrightarrow> drop (unat nbytes) b = drop (unat nbytes) buf)"
    by (auto simp: mem_write_def split: if_splits)
qed

lemma framed_next:
  assumes "framed f" "ser_next f nbytes (used, b) = Some (used', b')"
  shows "length b' = length b"
    "unat nbytes \<le> length b \<Longrightarrow> drop (unat nbytes) b' = drop (unat nbytes) b"
proof -
  let ?u = "unat used"
  obtain m c where c: "f (drop ?u b) (sizerem nbytes used) = Some (m, c)"
    and b': "b' = take ?u b @ c"
    using assms(2) by (auto simp: ser_next_def bind_Some_iff)
  note fr = framedD [OF assms(1) c]
  show "length b' = length b" using fr(1) b' by simp
  show "drop (unat nbytes) b' = drop (unat nbytes) b" if le: "unat nbytes \<le> length b"
  proof (cases "?u \<le> unat nbytes")
    case True
    then show ?thesis using fr(2) b' le by simp
  next
    case False
    then have "c = drop ?u b" using fr(2) by simp
    then show ?thesis using b' by simp
  qed
qed

lemma framed_fields:
  assumes "list_all framed fs" "ser_fields fs nbytes (used, b) = Some (used', b')"
  shows "length b' = length b \<and>
    (unat nbytes \<le> length b \<longrightarrow> drop (unat nbytes) b' = drop (unat nbytes) b)"
  using assms
proof (induction fs arbitrary: used b)
  case Nil
  then show ?case by simp
next
  case (Cons f fs)
  from Cons.prems(2) obtain used1 b1
    where s1: "ser_next f nbytes (used, b) = Some (used1, b1)"
      and s2: "ser_fields fs nbytes (used1, b1) = Some (used', b')"
    by (auto simp: bind_Some_iff)
  have f: "framed f" using Cons.prems(1) by simp
  have "length b' = length b1 \<and>
      (unat nbytes \<le> length b1 \<longrightarrow> drop (unat nbytes) b' = drop (unat nbytes) b1)"
    using Cons.prems by (intro Cons.IH [OF _ s2]) simp
  with framed_next [OF f s1] show ?case by simp
qed

lemma framed_struct [framed_intros]: "list_all framed fs \<Longrightarrow> framed (serialize_struct fs)"
  by (rule framedI) (auto simp: serialize_struct_def dest: framed_fields)

lemma framed_uint32 [framed_intros]: "framed (serialize_uint32 w)"
  by (rule framed_write)
    (auto simp: serialize_uint32_def be32_def word_le_nat_alt bind_Some_iff split: if_splits
      intro!: exI [of _ "be32 w"])

lemma framed_int32 [framed_intros]: "framed (serialize_int32 w)"
  using framed_uint32 [of w] by (simp add: framed_def serialize_int32_def)

lemma framed_uint64 [framed_intros]: "framed (serialize_uint64 w)"
  by (simp add: serialize_uint64_def framed_intros)

lemma framed_str [framed_intros]: "framed (serialize_str p)"
proof (rule framed_write)
  fix buf nbytes m b
  assume a: "serialize_str p buf nbytes = Some (m, b)"
  then obtain s where s: "p = Some s" by (auto simp: serialize_str_def bind_Some_iff)
  let ?k = "min (length s) (unat nbytes)"
  have "?k < 2 ^ 64" by (simp add: min_less_iff_disj)
  then have k: "unat (word_of_nat ?k :: u64) = ?k" by (rule unat_of_nat_u64)
  show "b = buf \<or> (\<exists>bs. length bs \<le> unat nbytes \<and> mem_write buf bs = Some b)"
  proof (cases "length s < unat nbytes")
    case True
    with a s k show ?thesis
      by (auto simp: serialize_str_def word_less_nat_alt Let_def bind_Some_iff
          intro!: exI [of _ "str_bytes s"])
  next
    case False
    with a s k show ?thesis by (auto simp: serialize_str_def word_less_nat_alt Let_def)
  qed
qed

lemma framed_strp [framed_intros]: "framed (serialize_strp p)"
  using framed_str [of p] by (simp add: framed_def serialize_strp_def)

lemma memcpy_to_write:
  "memcpy_to dst p sz = Some b \<Longrightarrow> b = dst \<or> (\<exists>bs. length bs = unat sz \<and> mem_write dst bs = Some b)"
  by (auto simp: memcpy_to_def mem_read_def bind_Some_iff split: if_splits)

lemma framed_req_data [framed_intros]: "framed (serialize_req_data p sz)"
  by (rule framed_write)
    (auto simp: serialize_req_data_def word_le_nat_alt bind_Some_iff split: if_splits
      dest!: memcpy_to_write)

lemma framed_data_buf [framed_intros]: "framed (serialize_data_buf d)"
  by (rule framed_write)
    (auto simp: serialize_data_buf_def word_le_nat_alt bind_Some_iff split: if_splits
      dest!: memcpy_to_write)

lemma framed_rsrc [framed_intros]: "framed (serialize_rsrc r)"
  by (simp add: serialize_rsrc_def framed_intros)

lemma framed_connect [framed_intros]: "framed (serialize_connect c)"
  by (simp add: serialize_connect_def framed_intros)

lemma framed_request [framed_intros]: "framed (serialize_request r)"
  by (simp add: serialize_request_def Let_def framed_intros)

lemma framed_stat [framed_intros]: "framed (serialize_stat s)"
  by (simp add: serialize_stat_def framed_intros)

lemma framed_data [framed_intros]: "framed (serialize_data d)"
  by (simp add: serialize_data_def framed_intros)

lemma framed_dirent [framed_intros]: "framed (serialize_dirent e)"
  by (simp add: serialize_dirent_def framed_intros)

text \<open>A function that first looks something up, and is undefined when it is not there.\<close>

lemma framed_bind:
  "(\<And>x. m = Some x \<Longrightarrow> framed (f x)) \<Longrightarrow> framed (\<lambda>buf nbytes. m \<bind> (\<lambda>x. f x buf nbytes))"
  by (cases m) (simp_all add: framed_def)

lemma framed_dir [framed_intros]: "framed (serialize_dir d)"
  unfolding serialize_dir_def
  by (rule framed_struct) (auto simp: list_all_iff intro: framed_intros framed_bind)

lemma framed_rsp [framed_intros]: "framed (serialize_rsp r)"
  unfolding serialize_rsp_def
  by (rule framed_bind)
    (auto simp: rsp_fields_def bind_Some_iff intro!: framed_struct framed_intros
      split: middfs_response_type.splits)

lemma framed_pkt [framed_intros]: "framed (serialize_pkt p)"
  unfolding serialize_pkt_def
  by (rule framed_bind)
    (auto simp: pkt_fields_def bind_Some_iff intro!: framed_struct framed_intros
      split: middfs_packet_type.splits)

section \<open>Deserialisers stay inside the buffer\<close>

text \<open>
  A read past the block is None in the model, so a deserialiser that is defined whenever the
  block has \<open>nbytes\<close> bytes never reads further than that.
\<close>

definition safe :: "('a \<Rightarrow> bool) \<Rightarrow> 'a deserializer \<Rightarrow> bool" where
  "safe P f \<longleftrightarrow>
     (\<forall>buf nbytes v err. P v \<longrightarrow> unat nbytes \<le> length buf \<longrightarrow> f buf nbytes v err \<noteq> None)"

definition safe_field :: "'a dfield \<Rightarrow> bool" where
  "safe_field g \<longleftrightarrow> (\<forall>buf nbytes s. unat nbytes \<le> length buf \<longrightarrow> g buf nbytes s \<noteq> None)"

named_theorems safe_intros \<open>deserialisers that stay inside their buffer\<close>

lemma safeI:
  "(\<And>buf nbytes v err. P v \<Longrightarrow> unat nbytes \<le> length buf \<Longrightarrow> f buf nbytes v err \<noteq> None) \<Longrightarrow>
   safe P f"
  by (simp add: safe_def)

lemma safeE:
  assumes "safe P f" "P v" "unat nbytes \<le> length buf"
  obtains m v' err' where "f buf nbytes v err = Some (m, v', err')"
  using assms unfolding safe_def by (metis not_None_eq prod_cases3)

lemma sizerem_drop: "unat nbytes \<le> length buf \<Longrightarrow>
  unat (sizerem nbytes used) \<le> length (drop (unat used) buf)"
  by simp

lemma safe_next [safe_intros]:
  assumes "safe (\<lambda>_. True) f"
  shows "safe_field (des_next f get put)"
  unfolding safe_field_def
proof (intro allI impI)
  fix buf :: "byte list" and nbytes :: u64 and s :: "u64 \<times> 'b \<times> int"
  assume n: "unat nbytes \<le> length buf"
  obtain used v err where s: "s = (used, v, err)" by (cases s)
  obtain m x e where "f (drop (unat used) buf) (sizerem nbytes used) (get v) err = Some (m, x, e)"
    by (rule safeE [OF assms TrueI sizerem_drop [OF n]])
  then show "des_next f get put buf nbytes s \<noteq> None" by (simp add: des_next_def s)
qed

lemma safe_fields:
  "list_all safe_field gs \<Longrightarrow> unat nbytes \<le> length buf \<Longrightarrow> des_fields gs buf nbytes s \<noteq> None"
proof (induction gs arbitrary: s)
  case Nil
  then show ?case by simp
next
  case (Cons g gs)
  then have "g buf nbytes s \<noteq> None" unfolding list.pred_inject safe_field_def by blast
  moreover have "des_fields gs buf nbytes s' \<noteq> None" for s'
    using Cons unfolding list.pred_inject by blast
  ultimately show ?case unfolding des_fields.simps by (intro defined_intros)
qed

lemma safe_struct [safe_intros]:
  "list_all safe_field gs \<Longrightarrow> safe (\<lambda>_. True) (deserialize_struct gs)"
  unfolding deserialize_struct_def by (intro safeI defined_intros safe_fields)

lemma safe_uint32 [safe_intros]: "safe (\<lambda>_. True) deserialize_uint32"
  by (rule safeI) (auto simp: deserialize_uint32_def word_le_nat_alt)

lemma safe_int32 [safe_intros]: "safe (\<lambda>_. True) deserialize_int32"
  using safe_uint32 by (simp add: safe_def deserialize_int32_def)

lemma safe_str [safe_intros]: "safe (\<lambda>_. True) (deserialize_str E)"
proof (rule safeI)
  fix buf nbytes v err assume "unat (nbytes :: u64) \<le> length (buf :: byte list)"
  then obtain len where "strnlen buf nbytes = Some len" by (rule strnlen_Some)
  then show "deserialize_str E buf nbytes v err \<noteq> None" by (simp add: deserialize_str_def)
qed

lemma safe_uint64 [safe_intros]: "safe (\<lambda>_. True) (deserialize_uint64 E)"
proof (rule safeI)
  fix buf :: "byte list" and nbytes :: u64 and v err
  assume n: "unat nbytes \<le> length buf"
  have "list_all safe_field
      ([des_next deserialize_uint32 fst (\<lambda>x (_, u2). (x, u2)),
        des_next deserialize_uint32 snd (\<lambda>x (u1, _). (u1, x))] :: (u32 \<times> u32) dfield list)"
    by (simp add: safe_intros)
  from safe_fields [OF this n] show "deserialize_uint64 E buf nbytes v err \<noteq> None"
    unfolding deserialize_uint64_def by (rule bind_defined) (simp split: prod.splits)
qed

lemma safe_rsrc [safe_intros]: "safe (\<lambda>_. True) (deserialize_rsrc E)"
  by (simp add: deserialize_rsrc_def safe_intros)

lemma safe_connect [safe_intros]: "safe (\<lambda>_. True) (deserialize_connect E)"
  unfolding deserialize_connect_def
  by (rule safeI, rule safe_fields) (simp_all add: safe_intros)

lemma safe_stat [safe_intros]: "safe (\<lambda>_. True) (deserialize_stat E)"
  unfolding deserialize_stat_def
  by (rule safeI, rule safe_fields) (simp_all add: safe_intros)

lemma safe_dirent [safe_intros]: "safe (\<lambda>_. True) (deserialize_dirent E)"
  unfolding deserialize_dirent_def
  by (rule safeI, rule safe_fields) (simp_all add: safe_intros)

lemma memdup_defined: "unat sz \<le> length mem \<Longrightarrow> memdup E mem sz \<noteq> None"
  by (simp add: memdup_def)

lemma safe_req_data:
  "unat nbytes \<le> length buf \<Longrightarrow> deserialize_req_data E buf nbytes s \<noteq> None"
  unfolding deserialize_req_data_def
  by (intro defined_intros memdup_defined) (auto simp: word_le_nat_alt)

lemma safe_request [safe_intros]: "safe (\<lambda>_. True) (deserialize_request E)"
proof (rule safeI)
  fix buf nbytes v err assume n: "unat (nbytes :: u64) \<le> length (buf :: byte list)"
  have "list_all safe_field (request_shared E)"
    and "list_all safe_field (request_specific E t)" for t
    by (simp_all add: request_shared_def request_specific_def safe_intros)
  with safe_fields [OF _ n] have "des_fields (request_shared E) buf nbytes s \<noteq> None"
    and "des_fields (request_specific E t) buf nbytes s \<noteq> None" for s t
    by blast+
  then show "deserialize_request E buf nbytes v err \<noteq> None"
    unfolding deserialize_request_def by (intro defined_intros safe_req_data n)
qed

lemma safe_data [safe_intros]: "safe (\<lambda>_. True) (deserialize_data E)"
proof (rule safeI)
  fix buf nbytes v err assume n: "unat (nbytes :: u64) \<le> length (buf :: byte list)"
  have "safe_field (des_next (deserialize_uint64 E) mdata_nbytes (\<lambda>x d. d\<lparr>mdata_nbytes := x\<rparr>)
      :: middfs_data dfield)"
    by (simp add: safe_intros)
  with n show "deserialize_data E buf nbytes v err \<noteq> None"
    unfolding deserialize_data_def safe_field_def
    by (intro defined_intros memdup_defined) (auto simp: word_le_nat_alt)
qed

text \<open>The entries loop stays inside the array as long as the array has \<open>mdir_count\<close> entries.\<close>

lemma safe_dir_loop:
  assumes "unat nbytes \<le> length buf" "mdir_ents dir = Some es" "k \<le> length es"
  shows "des_fields (map (dir_step E) [i..<k]) buf nbytes (used, dir, err) \<noteq> None"
  using assms(2,3)
proof (induction "k - i" arbitrary: i used dir es err)
  case 0
  then show ?case by simp
next
  case (Suc j)
  then have i: "i < k" by simp
  obtain m de e where de: "deserialize_dirent E (drop (unat used) buf) (sizerem nbytes used)
      (es ! i) err = Some (m, de, e)"
    by (rule safeE [OF safe_dirent TrueI sizerem_drop [OF assms(1)]])
  have "des_fields (map (dir_step E) [Suc i..<k]) buf nbytes
      (used + m, dir\<lparr>mdir_ents := Some (es[i := de])\<rparr>, e) \<noteq> None"
    using Suc.hyps(2) Suc.prems by (intro Suc.hyps(1) [where es = "es[i := de]"]) auto
  then show ?case
    using i Suc.prems de by (simp add: upt_conv_Cons dir_step_def dirent_at_def)
qed

lemma safe_dir: "safe (\<lambda>d. mdir_ents d = None) (deserialize_dir E)"
proof (rule safeI)
  fix buf nbytes and v :: middfs_dir and err
  assume v: "mdir_ents v = None" and n: "unat (nbytes :: u64) \<le> length (buf :: byte list)"
  obtain m x e where x: "deserialize_uint64 E buf nbytes (mdir_count v) err = Some (m, x, e)"
    by (rule safeE [OF safe_uint64 TrueI n])
  have "des_fields (map (dir_step E) [0..<unat x]) buf nbytes
      (m, v\<lparr>mdir_count := x, mdir_ents := Some (replicate (unat x) zero_dirent)\<rparr>, e') \<noteq> None" for e'
    by (rule safe_dir_loop [OF n]) (simp, subst length_replicate, rule order_refl)
  with x v show "deserialize_dir E buf nbytes v err \<noteq> None"
    by (simp add: deserialize_dir_def des_next_def sizerem_def Let_def)
qed

section \<open>When reading a packet stops the process\<close>

text \<open>
  The 32-bit value at the start of a block, as \<open>ntohl\<close> reads it, and the response types the
  code knows.
\<close>

definition word_at :: "byte list \<Rightarrow> nat \<Rightarrow> u32" where
  "word_at buf i = unbe32 (take 4 (drop i buf))"

definition known_response :: "u32 \<Rightarrow> bool" where
  "known_response w \<longleftrightarrow> w \<le> 4"

lemma known_response_iff: "known_response w \<longleftrightarrow> (\<forall>x. mrsp_of_code w \<noteq> MRSP_OTHER x)"
proof -
  have "w = 0 \<or> w = 1 \<or> w = 2 \<or> w = 3 \<or> w = 4" if "w \<le> 4"
  proof -
    have "unat w \<le> 4" using that by (simp add: word_le_nat_alt)
    then have "unat w = 0 \<or> unat w = 1 \<or> unat w = 2 \<or> unat w = 3 \<or> unat w = 4" by linarith
    then show ?thesis by (simp add: word_unat_eq_iff)
  qed
  then show ?thesis by (auto simp: known_response_def mrsp_of_code_def)
qed

lemma uint32_field:
  assumes "unat nbytes \<le> length buf"
  shows "4 \<le> unat nbytes - unat used \<Longrightarrow>
      des_next deserialize_uint32 get put buf nbytes (used, v, 0)
        = Some (used + 4, put (word_at buf (unat used)) v, 0)"
    and "unat nbytes - unat used < 4 \<Longrightarrow>
      des_next deserialize_uint32 get put buf nbytes (used, v, 0)
        = Some (used + 4, put (get v) v, 0)"
  using assms by (auto simp: des_next_def deserialize_uint32_def word_le_nat_alt word_at_def)

lemma int32_is_uint32: "deserialize_int32 = deserialize_uint32"
  by (intro ext) (simp add: deserialize_int32_def)

lemma rsp_none_iff:
  assumes n: "unat nbytes \<le> length buf" and r: "mrsp_un r = Rsp_zero"
  shows "deserialize_rsp E buf nbytes r 0 = None \<longleftrightarrow>
           4 \<le> unat nbytes \<and> \<not> known_response (word_at buf 0)"
proof (cases "4 \<le> unat nbytes")
  case False
  with n show ?thesis
    by (simp add: deserialize_rsp_def int32_is_uint32 uint32_field word_less_nat_alt)
next
  case True
  let ?t = "mrsp_of_code (word_at buf 0)"
  let ?s = "(4 :: u64, r\<lparr>mrsp_type := ?t\<rparr>, 0 :: int)"
  have d: "deserialize_rsp E buf nbytes r 0 =
      (case ?t of
         MRSP_OK \<Rightarrow> Some ?s
       | MRSP_DATA \<Rightarrow>
           des_next (deserialize_data E) (\<lambda>r. old_data (mrsp_un r))
             (\<lambda>x r. r\<lparr>mrsp_un := Rsp_data x\<rparr>) buf nbytes ?s
       | MRSP_STAT \<Rightarrow>
           des_next (deserialize_stat E) (\<lambda>r. old_stat (mrsp_un r))
             (\<lambda>x r. r\<lparr>mrsp_un := Rsp_stat x\<rparr>) buf nbytes ?s
       | MRSP_DIR \<Rightarrow>
           des_next (deserialize_dir E) (\<lambda>r. old_dir (mrsp_un r))
             (\<lambda>x r. r\<lparr>mrsp_un := Rsp_dir x\<rparr>) buf nbytes ?s
       | MRSP_ERROR \<Rightarrow>
           des_next deserialize_int32 (\<lambda>r. old_error (mrsp_un r))
             (\<lambda>x r. r\<lparr>mrsp_un := Rsp_error x\<rparr>) buf nbytes ?s
       | MRSP_OTHER _ \<Rightarrow> None)"
    using True by (simp add: deserialize_rsp_def int32_is_uint32 word_less_nat_alt
        uint32_field(1) [OF n])
  have safe: "safe_field (des_next (deserialize_data E) (\<lambda>r. old_data (mrsp_un r))
      (\<lambda>x r. r\<lparr>mrsp_un := Rsp_data x\<rparr>) :: middfs_response dfield)"
    "safe_field (des_next (deserialize_stat E) (\<lambda>r. old_stat (mrsp_un r))
      (\<lambda>x r. r\<lparr>mrsp_un := Rsp_stat x\<rparr>) :: middfs_response dfield)"
    "safe_field (des_next deserialize_int32 (\<lambda>r. old_error (mrsp_un r))
      (\<lambda>x r. r\<lparr>mrsp_un := Rsp_error x\<rparr>) :: middfs_response dfield)"
    by (simp_all add: safe_intros)
  have "mdir_ents (old_dir (mrsp_un r)) = None"
    using r by (simp add: old_dir_def get_dir_def zero_dir_def)
  moreover have "unat (sizerem nbytes 4) \<le> length (drop 4 buf)"
    using n by (simp add: diff_le_mono)
  ultimately obtain m d' e where "deserialize_dir E (drop 4 buf) (sizerem nbytes 4)
      (old_dir (mrsp_un r)) 0 = Some (m, d', e)"
    by (rule safeE [OF safe_dir])
  then have dir: "des_next (deserialize_dir E) (\<lambda>r. old_dir (mrsp_un r))
      (\<lambda>x r. r\<lparr>mrsp_un := Rsp_dir x\<rparr>) buf nbytes ?s \<noteq> None"
    by (simp add: des_next_def)
  have "(\<exists>x. ?t = MRSP_OTHER x) \<longleftrightarrow> deserialize_rsp E buf nbytes r 0 = None"
    unfolding d using dir safe [unfolded safe_field_def, rule_format, OF n]
    by (cases ?t) simp_all
  with True show ?thesis by (auto simp: known_response_iff)
qed

lemma pkt_none_iff:
  assumes n: "unat nbytes \<le> length buf" and p: "mpkt_un p = Pkt_zero"
  shows "deserialize_pkt E buf nbytes p 0 = None \<longleftrightarrow>
           12 \<le> unat nbytes \<and> word_at buf 4 = mpkt_code MPKT_RESPONSE \<and>
           \<not> known_response (word_at buf 8)"
proof (cases "8 \<le> unat nbytes")
  case False
  have "\<exists>s. des_fields
      [des_next deserialize_uint32 mpkt_magic (\<lambda>x p. p\<lparr>mpkt_magic := x\<rparr>),
       des_next deserialize_uint32 (\<lambda>p. mpkt_code (mpkt_type p))
         (\<lambda>x p. p\<lparr>mpkt_type := mpkt_of_code x\<rparr>)] buf nbytes (0, p, 0) = Some s \<and> fst s = 8"
    using False by (cases "4 \<le> unat nbytes") (simp_all add: uint32_field [OF n])
  with False show ?thesis
    by (auto simp: deserialize_pkt_def word_less_nat_alt simp del: des_fields.simps)
next
  case True
  let ?t = "mpkt_of_code (word_at buf 4)"
  let ?s = "(8 :: u64, p\<lparr>mpkt_magic := word_at buf 0, mpkt_type := ?t\<rparr>, 0 :: int)"
  have "des_fields
      [des_next deserialize_uint32 mpkt_magic (\<lambda>x p. p\<lparr>mpkt_magic := x\<rparr>),
       des_next deserialize_uint32 (\<lambda>p. mpkt_code (mpkt_type p))
         (\<lambda>x p. p\<lparr>mpkt_type := mpkt_of_code x\<rparr>)] buf nbytes (0, p, 0) = Some ?s"
    using True by (simp add: uint32_field(1) [OF n])
  then have d: "deserialize_pkt E buf nbytes p 0 = map_option des_result
      (case ?t of
         MPKT_REQUEST \<Rightarrow>
           des_next (deserialize_request E) (\<lambda>p. old_request (mpkt_un p))
             (\<lambda>x p. p\<lparr>mpkt_un := Pkt_request x\<rparr>) buf nbytes ?s
       | MPKT_RESPONSE \<Rightarrow>
           des_next (deserialize_rsp E) (\<lambda>p. old_response (mpkt_un p))
             (\<lambda>x p. p\<lparr>mpkt_un := Pkt_response x\<rparr>) buf nbytes ?s
       | MPKT_CONNECT \<Rightarrow>
           des_next (deserialize_connect E) (\<lambda>p. old_connect (mpkt_un p))
             (\<lambda>x p. p\<lparr>mpkt_un := Pkt_connect x\<rparr>) buf nbytes ?s
       | _ \<Rightarrow> Some ?s)"
    using True
    by (simp add: deserialize_pkt_def word_less_nat_alt del: des_fields.simps)
  have safe: "safe_field (des_next (deserialize_request E) (\<lambda>p. old_request (mpkt_un p))
      (\<lambda>x p. p\<lparr>mpkt_un := Pkt_request x\<rparr>) :: middfs_packet dfield)"
    "safe_field (des_next (deserialize_connect E) (\<lambda>p. old_connect (mpkt_un p))
      (\<lambda>x p. p\<lparr>mpkt_un := Pkt_connect x\<rparr>) :: middfs_packet dfield)"
    by (simp_all add: safe_intros)
  let ?r = "des_next (deserialize_rsp E) (\<lambda>p. old_response (mpkt_un p))
      (\<lambda>x p. p\<lparr>mpkt_un := Pkt_response x\<rparr>) buf nbytes ?s"
  have "?r = None \<longleftrightarrow>
      deserialize_rsp E (drop 8 buf) (sizerem nbytes 8) (old_response (mpkt_un p)) 0 = None"
    by (cases "deserialize_rsp E (drop 8 buf) (sizerem nbytes 8) (old_response (mpkt_un p)) 0")
      (auto simp: des_next_def)
  also have "\<dots> \<longleftrightarrow> 4 \<le> unat (sizerem nbytes 8) \<and> \<not> known_response (word_at (drop 8 buf) 0)"
    using n p
    by (intro rsp_none_iff) (auto simp: old_response_def get_response_def zero_response_def diff_le_mono)
  also have "\<dots> \<longleftrightarrow> 12 \<le> unat nbytes \<and> \<not> known_response (word_at buf 8)"
    using True by (auto simp: word_at_def)
  finally have r: "?r = None \<longleftrightarrow> 12 \<le> unat nbytes \<and> \<not> known_response (word_at buf 8)" .
  have t: "?t = MPKT_RESPONSE \<longleftrightarrow> word_at buf 4 = 4"
    by (auto simp: mpkt_of_code_def)
  show ?thesis
    unfolding d option.map_disc_iff using r safe [unfolded safe_field_def, rule_format, OF n] t
    by (cases ?t) simp_all
qed

end
