(* ===== verification/Serial_Accept.thy ===== *)
theory Serial_Accept
  imports Serial_Canon Serial_Safety
begin

text \<open>
  What a deserialiser accepts: from bytes that nobody has promised to be an encoding, it either
  reports an error, asks for more bytes, or has read exactly the encoding of the value it
  returns. \<open>exact\<close> says so of a deserialiser and \<open>steps\<close> of a statement of a sequence. k
  bounds by how much either overshoots the bytes it was given, so that counts do not wrap.
\<close>

section \<open>Deserialisers and statements\<close>

text \<open>I is about the old value of the target, K about its new one, R about it and its bytes.\<close>

definition exact ::
    "('a \<Rightarrow> bool) \<Rightarrow> ('a \<Rightarrow> bool) \<Rightarrow> 'a deserializer \<Rightarrow> ('a \<Rightarrow> byte list \<Rightarrow> bool) \<Rightarrow> nat \<Rightarrow> bool" where
  "exact I K f R k \<longleftrightarrow>
     (\<forall>buf nbytes v err m x. f buf nbytes v err = Some (m, x, 0) \<longrightarrow>
        err = 0 \<and>
        (unat nbytes \<le> length buf \<longrightarrow> unat nbytes + k < 2 ^ 64 \<longrightarrow> I v \<longrightarrow> K x \<longrightarrow>
           unat m \<le> unat nbytes + k \<and> (unat m \<le> unat nbytes \<longrightarrow> R x (take (unat m) buf))))"

abbreviation exact_always :: "'a deserializer \<Rightarrow> ('a \<Rightarrow> byte list \<Rightarrow> bool) \<Rightarrow> nat \<Rightarrow> bool" where
  "exact_always \<equiv> exact (\<lambda>_. True) (\<lambda>_. True)"

text \<open>The bytes between two counts, and what a statement adds to a state.\<close>

definition added :: "byte list \<Rightarrow> u64 \<Rightarrow> u64 \<Rightarrow> byte list" where
  "added buf used used' = take (unat used' - unat used) (drop (unat used) buf)"

definition grows ::
    "nat \<Rightarrow> u64 \<Rightarrow> u64 \<Rightarrow> u64 \<Rightarrow> bool" where
  "grows k nbytes used used' \<longleftrightarrow>
     unat used' \<le> max (unat used) (unat nbytes) + k \<and>
     (unat nbytes < unat used \<longrightarrow> unat nbytes < unat used') \<and>
     (unat used' \<le> unat nbytes \<longrightarrow> unat used \<le> unat used')"

definition steps :: "'a dfield \<Rightarrow> ('a \<Rightarrow> 'a \<Rightarrow> byte list \<Rightarrow> bool) \<Rightarrow> nat \<Rightarrow> bool" where
  "steps g R k \<longleftrightarrow>
     (\<forall>buf nbytes used v err used' v'. g buf nbytes (used, v, err) = Some (used', v', 0) \<longrightarrow>
        err = 0 \<and>
        (unat nbytes \<le> length buf \<longrightarrow> max (unat used) (unat nbytes) + k < 2 ^ 64 \<longrightarrow>
           grows k nbytes used used' \<and>
           (unat used' \<le> unat nbytes \<longrightarrow> R v v' (added buf used used'))))"

named_theorems exact_intros \<open>the deserialisers and what they accept\<close>

lemma exactI:
  assumes "\<And>buf nbytes v err m x. f buf nbytes v err = Some (m, x, 0) \<Longrightarrow> err = 0"
    "\<And>buf nbytes v m x. f buf nbytes v 0 = Some (m, x, 0) \<Longrightarrow>
      unat nbytes \<le> length buf \<Longrightarrow> unat nbytes + k < 2 ^ 64 \<Longrightarrow> I v \<Longrightarrow> K x \<Longrightarrow>
      unat m \<le> unat nbytes + k \<and> (unat m \<le> unat nbytes \<longrightarrow> R x (take (unat m) buf))"
  shows "exact I K f R k"
  unfolding exact_def using assms by metis

text \<open>A deserialiser run on what is left of a buffer.\<close>

lemma exact_rest:
  assumes f: "exact I K f R k"
    and run: "f (drop (unat used) buf) (sizerem nbytes used) v err = Some (m, x, 0)"
  shows "err = 0"
    "unat nbytes \<le> length buf \<Longrightarrow> max (unat used) (unat nbytes) + k < 2 ^ 64 \<Longrightarrow> I v \<Longrightarrow> K x \<Longrightarrow>
     grows k nbytes used (used + m) \<and>
     (unat (used + m) \<le> unat nbytes \<longrightarrow> R x (added buf used (used + m)))"
proof -
  note f' = f [unfolded exact_def, rule_format, OF run]
  show "err = 0" using f' by simp
  assume n: "unat nbytes \<le> length buf" and k: "max (unat used) (unat nbytes) + k < 2 ^ 64"
    and "I v" "K x"
  moreover have "unat (sizerem nbytes used) \<le> length (drop (unat used) buf)"
    using n by (simp add: diff_le_mono)
  moreover have "unat (sizerem nbytes used) + k < 2 ^ 64" using k by simp
  ultimately have m: "unat m \<le> unat nbytes - unat used + k"
    and R: "unat m \<le> unat nbytes - unat used \<longrightarrow> R x (take (unat m) (drop (unat used) buf))"
    using f' by simp_all
  have um: "unat (used + m) = unat used + unat m" using m k by (intro unat_add_u64) linarith
  show "grows k nbytes used (used + m) \<and>
      (unat (used + m) \<le> unat nbytes \<longrightarrow> R x (added buf used (used + m)))"
  proof (intro conjI impI)
    show "grows k nbytes used (used + m)" using m um by (auto simp: grows_def)
    assume "unat (used + m) \<le> unat nbytes"
    then have "unat m \<le> unat nbytes - unat used" using um by simp
    with R show "R x (added buf used (used + m))" by (simp add: added_def um)
  qed
qed

lemma steps_next:
  assumes "exact_always f R k"
  shows "steps (des_next f get put) (\<lambda>v v' b. \<exists>x. v' = put x v \<and> R x b) k"
  unfolding steps_def des_next_def
  by (auto simp: bind_Some_iff dest: exact_rest [OF assms])

section \<open>Sequences\<close>

fun seqs :: "('a \<Rightarrow> 'a \<Rightarrow> byte list \<Rightarrow> bool) list \<Rightarrow> 'a \<Rightarrow> 'a \<Rightarrow> byte list \<Rightarrow> bool" where
  "seqs [] v v' b \<longleftrightarrow> v' = v \<and> b = []"
| "seqs (R # Rs) v v' b \<longleftrightarrow> (\<exists>w b1 b2. R v w b1 \<and> seqs Rs w v' b2 \<and> b = b1 @ b2)"

lemma seqs_append:
  "seqs (Rs @ Qs) v v' b \<longleftrightarrow> (\<exists>w b1 b2. seqs Rs v w b1 \<and> seqs Qs w v' b2 \<and> b = b1 @ b2)"
  by (induction Rs arbitrary: v b) (auto, (metis append.assoc)+)

lemma seqs_if:
  "seqs (if c then [R] else []) v v' b \<longleftrightarrow> (if c then R v v' b else v' = v \<and> b = [])"
  by simp

lemma added_trans:
  "unat used \<le> unat used1 \<Longrightarrow> unat used1 \<le> unat used2 \<Longrightarrow>
   added buf used used2 = added buf used used1 @ added buf used1 used2"
proof -
  assume le: "unat used \<le> unat used1" "unat used1 \<le> unat used2"
  then have eq: "unat used2 - unat used = (unat used1 - unat used) + (unat used2 - unat used1)" by simp
  have "drop (unat used1 - unat used) (drop (unat used) buf) = drop (unat used1) buf" using le by simp
  then show ?thesis unfolding added_def eq take_add by simp
qed

lemma grows_trans:
  "grows k nbytes used used1 \<Longrightarrow> grows ks nbytes used1 used2 \<Longrightarrow> grows (k + ks) nbytes used used2"
  by (auto simp: grows_def)

lemma steps_Nil: "steps (des_fields []) (seqs []) 0"
  by (simp add: steps_def grows_def added_def)

lemma steps_Cons:
  assumes g: "steps g R k" and gs: "steps (des_fields gs) (seqs Rs) ks"
  shows "steps (des_fields (g # gs)) (seqs (R # Rs)) (k + ks)"
  unfolding steps_def
proof (intro allI impI)
  fix buf nbytes used v err used' v'
  assume "des_fields (g # gs) buf nbytes (used, v, err) = Some (used', v', 0)"
  then obtain used1 v1 err1 where s1: "g buf nbytes (used, v, err) = Some (used1, v1, err1)"
    and s2: "des_fields gs buf nbytes (used1, v1, err1) = Some (used', v', 0)"
    by (auto simp: bind_Some_iff)
  note gs' = gs [unfolded steps_def, rule_format, OF s2]
  then have "err1 = 0" by simp
  note g' = g [unfolded steps_def, rule_format, OF s1 [unfolded this]]
  show "err = 0 \<and> (unat nbytes \<le> length buf \<longrightarrow> max (unat used) (unat nbytes) + (k + ks) < 2 ^ 64 \<longrightarrow>
      grows (k + ks) nbytes used used' \<and>
      (unat used' \<le> unat nbytes \<longrightarrow> seqs (R # Rs) v v' (added buf used used')))"
  proof (intro conjI impI)
    show "err = 0" using g' by simp
    assume n: "unat nbytes \<le> length buf" and k: "max (unat used) (unat nbytes) + (k + ks) < 2 ^ 64"
    have gr: "grows k nbytes used used1"
      and R: "unat used1 \<le> unat nbytes \<longrightarrow> R v v1 (added buf used used1)"
      using g' n k by auto
    have "max (unat used1) (unat nbytes) + ks < 2 ^ 64" using gr k by (auto simp: grows_def)
    then have gr2: "grows ks nbytes used1 used'"
      and Rs: "unat used' \<le> unat nbytes \<longrightarrow> seqs Rs v1 v' (added buf used1 used')"
      using gs' n by auto
    show "grows (k + ks) nbytes used used'" using gr gr2 by (rule grows_trans)
    assume le: "unat used' \<le> unat nbytes"
    then have le1: "unat used1 \<le> unat used'" "unat used1 \<le> unat nbytes"
      using gr2 by (auto simp: grows_def)
    then have "unat used \<le> unat used1" using gr by (auto simp: grows_def)
    from added_trans [OF this le1(1)] R Rs le le1 show "seqs (R # Rs) v v' (added buf used used')"
      by auto
  qed
qed

section \<open>Integers and strings\<close>

lemma be32_unbe32: "length bs = 4 \<Longrightarrow> be32 (unbe32 bs) = bs"
proof -
  assume "length bs = 4"
  then obtain a b c d where bs: "bs = [a, b, c, d]"
    by (auto simp: numeral_eq_Suc length_Suc_conv)
  let ?w = "push_bit 24 (ucast a) OR push_bit 16 (ucast b) OR push_bit 8 (ucast c) OR ucast d :: u32"
  have "ucast (drop_bit 24 ?w) = a" "ucast (drop_bit 16 ?w) = b" "ucast (drop_bit 8 ?w) = c" "ucast ?w = d"
    by (rule bit_word_eqI; auto simp: bit_simps dest: bit_imp_le_length)+
  then show ?thesis by (simp add: bs unbe32_def be32_def)
qed

lemma exact_uint32 [exact_intros]: "exact_always deserialize_uint32 (\<lambda>x b. b = be32 x) 4"
  by (rule exactI)
    (auto simp: deserialize_uint32_def be32_unbe32 word_le_nat_alt bind_Some_iff split: if_splits)

lemma exact_int32 [exact_intros]: "exact_always deserialize_int32 (\<lambda>x b. b = be32 x) 4"
  using exact_uint32 by (simp add: int32_is_uint32)

lemma be64_halves:
  "be64 (push_bit 32 (ucast hi) + ucast lo) = be32 hi @ be32 (lo :: u32)"
proof -
  have "push_bit 32 (ucast hi) + ucast lo = (push_bit 32 (ucast hi) OR ucast lo :: u64)"
    by (rule disjunctive_add) (auto simp: bit_simps dest: bit_imp_le_length)
  moreover have "ucast (drop_bit 32 (push_bit 32 (ucast hi) OR ucast lo :: u64)) = hi"
    by (rule bit_word_eqI) (auto simp: bit_simps dest: bit_imp_le_length)
  moreover have "ucast ((push_bit 32 (ucast hi) OR ucast lo :: u64) AND mask 32) = lo"
    by (rule bit_word_eqI) (auto simp: bit_simps dest: bit_imp_le_length)
  ultimately show ?thesis by (simp add: be64_def mask32_eq)
qed

lemma added_from_0 [simp]: "added buf 0 used = take (unat used) buf"
  by (simp add: added_def)

text \<open>A function that is a sequence of statements from the start of its buffer.\<close>

lemma exact_fields:
  assumes "steps (des_fields gs) (seqs Rs) k" "\<And>v x b. seqs Rs v x b \<Longrightarrow> R x b"
    "\<And>buf nbytes v err m x. f buf nbytes v err = Some (m, x, 0) \<Longrightarrow>
       des_fields gs buf nbytes (0, v, err) = Some (m, x, 0)"
  shows "exact_always f R k"
  unfolding exact_def
  using assms(1) [unfolded steps_def, rule_format, OF assms(3)] assms(2)
  by (fastforce simp: grows_def)

lemma exact_uint64 [exact_intros]: "exact_always (deserialize_uint64 E) (\<lambda>x b. b = be64 x) 8"
proof -
  let ?put1 = "\<lambda>x (_, u2). (x :: u32, u2 :: u32)" and ?put2 = "\<lambda>x (u1, _). (u1 :: u32, x :: u32)"
  let ?R = "\<lambda>put v v' b. \<exists>x :: u32. v' = put x v \<and> b = be32 x"
  have "steps (des_fields [des_next deserialize_uint32 fst ?put1, des_next deserialize_uint32 snd ?put2])
      (seqs [?R ?put1, ?R ?put2]) (4 + (4 + 0))"
    by (intro steps_Cons steps_Nil steps_next exact_uint32)
  note st = this [unfolded steps_def, rule_format]
  show ?thesis
    unfolding exact_def
  proof (intro allI impI)
    fix buf nbytes v err m x
    assume "deserialize_uint64 E buf nbytes v err = Some (m, x, 0)"
    then obtain hi lo where run: "des_fields
        [des_next deserialize_uint32 fst ?put1, des_next deserialize_uint32 snd ?put2]
        buf nbytes (0, (indet32 E 0, indet32 E 1), err) = Some (m, (hi, lo), 0)"
      and x: "x = (if m \<le> nbytes then push_bit 32 (ucast hi) + ucast lo else v)"
      by (auto simp: deserialize_uint64_def bind_Some_iff simp del: des_fields.simps)
    from st [OF run] x show "err = 0 \<and> (unat nbytes \<le> length buf \<longrightarrow> unat nbytes + 8 < 2 ^ 64 \<longrightarrow>
        True \<longrightarrow> True \<longrightarrow> unat m \<le> unat nbytes + 8 \<and>
        (unat m \<le> unat nbytes \<longrightarrow> take (unat m) buf = be64 x))"
      by (auto simp: grows_def be64_halves word_le_nat_alt)
  qed
qed

lemma exact_str [exact_intros]:
  "exact_always (deserialize_str E) (\<lambda>x b. cstr_ok x \<and> b = cstr_bytes x) 2"
proof (rule exactI)
  fix buf nbytes v m x
  assume run: "deserialize_str E buf nbytes v 0 = Some (m, x, 0)" and n: "unat nbytes \<le> length buf"
    and k: "unat nbytes + 2 < 2 ^ 64"
  obtain len where len: "strnlen buf nbytes = Some len"
    "unat len = length (takeWhile (\<lambda>b. b \<noteq> 0) (take (unat nbytes) buf))" "unat len \<le> unat nbytes"
    by (rule strnlen_Some [OF n])
  show "unat m \<le> unat nbytes + 2 \<and> (unat m \<le> unat nbytes \<longrightarrow> cstr_ok x \<and> take (unat m) buf = cstr_bytes x)"
  proof (cases "len < nbytes")
    case False
    with run len have "m = nbytes + 2" by (simp add: deserialize_str_def add.commute)
    moreover have "unat (nbytes + 2) = unat nbytes + 2" using k by (intro trans [OF unat_add_u64]) auto
    ultimately show ?thesis by simp
  next
    case True
    let ?s = "take (unat len) buf"
    have lt: "unat len < unat nbytes" using True by (simp add: word_less_nat_alt)
    from run len True have m: "m = len + 1" and x: "x = Some (map char_of_byte ?s)"
      by (auto simp: deserialize_str_def ENOMEM_def split: if_splits)
    have "unat len + 1 < 2 ^ 64" using lt unat_u64_bound [of nbytes] by linarith
    then have um: "unat m = unat len + 1" unfolding m using unat_add_u64 [of len 1] by simp
    have s: "?s = takeWhile (\<lambda>b. b \<noteq> 0) (take (unat nbytes) buf)"
      using len(2) lt by (metis takeWhile_eq_take take_take min.absorb1 less_imp_le)
    have "take (unat nbytes) buf ! unat len = 0"
      using len(2) lt n nth_length_takeWhile [of "\<lambda>b. b \<noteq> 0" "take (unat nbytes) buf"] by simp
    then have "buf ! unat len = 0" using lt by simp
    moreover have "unat len < length buf" using lt n by simp
    ultimately have b: "take (unat m) buf = ?s @ [0]" by (simp add: um take_Suc_conv_app_nth)
    have "0 \<notin> set ?s" unfolding s by (auto dest: set_takeWhileD)
    then have "str_ok (map char_of_byte ?s)" by (auto simp: str_ok_def eq_commute [of "CHR 0x00"])
    then show ?thesis using lt um b x by (simp add: cstr_ok_def cstr_bytes_def str_bytes_def comp_def)
  qed
qed (auto simp: deserialize_str_def ENOMEM_def bind_Some_iff split: if_splits)

section \<open>Structures\<close>

lemma exact_rsrc [exact_intros]:
  "exact_always (deserialize_rsrc E) (\<lambda>x b. rsrc_ok x \<and> b = enc_rsrc x) 4"
proof (rule exact_fields)
  let ?str = "\<lambda>x b. cstr_ok x \<and> b = cstr_bytes x"
  show "steps (des_fields
      [des_next (deserialize_str E) mr_owner (\<lambda>x r. r\<lparr>mr_owner := x\<rparr>),
       des_next (deserialize_str E) mr_path (\<lambda>x r. r\<lparr>mr_path := x\<rparr>)])
      (seqs [\<lambda>v v' b. \<exists>x. v' = v\<lparr>mr_owner := x\<rparr> \<and> ?str x b, \<lambda>v v' b. \<exists>x. v' = v\<lparr>mr_path := x\<rparr> \<and> ?str x b]) 4"
    using steps_Cons [OF steps_next [OF exact_str] steps_Cons [OF steps_next [OF exact_str] steps_Nil]]
    by (simp del: seqs.simps des_fields.simps)
qed (auto simp: rsrc_ok_def enc_rsrc_def deserialize_rsrc_def deserialize_struct_def split: if_splits)

lemma exact_connect [exact_intros]:
  "exact_always (deserialize_connect E) (\<lambda>x b. connect_ok x \<and> b = enc_connect x) 6"
proof (rule exact_fields)
  show "steps (des_fields
      [des_next deserialize_uint32 conn_port (\<lambda>x c. c\<lparr>conn_port := x\<rparr>),
       des_next (deserialize_str E) conn_name (\<lambda>x c. c\<lparr>conn_name := x\<rparr>)])
      (seqs [\<lambda>v v' b. \<exists>x. v' = v\<lparr>conn_port := x\<rparr> \<and> b = be32 x,
             \<lambda>v v' b. \<exists>x. v' = v\<lparr>conn_name := x\<rparr> \<and> cstr_ok x \<and> b = cstr_bytes x]) 6"
    using steps_Cons [OF steps_next [OF exact_uint32] steps_Cons [OF steps_next [OF exact_str] steps_Nil]]
    by (simp del: seqs.simps des_fields.simps)
qed (auto simp: connect_ok_def enc_connect_def deserialize_connect_def)

lemma exact_stat [exact_intros]: "exact_always (deserialize_stat E) (\<lambda>x b. b = enc_stat x) 28"
proof (rule exact_fields)
  show "steps (des_fields
      [des_next deserialize_uint32 mstat_mode (\<lambda>x s. s\<lparr>mstat_mode := x\<rparr>),
       des_next (deserialize_uint64 E) mstat_size (\<lambda>x s. s\<lparr>mstat_size := x\<rparr>),
       des_next (deserialize_uint64 E) mstat_blocks (\<lambda>x s. s\<lparr>mstat_blocks := x\<rparr>),
       des_next (deserialize_uint64 E) mstat_blksize (\<lambda>x s. s\<lparr>mstat_blksize := x\<rparr>)])
      (seqs [\<lambda>v v' b. \<exists>x. v' = v\<lparr>mstat_mode := x\<rparr> \<and> b = be32 x,
             \<lambda>v v' b. \<exists>x. v' = v\<lparr>mstat_size := x\<rparr> \<and> b = be64 x,
             \<lambda>v v' b. \<exists>x. v' = v\<lparr>mstat_blocks := x\<rparr> \<and> b = be64 x,
             \<lambda>v v' b. \<exists>x. v' = v\<lparr>mstat_blksize := x\<rparr> \<and> b = be64 x]) 28"
    using steps_Cons [OF steps_next [OF exact_uint32] steps_Cons [OF steps_next [OF exact_uint64]
        steps_Cons [OF steps_next [OF exact_uint64] steps_Cons [OF steps_next [OF exact_uint64] steps_Nil]]]]
    by (simp del: seqs.simps des_fields.simps)
qed (auto simp: enc_stat_def deserialize_stat_def)

lemma exact_dirent [exact_intros]:
  "exact_always (deserialize_dirent E) (\<lambda>x b. dirent_ok x \<and> b = enc_dirent x) 6"
proof (rule exact_fields)
  show "steps (des_fields
      [des_next (deserialize_str E) mde_name (\<lambda>x e. e\<lparr>mde_name := x\<rparr>),
       des_next deserialize_int32 mde_mode (\<lambda>x e. e\<lparr>mde_mode := x\<rparr>)])
      (seqs [\<lambda>v v' b. \<exists>x. v' = v\<lparr>mde_name := x\<rparr> \<and> cstr_ok x \<and> b = cstr_bytes x,
             \<lambda>v v' b. \<exists>x. v' = v\<lparr>mde_mode := x\<rparr> \<and> b = be32 x]) 6"
    using steps_Cons [OF steps_next [OF exact_str] steps_Cons [OF steps_next [OF exact_int32] steps_Nil]]
    by (simp del: seqs.simps des_fields.simps)
qed (auto simp: dirent_ok_def enc_dirent_def deserialize_dirent_def)

section \<open>Blocks of data\<close>

text \<open>A count of 8 bytes followed by what it counts.\<close>

lemma take_added:
  "unat u \<le> unat m \<Longrightarrow> take (unat m) buf = take (unat u) buf @ added buf u m"
  using added_trans [of 0 u m buf] by simp

lemma count_field:
  assumes "des_next (deserialize_uint64 E) get put buf nbytes (0, v, err) = Some (u, v1, 0)"
  obtains x where "err = 0" "v1 = put x v"
    "unat nbytes \<le> length buf \<Longrightarrow> unat nbytes + 8 < 2 ^ 64 \<Longrightarrow> unat u \<le> unat nbytes + 8"
    "unat nbytes \<le> length buf \<Longrightarrow> unat nbytes + 8 < 2 ^ 64 \<Longrightarrow> unat u \<le> unat nbytes \<Longrightarrow>
       take (unat u) buf = be64 x"
proof -
  from assms obtain x where x: "deserialize_uint64 E buf nbytes (get v) err = Some (u, x, 0)" "v1 = put x v"
    by (auto simp: des_next_def bind_Some_iff)
  from exact_uint64 [unfolded exact_def, rule_format, OF x(1)] x(2) show thesis by (auto intro: that)
qed

lemma exact_data:
  "exact (\<lambda>v. mdata_buf v = None) (\<lambda>x. unat (mdata_nbytes x) < wire_max) (deserialize_data E)
     (\<lambda>x b. data_ok x \<and> canon_data x = x \<and> b = enc_data x) (8 + wire_max)"
proof -
  let ?count = "des_next (deserialize_uint64 E) mdata_nbytes (\<lambda>x d. d\<lparr>mdata_nbytes := x\<rparr>)"
  have run: "\<exists>u d1. ?count buf nbytes (0, v, err) = Some (u, d1, 0) \<and>
      (nbytes < u \<and> m = u \<and> x = d1 \<or>
       u \<le> nbytes \<and> m = u + mdata_nbytes d1 \<and> sizerem nbytes u < mdata_nbytes d1 \<and> x = d1 \<or>
       u \<le> nbytes \<and> m = u \<and> mdata_nbytes d1 = 0 \<and> x = d1 \<or>
       u \<le> nbytes \<and> m = u + mdata_nbytes d1 \<and> 0 < mdata_nbytes d1 \<and> mdata_nbytes d1 \<le> sizerem nbytes u \<and>
         unat (mdata_nbytes d1) \<le> length (drop (unat u) buf) \<and>
         x = d1\<lparr>mdata_buf := Some (take (unat (mdata_nbytes d1)) (drop (unat u) buf))\<rparr>)"
    if "deserialize_data E buf nbytes v err = Some (m, x, 0)" for buf nbytes v err m x
    using that
    by (auto simp: deserialize_data_def bind_Some_iff memdup_def mem_read_def not_le not_less split: if_splits option.splits)
  show ?thesis
  proof (rule exactI)
    fix buf nbytes v err m x assume "deserialize_data E buf nbytes v err = Some (m, x, 0)"
    from run [OF this] show "err = 0" by (blast elim: count_field)
  next
    fix buf nbytes v m x
    assume "deserialize_data E buf nbytes v 0 = Some (m, x, 0)" and n: "unat nbytes \<le> length buf"
      and k: "unat nbytes + (8 + wire_max) < 2 ^ 64" and v: "mdata_buf v = None"
      and sz: "unat (mdata_nbytes x) < wire_max"
    from run [OF this(1)] obtain u d1 where c: "?count buf nbytes (0, v, 0) = Some (u, d1, 0)"
      and r: "nbytes < u \<and> m = u \<and> x = d1 \<or>
       u \<le> nbytes \<and> m = u + mdata_nbytes d1 \<and> sizerem nbytes u < mdata_nbytes d1 \<and> x = d1 \<or>
       u \<le> nbytes \<and> m = u \<and> mdata_nbytes d1 = 0 \<and> x = d1 \<or>
       u \<le> nbytes \<and> m = u + mdata_nbytes d1 \<and> 0 < mdata_nbytes d1 \<and> mdata_nbytes d1 \<le> sizerem nbytes u \<and>
         unat (mdata_nbytes d1) \<le> length (drop (unat u) buf) \<and>
         x = d1\<lparr>mdata_buf := Some (take (unat (mdata_nbytes d1)) (drop (unat u) buf))\<rparr>" by blast
    obtain w where w: "d1 = v\<lparr>mdata_nbytes := w\<rparr>" "unat u \<le> unat nbytes + 8"
      "unat u \<le> unat nbytes \<Longrightarrow> take (unat u) buf = be64 w"
      by (rule count_field [OF c]) (use n k in auto)
    have sz1: "unat w < wire_max" using sz r w(1) by auto
    then have um: "u \<le> nbytes \<Longrightarrow> unat (u + w) = unat u + unat w"
      using k by (intro unat_add_u64) (simp add: word_le_nat_alt)
    show "unat m \<le> unat nbytes + (8 + wire_max) \<and>
        (unat m \<le> unat nbytes \<longrightarrow> data_ok x \<and> canon_data x = x \<and> take (unat m) buf = enc_data x)"
      using r
    proof (elim disjE conjE)
      assume "nbytes < u" "m = u"
      then show ?thesis using w(2) by (simp add: word_less_nat_alt)
    next
      assume "u \<le> nbytes" "m = u + mdata_nbytes d1" "sizerem nbytes u < mdata_nbytes d1"
      then have "unat m = unat u + unat w" "unat nbytes < unat u + unat w" "unat u \<le> unat nbytes"
        using um w(1) by (simp_all add: word_less_nat_alt word_le_nat_alt less_diff_conv2 add.commute)
      then show ?thesis using sz1 by simp
    next
      assume "u \<le> nbytes" "m = u" "mdata_nbytes d1 = 0" "x = d1"
      then show ?thesis
        using w v by (auto simp: word_le_nat_alt data_ok_def block_ok_def canon_data_def enc_data_def)
    next
      let ?bs = "take (unat (mdata_nbytes d1)) (drop (unat u) buf)"
      assume a: "u \<le> nbytes" "m = u + mdata_nbytes d1" "0 < mdata_nbytes d1"
        "unat (mdata_nbytes d1) \<le> length (drop (unat u) buf)" "mdata_nbytes d1 \<le> sizerem nbytes u"
        "x = d1\<lparr>mdata_buf := Some ?bs\<rparr>"
      have m: "unat m = unat u + unat w" "added buf u m = ?bs" using a(1,2) um w(1) by (simp_all add: added_def)
      have "take (unat m) buf = be64 w @ ?bs"
        using take_added [of u m buf] m w(3) a(1) by (simp add: word_le_nat_alt)
      moreover have "unat m \<le> unat nbytes" using a(1,5) m w(1) by (simp add: word_le_nat_alt)
      ultimately show ?thesis
        using a(3,4,6) w(1)
        by (auto simp: data_ok_def block_ok_def canon_data_def enc_data_def block_bytes_def)
    qed
  qed
qed

section \<open>Directories\<close>

text \<open>An entry read into the array.\<close>

definition entry_read :: "nat \<Rightarrow> middfs_dir \<Rightarrow> middfs_dir \<Rightarrow> byte list \<Rightarrow> bool" where
  "entry_read i d d' b \<longleftrightarrow>
     (\<exists>arr e. mdir_ents d = Some arr \<and> d' = d\<lparr>mdir_ents := Some (arr[i := e])\<rparr> \<and> dirent_ok e \<and>
        b = enc_dirent e)"

lemma steps_entry: "steps (dir_step E i) (entry_read i) 6"
  unfolding steps_def
proof (intro allI impI)
  fix buf nbytes used d err used' d'
  assume "dir_step E i buf nbytes (used, d, err) = Some (used', d', 0)"
  then obtain arr m e where arr: "mdir_ents d = Some arr"
    and run: "deserialize_dirent E (drop (unat used) buf) (sizerem nbytes used) (arr ! i) err = Some (m, e, 0)"
    and d': "used' = used + m" "d' = d\<lparr>mdir_ents := Some (arr[i := e])\<rparr>"
    by (auto simp: dir_step_def dirent_at_def bind_Some_iff split: if_splits)
  from exact_rest [OF exact_dirent run] arr d'
  show "err = 0 \<and> (unat nbytes \<le> length buf \<longrightarrow> max (unat used) (unat nbytes) + 6 < 2 ^ 64 \<longrightarrow>
      grows 6 nbytes used used' \<and> (unat used' \<le> unat nbytes \<longrightarrow> entry_read i d d' (added buf used used')))"
    by (auto simp: entry_read_def)
qed

lemma steps_entries:
  "steps (des_fields (map (dir_step E) is')) (seqs (map entry_read is')) (6 * length is')"
proof (induction is')
  case (Cons i is')
  from steps_Cons [OF steps_entry [of E i] this] show ?case
    by (simp del: des_fields.simps seqs.simps)
qed (use steps_Nil in \<open>simp del: des_fields.simps seqs.simps\<close>)

lemma entries_read:
  assumes "seqs (map entry_read [i..<n]) d d' b" "mdir_ents d = Some arr" "length arr = n" "i \<le> n"
  shows "\<exists>es. d' = d\<lparr>mdir_ents := Some (take i arr @ es)\<rparr> \<and> length es = n - i \<and>
    list_all dirent_ok es \<and> b = concat (map enc_dirent es)"
  using assms
proof (induction "n - i" arbitrary: i d arr b)
  case 0
  then show ?case by (intro exI [of _ "[]"]) simp
next
  case (Suc k)
  then have i: "i < n" "[i..<n] = i # [Suc i..<n]" by (simp_all add: upt_conv_Cons)
  from Suc.prems(1) i(2) obtain w b1 b2 where w: "entry_read i d w b1"
    and rest: "seqs (map entry_read [Suc i..<n]) w d' b2" and b: "b = b1 @ b2" by auto
  from w Suc.prems(2) obtain e where e: "w = d\<lparr>mdir_ents := Some (arr[i := e])\<rparr>" "dirent_ok e" "b1 = enc_dirent e"
    by (auto simp: entry_read_def)
  have "\<exists>es. d' = w\<lparr>mdir_ents := Some (take (Suc i) (arr[i := e]) @ es)\<rparr> \<and> length es = n - Suc i \<and>
      list_all dirent_ok es \<and> b2 = concat (map enc_dirent es)"
    by (rule Suc.hyps(1) [OF _ rest]) (use Suc.hyps(2) Suc.prems i e in auto)
  then obtain es where es: "d' = w\<lparr>mdir_ents := Some (take (Suc i) (arr[i := e]) @ es)\<rparr>" "length es = n - Suc i"
      "list_all dirent_ok es" "b2 = concat (map enc_dirent es)" by blast
  have "take (Suc i) (arr[i := e]) = take i arr @ [e]"
    using i Suc.prems(3) by (simp add: take_Suc_conv_app_nth)
  with es e b i show ?case by (intro exI [of _ "e # es"]) auto
qed

lemma exact_dir:
  "exact (\<lambda>v. mdir_ents v = None) (\<lambda>_. True) (deserialize_dir E)
     (\<lambda>x b. dir_ok x \<and> canon_dir x = x \<and> b = enc_dir x) (8 + 6 * 2 ^ 60)"
proof -
  let ?count = "des_next (deserialize_uint64 E) mdir_count (\<lambda>x d. d\<lparr>mdir_count := x\<rparr>)"
  let ?loop = "\<lambda>d1. des_fields (map (dir_step E) [0..<unat (mdir_count d1)])"
  let ?alloc = "\<lambda>d1. if mdir_ents d1 = None
      then d1\<lparr>mdir_ents := Some (replicate (unat (mdir_count d1)) zero_dirent)\<rparr> else d1"
  have run: "\<exists>u d1. ?count buf nbytes (0, v, err) = Some (u, d1, 0) \<and>
      (nbytes < u \<and> m = u \<or>
       u \<le> nbytes \<and> (mdir_ents d1 = None \<longrightarrow> calloc_ok E (mdir_count d1) sizeof_dirent) \<and>
         ?loop d1 buf nbytes (u, ?alloc d1, 0) = Some (m, x, 0))"
    if r: "deserialize_dir E buf nbytes v err = Some (m, x, 0)" for buf nbytes v err m x
  proof -
    from r obtain u d1 e1 where c: "?count buf nbytes (0, v, err) = Some (u, d1, e1)"
      and rest: "(if e1 \<noteq> 0 \<or> nbytes < u then Some (u, d1, e1)
        else if mdir_ents d1 = None \<and> \<not> calloc_ok E (mdir_count d1) sizeof_dirent then Some (0, d1, 1)
        else ?loop d1 buf nbytes (u, ?alloc d1, e1)) = Some (m, x, 0)"
      by (auto simp: deserialize_dir_def bind_Some_iff Let_def cong: if_cong)
    then have "e1 = 0" by (auto split: if_splits)
    with c rest show ?thesis by (auto simp: not_less split: if_splits)
  qed
  show ?thesis
  proof (rule exactI)
    fix buf nbytes v err m x assume "deserialize_dir E buf nbytes v err = Some (m, x, 0)"
    from run [OF this] show "err = 0" by (blast elim: count_field)
  next
    fix buf nbytes v m x
    assume r: "deserialize_dir E buf nbytes v 0 = Some (m, x, 0)" and n: "unat nbytes \<le> length buf"
      and k: "unat nbytes + (8 + 6 * 2 ^ 60) < 2 ^ 64" and v: "mdir_ents v = None"
    from run [OF r] obtain u d1 where c: "?count buf nbytes (0, v, 0) = Some (u, d1, 0)"
      and r: "nbytes < u \<and> m = u \<or>
       u \<le> nbytes \<and> (mdir_ents d1 = None \<longrightarrow> calloc_ok E (mdir_count d1) sizeof_dirent) \<and>
         ?loop d1 buf nbytes (u, ?alloc d1, 0) = Some (m, x, 0)" by (elim exE conjE) (erule that)
    obtain w where w: "d1 = v\<lparr>mdir_count := w\<rparr>" "unat u \<le> unat nbytes + 8"
      "unat u \<le> unat nbytes \<Longrightarrow> take (unat u) buf = be64 w"
      by (rule count_field [OF c]) (use n k in auto)
    show "unat m \<le> unat nbytes + (8 + 6 * 2 ^ 60) \<and>
        (unat m \<le> unat nbytes \<longrightarrow> dir_ok x \<and> canon_dir x = x \<and> take (unat m) buf = enc_dir x)"
      using r
    proof (elim disjE conjE)
      assume "nbytes < u" "m = u"
      then show ?thesis using w(2) by (simp add: word_less_nat_alt)
    next
      assume u: "u \<le> nbytes" and al: "mdir_ents d1 = None \<longrightarrow> calloc_ok E (mdir_count d1) sizeof_dirent"
        and l: "?loop d1 buf nbytes (u, ?alloc d1, 0) = Some (m, x, 0)"
      have "calloc_ok E w sizeof_dirent" using al w(1) v by simp
      then have "int (unat w) * 16 < 2 ^ 64" by (simp add: calloc_ok_def sizeof_dirent_def)
      then have "int (unat w) * 16 < 18446744073709551616" by (simp only: power_numeral_reduce) simp
      moreover have "int (2 ^ 60) = 1152921504606846976" by simp
      ultimately have "int (unat w) \<le> int (2 ^ 60)" by linarith
      then have cnt: "unat w \<le> 2 ^ 60" by (simp only: of_nat_le_iff)
      have u': "unat u \<le> unat nbytes" using u by (simp add: word_le_nat_alt)
      have "max (unat u) (unat nbytes) + 6 * unat w < 2 ^ 64" using u' k cnt by simp
      then have g: "grows (6 * unat w) nbytes u m"
        and s: "unat m \<le> unat nbytes \<longrightarrow> seqs (map entry_read [0..<unat w]) (?alloc d1) x (added buf u m)"
        using steps_entries [unfolded steps_def, rule_format, OF l] n w(1) by simp_all
      show ?thesis
      proof (intro conjI impI)
        show "unat m \<le> unat nbytes + (8 + 6 * 2 ^ 60)" using g u' cnt by (simp add: grows_def)
        assume m: "unat m \<le> unat nbytes"
        then have um: "unat u \<le> unat m" using g by (simp add: grows_def)
        from s m have "seqs (map entry_read [0..<unat w]) (?alloc d1) x (added buf u m)" by blast
        from entries_read [OF this] w(1) v obtain es where es: "x = \<lparr>mdir_count = w, mdir_ents = Some es\<rparr>"
          "length es = unat w" "list_all dirent_ok es" "added buf u m = concat (map enc_dirent es)"
          by (cases v) auto
        have "take (unat m) buf = be64 w @ concat (map enc_dirent es)"
          using take_added [OF um, of buf] w(3) u' es(4) by simp
        with es show "dir_ok x" "canon_dir x = x" "take (unat m) buf = enc_dir x"
          by (simp_all add: dir_ok_def dir_entries_def canon_dir_def enc_dir_def)
      qed
    qed
  qed
qed

section \<open>Requests\<close>

lemma steps_mono: "steps g R k \<Longrightarrow> k \<le> k' \<Longrightarrow> steps g R k'"
  unfolding steps_def grows_def by (meson add_le_mono le_less_trans order_refl order_trans)

lemma steps_if:
  assumes "steps g R k" "steps (des_fields gs) (seqs Rs) ks"
  shows "steps (des_fields ((if c then [g] else []) @ gs)) (seqs ((if c then [R] else []) @ Rs)) (k + ks)"
  using steps_Cons [OF assms] steps_mono [OF assms(2)]
  by (simp del: des_fields.simps seqs.simps)

text \<open>The statements for the fields every request has, and for those of its type.\<close>

definition shared_read :: "(middfs_request \<Rightarrow> middfs_request \<Rightarrow> byte list \<Rightarrow> bool) list" where
  "shared_read =
     [\<lambda>v v' b. \<exists>x. v' = v\<lparr>mreq_type := mreq_of_code x\<rparr> \<and> b = be32 x,
      \<lambda>v v' b. \<exists>x. v' = v\<lparr>mreq_requester := x\<rparr> \<and> cstr_ok x \<and> b = cstr_bytes x,
      \<lambda>v v' b. \<exists>x. v' = v\<lparr>mreq_rsrc := x\<rparr> \<and> rsrc_ok x \<and> b = enc_rsrc x]"

lemma steps_shared: "steps (des_fields (request_shared E)) (seqs shared_read) 10"
  unfolding request_shared_def shared_read_def
  using steps_Cons [OF steps_next [OF exact_uint32] steps_Cons [OF steps_next [OF exact_str]
      steps_Cons [OF steps_next [OF exact_rsrc] steps_Nil]]]
  by (simp del: des_fields.simps seqs.simps)

definition specific_read ::
    "middfs_request_type \<Rightarrow> (middfs_request \<Rightarrow> middfs_request \<Rightarrow> byte list \<Rightarrow> bool) list" where
  "specific_read t =
     (if req_has_mode t then [\<lambda>v v' b. \<exists>x. v' = v\<lparr>mreq_mode := x\<rparr> \<and> b = be32 x] else [])
     @ (if req_has_size t then [\<lambda>v v' b. \<exists>x. v' = v\<lparr>mreq_size := x\<rparr> \<and> b = be64 x] else [])
     @ (if req_has_to t then [\<lambda>v v' b. \<exists>x. v' = v\<lparr>mreq_to := x\<rparr> \<and> rsrc_ok x \<and> b = enc_rsrc x] else [])
     @ (if req_has_off t then [\<lambda>v v' b. \<exists>x. v' = v\<lparr>mreq_off := x\<rparr> \<and> b = be64 x] else [])"

lemma steps_specific: "steps (des_fields (request_specific E t)) (seqs (specific_read t)) 24"
  using steps_if [OF steps_next [OF exact_int32] steps_if [OF steps_next [OF exact_uint64]
      steps_if [OF steps_next [OF exact_rsrc] steps_if [OF steps_next [OF exact_uint64] steps_Nil]]]]
  unfolding request_specific_def specific_read_def
  by (simp only: append_Nil2 numeral_plus_numeral add_num_simps add_0_right)

lemma shared_result:
  assumes "seqs shared_read v v' b"
  shows "v' = v\<lparr>mreq_type := mreq_type v', mreq_requester := mreq_requester v', mreq_rsrc := mreq_rsrc v'\<rparr>"
    "b = concat (request_shared_bytes v')" "mreq_ok (mreq_type v')" "cstr_ok (mreq_requester v')"
    "rsrc_ok (mreq_rsrc v')"
  using assms by (auto simp: shared_read_def request_shared_bytes_def)

lemma specific_result:
  assumes "seqs (specific_read (mreq_type v)) v v' b"
  shows "v' = v\<lparr>mreq_mode := if req_has_mode (mreq_type v) then mreq_mode v' else mreq_mode v,
      mreq_size := if req_has_size (mreq_type v) then mreq_size v' else mreq_size v,
      mreq_to := if req_has_to (mreq_type v) then mreq_to v' else mreq_to v,
      mreq_off := if req_has_off (mreq_type v) then mreq_off v' else mreq_off v\<rparr>"
    "b = concat (request_specific_bytes v')" "req_has_to (mreq_type v) \<longrightarrow> rsrc_ok (mreq_to v')"
proof -
  let ?t = "mreq_type v"
  from assms obtain w1 w2 w3 b1 b2 b3 b4
    where w: "if req_has_mode ?t then \<exists>x. w1 = v\<lparr>mreq_mode := x\<rparr> \<and> b1 = be32 x else w1 = v \<and> b1 = []"
      "if req_has_size ?t then \<exists>x. w2 = w1\<lparr>mreq_size := x\<rparr> \<and> b2 = be64 x else w2 = w1 \<and> b2 = []"
      "if req_has_to ?t then \<exists>x. w3 = w2\<lparr>mreq_to := x\<rparr> \<and> rsrc_ok x \<and> b3 = enc_rsrc x else w3 = w2 \<and> b3 = []"
      "if req_has_off ?t then \<exists>x. v' = w3\<lparr>mreq_off := x\<rparr> \<and> b4 = be64 x else v' = w3 \<and> b4 = []"
      and b: "b = b1 @ b2 @ b3 @ b4"
    unfolding specific_read_def seqs_append seqs_if
    by (elim exE conjE) (rule that, assumption+, simp)
  from w(1) obtain mo where 1: "w1 = v\<lparr>mreq_mode := mo\<rparr>" "\<not> req_has_mode ?t \<longrightarrow> mo = mreq_mode v"
    "b1 = (if req_has_mode ?t then be32 mo else [])"
    by (cases "req_has_mode ?t") auto
  from w(2) obtain si where 2: "w2 = w1\<lparr>mreq_size := si\<rparr>" "\<not> req_has_size ?t \<longrightarrow> si = mreq_size w1"
    "b2 = (if req_has_size ?t then be64 si else [])"
    by (cases "req_has_size ?t") auto
  from w(3) obtain to where 3: "w3 = w2\<lparr>mreq_to := to\<rparr>" "\<not> req_has_to ?t \<longrightarrow> to = mreq_to w2"
    "req_has_to ?t \<longrightarrow> rsrc_ok to" "b3 = (if req_has_to ?t then enc_rsrc to else [])"
    by (cases "req_has_to ?t") auto
  from w(4) obtain off where 4: "v' = w3\<lparr>mreq_off := off\<rparr>" "\<not> req_has_off ?t \<longrightarrow> off = mreq_off w3"
    "b4 = (if req_has_off ?t then be64 off else [])"
    by (cases "req_has_off ?t") auto
  have v': "v' = v\<lparr>mreq_mode := mo, mreq_size := si, mreq_to := to, mreq_off := off\<rparr>"
    by (simp add: 1(1) 2(1) 3(1) 4(1))
  have ifs: "(if req_has_mode ?t then mo else mreq_mode v) = mo"
    "(if req_has_size ?t then si else mreq_size v) = si" "(if req_has_to ?t then to else mreq_to v) = to"
    "(if req_has_off ?t then off else mreq_off v) = off"
    using 1(1,2) 2(1,2) 3(1,2) 4(1,2) by auto
  show "v' = v\<lparr>mreq_mode := if req_has_mode ?t then mreq_mode v' else mreq_mode v,
      mreq_size := if req_has_size ?t then mreq_size v' else mreq_size v,
      mreq_to := if req_has_to ?t then mreq_to v' else mreq_to v,
      mreq_off := if req_has_off ?t then mreq_off v' else mreq_off v\<rparr>"
    using ifs by (cases v) (auto simp: v')
  show "req_has_to ?t \<longrightarrow> rsrc_ok (mreq_to v')" using 3(3) by (simp add: v')
  show "b = concat (request_specific_bytes v')"
    unfolding b 1(3) 2(3) 3(4) 4(3) by (simp add: v' request_specific_bytes_def Let_def)
qed

text \<open>Sizes and offsets that \<open>serialize_request\<close> does not cut.\<close>

definition sizes_int32 :: "middfs_request \<Rightarrow> bool" where
  "sizes_int32 r \<longleftrightarrow>
     (req_has_size (mreq_type r) \<longrightarrow> unat (mreq_size r) < 2 ^ 31) \<and>
     (req_has_off (mreq_type r) \<longrightarrow> unat (mreq_off r) < 2 ^ 31)"

lemma request_run:
  assumes "deserialize_request E buf nbytes v err = Some (m, x, 0)"
  obtains u1 r1 where "err = 0" "des_fields (request_shared E) buf nbytes (0, v, 0) = Some (u1, r1, 0)"
    "nbytes < u1 \<and> m = u1 \<or>
     (\<exists>u2 r2. u1 \<le> nbytes \<and>
        des_fields (request_specific E (mreq_type r1)) buf nbytes (u1, r1, 0) = Some (u2, r2, 0) \<and>
        (nbytes < u2 \<and> m = u2 \<or>
         u2 \<le> nbytes \<and> \<not> req_has_data (mreq_type r1) \<and> m = u2 \<and> x = r2 \<or>
         u2 \<le> nbytes \<and> req_has_data (mreq_type r1) \<and> m = u2 + mreq_size r2 \<and>
           (sizerem nbytes u2 < mreq_size r2 \<and> x = r2 \<or>
            mreq_size r2 \<le> sizerem nbytes u2 \<and> unat (mreq_size r2) \<le> length (drop (unat u2) buf) \<and>
            x = r2\<lparr>mreq_data := Some (take (unat (mreq_size r2)) (drop (unat u2) buf))\<rparr>)))"
proof -
  have err: "err = 0" using assms by (auto simp: deserialize_request_def split: if_splits)
  with assms obtain u1 r1 e1 where s1: "des_fields (request_shared E) buf nbytes (0, v, 0) = Some (u1, r1, e1)"
    and rest1: "(if nbytes < u1 then Some (u1, r1, e1)
      else do {
        s2 \<leftarrow> des_fields (request_specific E (mreq_type r1)) buf nbytes (u1, r1, e1);
        if nbytes < fst s2 then Some s2
        else if req_has_data (mreq_type r1) then deserialize_req_data E buf nbytes s2
        else Some (des_result s2) }) = Some (m, x, 0)"
    by (auto simp: deserialize_request_def bind_Some_iff Let_def cong: if_cong)
  show thesis
  proof (cases "nbytes < u1")
    case True
    with rest1 s1 err show ?thesis by (intro that [of u1 r1]) auto
  next
    case False
    with rest1 obtain u2 r2 e2 where
      s2: "des_fields (request_specific E (mreq_type r1)) buf nbytes (u1, r1, e1) = Some (u2, r2, e2)"
      and rest2: "(if nbytes < u2 then Some (u2, r2, e2)
        else if req_has_data (mreq_type r1) then deserialize_req_data E buf nbytes (u2, r2, e2)
        else Some (des_result (u2, r2, e2))) = Some (m, x, 0)"
      by (auto simp: bind_Some_iff cong: if_cong)
    have tail: "e2 = 0 \<and>
        (nbytes < u2 \<and> m = u2 \<or>
         u2 \<le> nbytes \<and> \<not> req_has_data (mreq_type r1) \<and> m = u2 \<and> x = r2 \<or>
         u2 \<le> nbytes \<and> req_has_data (mreq_type r1) \<and> m = u2 + mreq_size r2 \<and>
           (sizerem nbytes u2 < mreq_size r2 \<and> x = r2 \<or>
            mreq_size r2 \<le> sizerem nbytes u2 \<and> unat (mreq_size r2) \<le> length (drop (unat u2) buf) \<and>
            x = r2\<lparr>mreq_data := Some (take (unat (mreq_size r2)) (drop (unat u2) buf))\<rparr>))"
      using rest2
      by (auto simp: des_result_def deserialize_req_data_def memdup_def mem_read_def bind_Some_iff
          not_le not_less split: if_splits option.splits)
    then have "e1 = 0" using steps_specific [unfolded steps_def, rule_format, OF s2 [unfolded conjunct1 [OF tail]]] by simp
    with tail s2 s1 False err show ?thesis by (intro that [of u1 r1]) (auto simp: not_less)
  qed
qed

text \<open>What the statements before the data make of a request that was zero.\<close>

lemma request_head:
  assumes "seqs shared_read zero_request r1 b1" "seqs (specific_read (mreq_type r1)) r1 r2 b2"
  shows "mreq_type r2 = mreq_type r1" "mreq_data r2 = None"
    "concat (request_shared_bytes r2) @ concat (request_specific_bytes r2) = b1 @ b2"
    "req_has_data (mreq_type r2) \<longrightarrow> block_ok (mreq_size r2) d \<Longrightarrow> sizes_int32 r2 \<Longrightarrow>
       request_ok (r2\<lparr>mreq_data := d\<rparr>)"
    "canon_request (r2\<lparr>mreq_data := d\<rparr>) = r2\<lparr>mreq_data := if req_has_data (mreq_type r2)
       then Some (block_bytes (mreq_size r2) d) else None\<rparr>"
proof -
  note 1 = shared_result [OF assms(1)] and 2 = specific_result [OF assms(2)]
  have type: "mreq_type r2 = mreq_type r1" by (subst 2(1)) simp
  have same: "mreq_requester r2 = mreq_requester r1" "mreq_rsrc r2 = mreq_rsrc r1" "mreq_data r2 = mreq_data r1"
    by (subst 2(1), simp)+
  have "mreq_data r1 = None" by (subst 1(1)) (simp add: zero_request_def)
  with same show none: "mreq_data r2 = None" by simp
  show "mreq_type r2 = mreq_type r1" by (rule type)
  show "concat (request_shared_bytes r2) @ concat (request_specific_bytes r2) = b1 @ b2"
    using 1(2) 2(2) type same by (simp add: request_shared_bytes_def)
  show "request_ok (r2\<lparr>mreq_data := d\<rparr>)"
    if "req_has_data (mreq_type r2) \<longrightarrow> block_ok (mreq_size r2) d" "sizes_int32 r2"
    using that 1(3-5) 2(3) type same by (simp add: request_ok_def sizes_int32_def Let_def)
  have z: "mreq_mode r1 = 0" "mreq_size r1 = 0" "mreq_to r1 = zero_rsrc" "mreq_off r1 = 0"
    by (subst 1(1), simp add: zero_request_def)+
  have "\<not> req_has_mode (mreq_type r1) \<longrightarrow> mreq_mode r2 = 0" "\<not> req_has_size (mreq_type r1) \<longrightarrow> mreq_size r2 = 0"
    "\<not> req_has_to (mreq_type r1) \<longrightarrow> mreq_to r2 = zero_rsrc" "\<not> req_has_off (mreq_type r1) \<longrightarrow> mreq_off r2 = 0"
    by (subst 2(1), simp add: z)+
  then show "canon_request (r2\<lparr>mreq_data := d\<rparr>) = r2\<lparr>mreq_data := if req_has_data (mreq_type r2)
       then Some (block_bytes (mreq_size r2) d) else None\<rparr>"
    using none type by (cases r2) (auto simp: canon_request_def Let_def)
qed

lemma exact_request:
  "exact (\<lambda>v. v = zero_request) sizes_int32 (deserialize_request E)
     (\<lambda>x b. request_ok x \<and> canon_request x = x \<and> b = enc_request x) (2 ^ 32)"
proof (rule exactI)
  fix buf nbytes v err m x
  assume "deserialize_request E buf nbytes v err = Some (m, x, 0)"
  then show "err = 0" by (rule request_run)
next
  fix buf nbytes v m x
  assume run: "deserialize_request E buf nbytes v 0 = Some (m, x, 0)" and n: "unat nbytes \<le> length buf"
    and k: "unat nbytes + 2 ^ 32 < 2 ^ 64" and v: "v = zero_request" and small: "sizes_int32 x"
  obtain u1 r1 where s1: "des_fields (request_shared E) buf nbytes (0, v, 0) = Some (u1, r1, 0)"
    and c1: "nbytes < u1 \<and> m = u1 \<or>
     (\<exists>u2 r2. u1 \<le> nbytes \<and>
        des_fields (request_specific E (mreq_type r1)) buf nbytes (u1, r1, 0) = Some (u2, r2, 0) \<and>
        (nbytes < u2 \<and> m = u2 \<or>
         u2 \<le> nbytes \<and> \<not> req_has_data (mreq_type r1) \<and> m = u2 \<and> x = r2 \<or>
         u2 \<le> nbytes \<and> req_has_data (mreq_type r1) \<and> m = u2 + mreq_size r2 \<and>
           (sizerem nbytes u2 < mreq_size r2 \<and> x = r2 \<or>
            mreq_size r2 \<le> sizerem nbytes u2 \<and> unat (mreq_size r2) \<le> length (drop (unat u2) buf) \<and>
            x = r2\<lparr>mreq_data := Some (take (unat (mreq_size r2)) (drop (unat u2) buf))\<rparr>)))"
    by (rule request_run [OF run])
  have g1: "unat u1 \<le> unat nbytes + 10"
    and q1: "unat u1 \<le> unat nbytes \<Longrightarrow> seqs shared_read v r1 (take (unat u1) buf)"
    using steps_shared [unfolded steps_def, rule_format, OF s1] n k by (auto simp: grows_def)
  show "unat m \<le> unat nbytes + 2 ^ 32 \<and>
      (unat m \<le> unat nbytes \<longrightarrow> request_ok x \<and> canon_request x = x \<and> take (unat m) buf = enc_request x)"
    (is "?goal")
  proof (cases "nbytes < u1")
    case True
    then show ?goal using g1 c1 by (auto simp: word_less_nat_alt word_le_nat_alt)
  next
    case False
    with c1 obtain u2 r2 where u1: "u1 \<le> nbytes"
      and s2: "des_fields (request_specific E (mreq_type r1)) buf nbytes (u1, r1, 0) = Some (u2, r2, 0)"
      and c2: "nbytes < u2 \<and> m = u2 \<or>
         u2 \<le> nbytes \<and> \<not> req_has_data (mreq_type r1) \<and> m = u2 \<and> x = r2 \<or>
         u2 \<le> nbytes \<and> req_has_data (mreq_type r1) \<and> m = u2 + mreq_size r2 \<and>
           (sizerem nbytes u2 < mreq_size r2 \<and> x = r2 \<or>
            mreq_size r2 \<le> sizerem nbytes u2 \<and> unat (mreq_size r2) \<le> length (drop (unat u2) buf) \<and>
            x = r2\<lparr>mreq_data := Some (take (unat (mreq_size r2)) (drop (unat u2) buf))\<rparr>)"
      by (elim disjE exE conjE) (simp, (erule that, assumption, blast)+)
    have g2: "grows 24 nbytes u1 u2"
      and q2: "unat u2 \<le> unat nbytes \<Longrightarrow> seqs (specific_read (mreq_type r1)) r1 r2 (added buf u1 u2)"
      using steps_specific [unfolded steps_def, rule_format, OF s2] n k g1 by auto
    have u1': "unat u1 \<le> unat nbytes" using u1 by (simp add: word_le_nat_alt)
    have u2: "unat u2 \<le> unat nbytes + 24" using g2 u1' by (simp add: grows_def)
    have head: "seqs shared_read zero_request r1 (take (unat u1) buf)" using q1 u1' v by simp
    have le12: "u2 \<le> nbytes \<Longrightarrow> unat u1 \<le> unat u2" using g2 by (simp add: grows_def word_le_nat_alt)
    note h = request_head [OF head q2]
    have bytes: "concat (request_shared_bytes r2) @ concat (request_specific_bytes r2) = take (unat u2) buf"
      if "u2 \<le> nbytes"
      using h(3) that take_added [OF le12, of buf] by (simp add: word_le_nat_alt)
    from c2 show ?goal
    proof (elim disjE conjE)
      assume "nbytes < u2" "m = u2"
      then show ?goal using u2 by (simp add: word_less_nat_alt)
    next
      assume a: "u2 \<le> nbytes" "\<not> req_has_data (mreq_type r1)" "m = u2" "x = r2"
      have i: "unat u2 \<le> unat nbytes" using a(1) by (simp add: word_le_nat_alt)
      have "r2\<lparr>mreq_data := None\<rparr> = r2" using h(2) [OF i] by (cases r2) simp
      then have "request_ok x" "canon_request x = x"
        using h(4) [OF i, of None] h(5) [OF i, of None] h(1) [OF i] a small by simp_all
      moreover have "enc_request x = take (unat m) buf"
        using bytes [OF a(1)] a h(1) [OF i] by (simp add: enc_request_split request_data_bytes_def)
      ultimately show ?goal using i a(3) by simp
    next
      assume a: "u2 \<le> nbytes" "req_has_data (mreq_type r1)" "m = u2 + mreq_size r2"
        "sizerem nbytes u2 < mreq_size r2" "x = r2"
      have i: "unat u2 \<le> unat nbytes" using a(1) by (simp add: word_le_nat_alt)
      have sz: "unat (mreq_size r2) < 2 ^ 31"
        using small a(2,5) h(1) [OF i] req_has_data_size by (simp add: sizes_int32_def)
      have "unat m = unat u2 + unat (mreq_size r2)"
        unfolding a(3) using sz i k by (intro unat_add_u64) simp
      moreover have "unat nbytes < unat u2 + unat (mreq_size r2)"
        using a(4) by (simp add: word_less_nat_alt less_diff_conv2 [OF i] add.commute)
      ultimately show ?goal using sz i by simp
    next
      let ?bs = "take (unat (mreq_size r2)) (drop (unat u2) buf)"
      assume a: "u2 \<le> nbytes" "req_has_data (mreq_type r1)" "m = u2 + mreq_size r2"
        "mreq_size r2 \<le> sizerem nbytes u2" "unat (mreq_size r2) \<le> length (drop (unat u2) buf)"
        "x = r2\<lparr>mreq_data := Some ?bs\<rparr>"
      have i: "unat u2 \<le> unat nbytes" using a(1) by (simp add: word_le_nat_alt)
      have has: "req_has_data (mreq_type r2)" using a(2) h(1) [OF i] by simp
      have "unat (mreq_size r2) \<le> unat nbytes - unat u2" using a(4) by (simp add: word_le_nat_alt)
      then have le: "unat u2 + unat (mreq_size r2) \<le> unat nbytes" using i by simp
      then have m: "unat m = unat u2 + unat (mreq_size r2)"
        unfolding a(3) using k by (intro unat_add_u64) simp
      have ok: "request_ok x"
        unfolding a(6) using small a(5,6)
        by (intro h(4) [OF i]) (simp_all add: block_ok_def sizes_int32_def)
      have bb: "block_bytes (mreq_size r2) (Some ?bs) = ?bs" by (simp add: block_bytes_def)
      then have canon: "canon_request x = x" unfolding a(6) using h(5) [OF i, of "Some ?bs"] has by simp
      have shared: "request_shared_bytes x = request_shared_bytes r2"
        "request_specific_bytes x = request_specific_bytes r2"
        by (simp_all add: a(6) request_shared_bytes_def request_specific_bytes_def Let_def)
      have "added buf u2 m = ?bs" by (simp add: added_def m)
      then have "take (unat m) buf = take (unat u2) buf @ ?bs" using take_added [of u2 m buf] m by simp
      also have "\<dots> = enc_request x"
        unfolding enc_request_split shared using bytes [OF a(1)] has bb
        by (simp add: request_data_bytes_def a(6))
      finally show ?goal using ok canon m le by simp
    qed
  qed
qed

section \<open>Responses and packets\<close>

text \<open>Counts that do not make the number of bytes wrap.\<close>

definition response_small :: "middfs_response \<Rightarrow> bool" where
  "response_small r \<longleftrightarrow>
     (mrsp_type r = MRSP_DATA \<longrightarrow> unat (mdata_nbytes (old_data (mrsp_un r))) < wire_max)"

lemma next_exact:
  assumes "des_next f get put buf nbytes (used, v, err) = Some (used', v', 0)" "exact I K f R k"
  obtains x where "err = 0" "v' = put x v"
    "unat nbytes \<le> length buf \<Longrightarrow> max (unat used) (unat nbytes) + k < 2 ^ 64 \<Longrightarrow> I (get v) \<Longrightarrow> K x \<Longrightarrow>
       grows k nbytes used used' \<and> (unat used' \<le> unat nbytes \<longrightarrow> R x (added buf used used'))"
proof -
  from assms(1) obtain m x where "f (drop (unat used) buf) (sizerem nbytes used) (get v) err = Some (m, x, 0)"
    "used' = used + m" "v' = put x v"
    by (auto simp: des_next_def bind_Some_iff)
  with exact_rest [OF assms(2) this(1)] show thesis by (intro that) auto
qed

text \<open>The statement that reads what follows the type of a response.\<close>

definition rsp_tail :: "cenv \<Rightarrow> middfs_response_type \<Rightarrow> middfs_response dfield option" where
  "rsp_tail E t =
     (case t of
        MRSP_OK \<Rightarrow> Some (\<lambda>buf nbytes s. Some s)
      | MRSP_DATA \<Rightarrow> Some (des_next (deserialize_data E) (\<lambda>r. old_data (mrsp_un r)) (\<lambda>x r. r\<lparr>mrsp_un := Rsp_data x\<rparr>))
      | MRSP_STAT \<Rightarrow> Some (des_next (deserialize_stat E) (\<lambda>r. old_stat (mrsp_un r)) (\<lambda>x r. r\<lparr>mrsp_un := Rsp_stat x\<rparr>))
      | MRSP_DIR \<Rightarrow> Some (des_next (deserialize_dir E) (\<lambda>r. old_dir (mrsp_un r)) (\<lambda>x r. r\<lparr>mrsp_un := Rsp_dir x\<rparr>))
      | MRSP_ERROR \<Rightarrow> Some (des_next deserialize_int32 (\<lambda>r. old_error (mrsp_un r)) (\<lambda>x r. r\<lparr>mrsp_un := Rsp_error x\<rparr>))
      | MRSP_OTHER _ \<Rightarrow> None)"

lemma grows_mono: "grows k nbytes used used' \<Longrightarrow> k \<le> k' \<Longrightarrow> grows k' nbytes used used'"
  by (auto simp: grows_def)

lemma rsp_tail_exact:
  assumes "rsp_tail E t = Some g" "g buf nbytes (used, v, err) = Some (used', x, 0)"
  shows "err = 0"
    "v = zero_response\<lparr>mrsp_type := t\<rparr> \<Longrightarrow> unat nbytes \<le> length buf \<Longrightarrow>
     max (unat used) (unat nbytes) + 2 ^ 63 < 2 ^ 64 \<Longrightarrow> response_small x \<Longrightarrow>
     grows (2 ^ 63) nbytes used used' \<and> (unat used' \<le> unat nbytes \<longrightarrow>
       response_ok x \<and> canon_response x = x \<and> mrsp_type x = t \<and> rsp_body x = added buf used used')"
proof -
  let ?goal = "grows (2 ^ 63) nbytes used used' \<and> (unat used' \<le> unat nbytes \<longrightarrow>
       response_ok x \<and> canon_response x = x \<and> mrsp_type x = t \<and> rsp_body x = added buf used used')"
  have "err = 0 \<and> (v = zero_response\<lparr>mrsp_type := t\<rparr> \<longrightarrow> unat nbytes \<le> length buf \<longrightarrow>
     max (unat used) (unat nbytes) + 2 ^ 63 < 2 ^ 64 \<longrightarrow> response_small x \<longrightarrow> ?goal)"
  proof (cases t)
    case MRSP_OK
    with assms show ?thesis
      by (auto simp: rsp_tail_def grows_def added_def response_ok_def canon_response_def rsp_body_def
          zero_response_def)
  next
    case MRSP_DATA
    then have "des_next (deserialize_data E) (\<lambda>r. old_data (mrsp_un r)) (\<lambda>x r. r\<lparr>mrsp_un := Rsp_data x\<rparr>)
        buf nbytes (used, v, err) = Some (used', x, 0)" using assms by (simp add: rsp_tail_def)
    then show ?thesis
    proof (rule next_exact [OF _ exact_data], goal_cases)
      case (1 d)
      show ?case
      proof (intro conjI [OF 1(1)] impI)
        assume h: "v = zero_response\<lparr>mrsp_type := t\<rparr>" "unat nbytes \<le> length buf"
          "max (unat used) (unat nbytes) + 2 ^ 63 < 2 ^ 64" "response_small x"
        have "unat (mdata_nbytes d) < wire_max"
          using h(1,4) 1(2) MRSP_DATA by (simp add: response_small_def old_data_def get_data_def)
        with 1(3) h have "grows (8 + wire_max) nbytes used used' \<and>
            (unat used' \<le> unat nbytes \<longrightarrow> data_ok d \<and> canon_data d = d \<and> added buf used used' = enc_data d)"
          by (simp add: zero_response_def old_data_def get_data_def zero_data_def)
        then show ?goal
          using h(1) 1(2) MRSP_DATA
          by (auto elim!: grows_mono simp: response_ok_def canon_response_def rsp_body_def old_data_def
              get_data_def zero_response_def)
      qed
    qed
  next
    case MRSP_STAT
    then have "des_next (deserialize_stat E) (\<lambda>r. old_stat (mrsp_un r)) (\<lambda>x r. r\<lparr>mrsp_un := Rsp_stat x\<rparr>)
        buf nbytes (used, v, err) = Some (used', x, 0)" using assms by (simp add: rsp_tail_def)
    then show ?thesis
      by (rule next_exact [OF _ exact_stat])
        (auto elim!: grows_mono simp: response_ok_def canon_response_def rsp_body_def old_stat_def
          get_stat_def zero_response_def MRSP_STAT)
  next
    case MRSP_DIR
    then have "des_next (deserialize_dir E) (\<lambda>r. old_dir (mrsp_un r)) (\<lambda>x r. r\<lparr>mrsp_un := Rsp_dir x\<rparr>)
        buf nbytes (used, v, err) = Some (used', x, 0)" using assms by (simp add: rsp_tail_def)
    then show ?thesis
      by (rule next_exact [OF _ exact_dir])
        (auto elim!: grows_mono simp: response_ok_def canon_response_def rsp_body_def old_dir_def
          get_dir_def zero_response_def zero_dir_def MRSP_DIR)
  next
    case MRSP_ERROR
    then have "des_next deserialize_int32 (\<lambda>r. old_error (mrsp_un r)) (\<lambda>x r. r\<lparr>mrsp_un := Rsp_error x\<rparr>)
        buf nbytes (used, v, err) = Some (used', x, 0)" using assms by (simp add: rsp_tail_def)
    then show ?thesis
      by (rule next_exact [OF _ exact_int32])
        (auto elim!: grows_mono simp: response_ok_def canon_response_def rsp_body_def old_error_def
          get_error_def zero_response_def MRSP_ERROR)
  next
    case MRSP_OTHER
    with assms show ?thesis by (simp add: rsp_tail_def)
  qed
  then show "err = 0" and "v = zero_response\<lparr>mrsp_type := t\<rparr> \<Longrightarrow> unat nbytes \<le> length buf \<Longrightarrow>
     max (unat used) (unat nbytes) + 2 ^ 63 < 2 ^ 64 \<Longrightarrow> response_small x \<Longrightarrow> ?goal"
    by blast+
qed

lemma rsp_by_tail:
  "(case t of
      MRSP_OK \<Rightarrow> Some s
    | MRSP_DATA \<Rightarrow> des_next (deserialize_data E) (\<lambda>r. old_data (mrsp_un r)) (\<lambda>x r. r\<lparr>mrsp_un := Rsp_data x\<rparr>) buf nbytes s
    | MRSP_STAT \<Rightarrow> des_next (deserialize_stat E) (\<lambda>r. old_stat (mrsp_un r)) (\<lambda>x r. r\<lparr>mrsp_un := Rsp_stat x\<rparr>) buf nbytes s
    | MRSP_DIR \<Rightarrow> des_next (deserialize_dir E) (\<lambda>r. old_dir (mrsp_un r)) (\<lambda>x r. r\<lparr>mrsp_un := Rsp_dir x\<rparr>) buf nbytes s
    | MRSP_ERROR \<Rightarrow> des_next deserialize_int32 (\<lambda>r. old_error (mrsp_un r)) (\<lambda>x r. r\<lparr>mrsp_un := Rsp_error x\<rparr>) buf nbytes s
    | MRSP_OTHER _ \<Rightarrow> None) = do { g \<leftarrow> rsp_tail E t; g buf nbytes s }"
  by (cases t) (simp_all add: rsp_tail_def)

lemma rsp_run:
  assumes "deserialize_rsp E buf nbytes v err = Some (m, x, 0)"
  obtains u c e where "deserialize_int32 buf nbytes (mrsp_code (mrsp_type v)) err = Some (u, c, e)"
    "nbytes < u \<and> m = u \<and> e = 0 \<or>
     u \<le> nbytes \<and> (\<exists>g. rsp_tail E (mrsp_of_code c) = Some g \<and>
       g buf nbytes (u, v\<lparr>mrsp_type := mrsp_of_code c\<rparr>, e) = Some (m, x, 0))"
proof -
  from assms obtain u c e where i: "deserialize_int32 buf nbytes (mrsp_code (mrsp_type v)) err = Some (u, c, e)"
    and rest: "(if nbytes < u then Some (u, v\<lparr>mrsp_type := mrsp_of_code c\<rparr>, e)
      else do { g \<leftarrow> rsp_tail E (mrsp_of_code c); g buf nbytes (u, v\<lparr>mrsp_type := mrsp_of_code c\<rparr>, e) })
      = Some (m, x, 0)"
    unfolding deserialize_rsp_def rsp_by_tail
    by (auto simp: des_next_def [where f = deserialize_int32] bind_Some_iff cong: if_cong)
  then show thesis by (intro that [OF i]) (auto simp: not_less bind_Some_iff split: if_splits)
qed

lemma exact_rsp:
  "exact (\<lambda>v. v = zero_response) response_small (deserialize_rsp E)
     (\<lambda>x b. response_ok x \<and> canon_response x = x \<and> b = enc_response x) (2 ^ 63 + 4)"
proof -
  have "err = 0 \<and> (unat nbytes \<le> length buf \<longrightarrow> unat nbytes + (2 ^ 63 + 4) < 2 ^ 64 \<longrightarrow> v = zero_response \<longrightarrow>
      response_small x \<longrightarrow> unat m \<le> unat nbytes + (2 ^ 63 + 4) \<and>
        (unat m \<le> unat nbytes \<longrightarrow> response_ok x \<and> canon_response x = x \<and> take (unat m) buf = enc_response x))"
    if run: "deserialize_rsp E buf nbytes v err = Some (m, x, 0)" for buf nbytes v err m x
  proof -
    obtain u c e where i: "deserialize_int32 buf nbytes (mrsp_code (mrsp_type v)) err = Some (u, c, e)"
      and r: "nbytes < u \<and> m = u \<and> e = 0 \<or>
       u \<le> nbytes \<and> (\<exists>g. rsp_tail E (mrsp_of_code c) = Some g \<and>
         g buf nbytes (u, v\<lparr>mrsp_type := mrsp_of_code c\<rparr>, e) = Some (m, x, 0))"
      by (rule rsp_run [OF run])
    have "e = 0" using r rsp_tail_exact(1) by blast
    note i' = exact_int32 [unfolded exact_def, rule_format, OF i [unfolded this]]
    show ?thesis
    proof (intro conjI impI)
      show "err = 0" using i' by simp
      assume n: "unat nbytes \<le> length buf" and k: "unat nbytes + (2 ^ 63 + 4) < 2 ^ 64"
        and v: "v = zero_response" and small: "response_small x"
      have u: "unat u \<le> unat nbytes + 4" "unat u \<le> unat nbytes \<Longrightarrow> take (unat u) buf = be32 c"
        using i' n k by simp_all
      have "unat m \<le> unat nbytes + (2 ^ 63 + 4) \<and>
        (unat m \<le> unat nbytes \<longrightarrow> response_ok x \<and> canon_response x = x \<and> take (unat m) buf = enc_response x)"
        (is "?goal")
        using r
      proof (elim disjE exE conjE)
        assume "nbytes < u" "m = u"
        then show ?goal using u(1) by (simp add: word_less_nat_alt)
      next
        fix g assume u': "u \<le> nbytes" and g: "rsp_tail E (mrsp_of_code c) = Some g"
          "g buf nbytes (u, v\<lparr>mrsp_type := mrsp_of_code c\<rparr>, e) = Some (m, x, 0)"
        have u'': "unat u \<le> unat nbytes" using u' by (simp add: word_le_nat_alt)
        have "max (unat u) (unat nbytes) + 2 ^ 63 < 2 ^ 64" using u'' k by simp
        from rsp_tail_exact(2) [OF g _ n this small] v
        have gr: "grows (2 ^ 63) nbytes u m" and body: "unat m \<le> unat nbytes \<longrightarrow>
            response_ok x \<and> canon_response x = x \<and> mrsp_type x = mrsp_of_code c \<and> rsp_body x = added buf u m"
          by simp_all
        have "unat m \<le> unat nbytes \<Longrightarrow> take (unat m) buf = enc_response x"
          using gr body take_added [of u m buf] u(2) [OF u''] by (simp add: grows_def enc_response_def)
        with gr body u'' show ?goal by (simp add: grows_def)
      qed
      then show "unat m \<le> unat nbytes + (2 ^ 63 + 4)"
        "unat m \<le> unat nbytes \<Longrightarrow> response_ok x" "unat m \<le> unat nbytes \<Longrightarrow> canon_response x = x"
        "unat m \<le> unat nbytes \<Longrightarrow> take (unat m) buf = enc_response x" by blast+
    qed
  qed
  then show ?thesis unfolding exact_def by blast
qed

text \<open>The counts a packet declares are small enough to be sent again, see \<open>request_ok\<close>.\<close>

definition counts_small :: "middfs_packet \<Rightarrow> bool" where
  "counts_small p \<longleftrightarrow>
     (case mpkt_type p of
        MPKT_REQUEST \<Rightarrow> sizes_int32 (old_request (mpkt_un p))
      | MPKT_RESPONSE \<Rightarrow> response_small (old_response (mpkt_un p))
      | _ \<Rightarrow> True)"

lemma pkt_header:
  assumes "des_fields
      [des_next deserialize_uint32 mpkt_magic (\<lambda>x p. p\<lparr>mpkt_magic := x\<rparr>),
       des_next deserialize_uint32 (\<lambda>p. mpkt_code (mpkt_type p)) (\<lambda>x p. p\<lparr>mpkt_type := mpkt_of_code x\<rparr>)]
      buf nbytes (0, p, 0) = Some (u, p1, 0)"
    "unat nbytes \<le> length buf" "unat nbytes < wire_max" "unat u \<le> unat nbytes"
  obtains a b where "p1 = p\<lparr>mpkt_magic := a, mpkt_type := mpkt_of_code b\<rparr>" "take (unat u) buf = be32 a @ be32 b"
proof -
  let ?gs = "[des_next deserialize_uint32 mpkt_magic (\<lambda>x p. p\<lparr>mpkt_magic := x\<rparr>),
       des_next deserialize_uint32 (\<lambda>p. mpkt_code (mpkt_type p)) (\<lambda>x p. p\<lparr>mpkt_type := mpkt_of_code x\<rparr>)]"
  have "steps (des_fields ?gs)
      (seqs [\<lambda>v v' b. \<exists>x. v' = v\<lparr>mpkt_magic := x\<rparr> \<and> b = be32 x,
             \<lambda>v v' b. \<exists>x. v' = v\<lparr>mpkt_type := mpkt_of_code x\<rparr> \<and> b = be32 x]) 8"
    using steps_Cons [OF steps_next [OF exact_uint32] steps_Cons [OF steps_next [OF exact_uint32] steps_Nil]]
    by (simp del: des_fields.simps seqs.simps)
  from this [unfolded steps_def, rule_format, OF assms(1)] assms(2-4) show thesis by (auto intro: that)
qed

lemma received_canonical:
  assumes run: "deserialize_pkt E buf nbytes zero_packet 0 = Some (used, p, 0)"
    and n: "unat nbytes \<le> length buf" "unat nbytes < wire_max" and whole: "used \<le> nbytes"
    and small: "counts_small p"
  shows "pkt_ok p \<and> canon_pkt p = p \<and> enc_pkt p = take (unat used) buf"
proof -
  let ?gs = "[des_next deserialize_uint32 mpkt_magic (\<lambda>x p. p\<lparr>mpkt_magic := x\<rparr>),
       des_next deserialize_uint32 (\<lambda>p. mpkt_code (mpkt_type p)) (\<lambda>x p. p\<lparr>mpkt_type := mpkt_of_code x\<rparr>)]"
  have used: "unat used \<le> unat nbytes" using whole by (simp add: word_le_nat_alt)
  from run obtain u p1 e where h: "des_fields ?gs buf nbytes (0, zero_packet, 0) = Some (u, p1, e)"
    and rest: "(if nbytes < u \<or> e \<noteq> 0 then Some (u, p1, e)
        else map_option des_result
          (case mpkt_type p1 of
             MPKT_REQUEST \<Rightarrow> des_next (deserialize_request E) (\<lambda>p. old_request (mpkt_un p))
                 (\<lambda>x p. p\<lparr>mpkt_un := Pkt_request x\<rparr>) buf nbytes (u, p1, e)
           | MPKT_RESPONSE \<Rightarrow> des_next (deserialize_rsp E) (\<lambda>p. old_response (mpkt_un p))
                 (\<lambda>x p. p\<lparr>mpkt_un := Pkt_response x\<rparr>) buf nbytes (u, p1, e)
           | MPKT_CONNECT \<Rightarrow> des_next (deserialize_connect E) (\<lambda>p. old_connect (mpkt_un p))
                 (\<lambda>x p. p\<lparr>mpkt_un := Pkt_connect x\<rparr>) buf nbytes (u, p1, e)
           | _ \<Rightarrow> Some (u, p1, e))) = Some (used, p, 0)"
    by (auto simp: deserialize_pkt_def bind_Some_iff simp del: des_fields.simps cong: if_cong)
  have e: "e = 0" and u: "u \<le> nbytes" using rest whole by (auto split: if_splits)
  have u': "unat u \<le> unat nbytes" using u by (simp add: word_le_nat_alt)
  obtain a b where p1: "p1 = zero_packet\<lparr>mpkt_magic := a, mpkt_type := mpkt_of_code b\<rparr>"
    and hd: "take (unat u) buf = be32 a @ be32 b"
    by (rule pkt_header [OF h [unfolded e] n u'])
  let ?t = "mpkt_of_code b"
  have bytes: "take (unat used) buf = be32 a @ be32 b @ added buf u used" if "unat u \<le> unat used"
    using take_added [OF that, of buf] hd by simp
  have result: "des_result s = (used, p, 0) \<Longrightarrow> s = (used, p, 0)" for s :: "u64 \<times> middfs_packet \<times> int"
    by (auto simp: des_result_def split: prod.splits if_splits)
  have bound: "max (unat u) (unat nbytes) + (2 ^ 63 + 4) < 2 ^ 64"
    "max (unat u) (unat nbytes) + 2 ^ 32 < 2 ^ 64" "max (unat u) (unat nbytes) + 6 < 2 ^ 64"
    using u' n(2) by simp_all
  have old: "old_request (mpkt_un p1) = zero_request" "old_response (mpkt_un p1) = zero_response"
    "mpkt_type p1 = ?t" "mpkt_un p1 = Pkt_zero"
    by (simp_all add: p1 zero_packet_def old_request_def get_request_def old_response_def get_response_def)
  let ?tail = "case mpkt_type p1 of
             MPKT_REQUEST \<Rightarrow> des_next (deserialize_request E) (\<lambda>p. old_request (mpkt_un p))
                 (\<lambda>x p. p\<lparr>mpkt_un := Pkt_request x\<rparr>) buf nbytes (u, p1, 0)
           | MPKT_RESPONSE \<Rightarrow> des_next (deserialize_rsp E) (\<lambda>p. old_response (mpkt_un p))
                 (\<lambda>x p. p\<lparr>mpkt_un := Pkt_response x\<rparr>) buf nbytes (u, p1, 0)
           | MPKT_CONNECT \<Rightarrow> des_next (deserialize_connect E) (\<lambda>p. old_connect (mpkt_un p))
                 (\<lambda>x p. p\<lparr>mpkt_un := Pkt_connect x\<rparr>) buf nbytes (u, p1, 0)
           | _ \<Rightarrow> Some (u, p1, 0)"
  have "\<not> (nbytes < u \<or> e \<noteq> 0)" using u e by simp
  then have "map_option des_result ?tail = Some (used, p, 0)" using rest unfolding e by (simp only: if_False)
  then have tail: "?tail = Some (used, p, 0)" using result by (cases ?tail) auto
  have main: "mpkt_magic p = a \<and> mpkt_type p = ?t \<and> canon_pkt p = p \<and> pkt_body p = added buf u used \<and>
      unat u \<le> unat used \<and>
      (case ?t of
        MPKT_REQUEST \<Rightarrow> get_request (mpkt_un p) \<noteq> None \<and> request_ok (old_request (mpkt_un p))
      | MPKT_RESPONSE \<Rightarrow> get_response (mpkt_un p) \<noteq> None \<and> response_ok (old_response (mpkt_un p))
      | MPKT_CONNECT \<Rightarrow> get_connect (mpkt_un p) \<noteq> None \<and> connect_ok (old_connect (mpkt_un p))
      | _ \<Rightarrow> True)"
  proof (cases ?t)
    case MPKT_REQUEST
    with tail old(3) have "des_next (deserialize_request E) (\<lambda>p. old_request (mpkt_un p))
        (\<lambda>x p. p\<lparr>mpkt_un := Pkt_request x\<rparr>) buf nbytes (u, p1, 0) = Some (used, p, 0)" by simp
    then show ?thesis
    proof (rule next_exact [OF _ exact_request], goal_cases)
      case (1 r)
      have "sizes_int32 r" using small 1(2) MPKT_REQUEST old(3)
        by (simp add: counts_small_def old_request_def get_request_def)
      with 1(3) n(1) bound(2) old used have "grows (2 ^ 32) nbytes u used" "request_ok r" "canon_request r = r"
        "added buf u used = enc_request r" by simp_all
      with 1(2) MPKT_REQUEST old(3) p1 used show ?case
        by (simp add: grows_def canon_pkt_def pkt_body_def old_request_def get_request_def)
    qed
  next
    case MPKT_RESPONSE
    with tail old(3) have "des_next (deserialize_rsp E) (\<lambda>p. old_response (mpkt_un p))
        (\<lambda>x p. p\<lparr>mpkt_un := Pkt_response x\<rparr>) buf nbytes (u, p1, 0) = Some (used, p, 0)" by simp
    then show ?thesis
    proof (rule next_exact [OF _ exact_rsp], goal_cases)
      case (1 r)
      have "response_small r" using small 1(2) MPKT_RESPONSE old(3)
        by (simp add: counts_small_def old_response_def get_response_def)
      with 1(3) n(1) bound(1) old used have "grows (2 ^ 63 + 4) nbytes u used" "response_ok r"
        "canon_response r = r" "added buf u used = enc_response r" by simp_all
      with 1(2) MPKT_RESPONSE old(3) p1 used show ?case
        by (simp add: grows_def canon_pkt_def pkt_body_def old_response_def get_response_def)
    qed
  next
    case MPKT_CONNECT
    with tail old(3) have "des_next (deserialize_connect E) (\<lambda>p. old_connect (mpkt_un p))
        (\<lambda>x p. p\<lparr>mpkt_un := Pkt_connect x\<rparr>) buf nbytes (u, p1, 0) = Some (used, p, 0)" by simp
    then show ?thesis
    proof (rule next_exact [OF _ exact_connect], goal_cases)
      case (1 c)
      from 1(3) n(1) bound(3) used have "grows 6 nbytes u used" "connect_ok c"
        "added buf u used = enc_connect c" by simp_all
      with 1(2) MPKT_CONNECT old(3) p1 used show ?case
        by (simp add: grows_def canon_pkt_def pkt_body_def old_connect_def get_connect_def)
    qed
  qed (use tail old p1 in \<open>auto simp: canon_pkt_def pkt_body_def added_def\<close>)
  then have "enc_pkt p = take (unat used) buf" using bytes by (simp add: enc_pkt_def)
  moreover from this have "length (enc_pkt p) < wire_max" using used n by simp
  ultimately show ?thesis using main by (auto simp: pkt_ok_def)
qed

end
