(* ===== verification/Middfs_Buf.thy ===== *)
theory Middfs_Buf
  imports Serial_Safety
begin

text \<open>
  The growing byte buffer of \<open>lib/middfs-buf.c\<close>.

  The three pointers of \<open>struct buffer\<close> are the block \<open>begin\<close> points to and the offsets of
  \<open>ptr\<close> and \<open>end\<close> from it, so that \<open>end - begin\<close> and the other differences are the
  subtractions of the code. A null \<open>begin\<close> comes with null \<open>ptr\<close> and \<open>end\<close>, at offset 0.
  A system call is an argument: \<open>read(2)\<close> maps the count it is given to the bytes it stores,
  and \<open>write(2)\<close> the bytes it is given to the number it takes; None stands for -1.
\<close>

section \<open>State\<close>

record buffer =
  buf_begin :: "byte block"
  buf_ptr :: u64
  buf_end :: u64

text \<open>
  \<open>realloc\<close>: the inner None is the null pointer it returns when it cannot serve the request,
  the outer None a use the C library does not define (a freed block, a size of 0). No object
  is larger than \<open>PTRDIFF_MAX\<close>; the allocator fails above it.
\<close>

definition realloc :: "cenv \<Rightarrow> byte block \<Rightarrow> u64 \<Rightarrow> byte block option option" where
  "realloc E b sz = do {
     m \<leftarrow> block_mem b;
     if sz = 0 then None
     else if sz \<le> PTRDIFF_MAX \<and> can_alloc E (unat sz)
     then Some (Some (Live (take (unat sz) m @ map (indet_byte E) [length m..<unat sz])))
     else Some None
   }"

section \<open>Operations\<close>

definition buffer_size :: "buffer \<Rightarrow> u64" where
  "buffer_size buf = buf_end buf"

definition buffer_used :: "buffer \<Rightarrow> u64" where
  "buffer_used buf = buf_ptr buf"

definition buffer_rem :: "buffer \<Rightarrow> u64" where
  "buffer_rem buf = buf_end buf - buf_ptr buf"

definition buffer_resize :: "cenv \<Rightarrow> buffer \<Rightarrow> u64 \<Rightarrow> (int \<times> buffer) option" where
  "buffer_resize E buf newsize = do {
     let used = buffer_used buf;
     newptr \<leftarrow> realloc E (buf_begin buf) newsize;
     Some (case newptr of
             None \<Rightarrow> (- ENOMEM, buf)
           | Some b \<Rightarrow>
               (0, buf\<lparr>buf_begin := b, buf_ptr := smin used newsize, buf_end := newsize\<rparr>))
   }"

definition buffer_empty :: "buffer \<Rightarrow> buffer" where
  "buffer_empty buf = buf\<lparr>buf_ptr := 0\<rparr>"

definition buffer_shift :: "buffer \<Rightarrow> u64 \<Rightarrow> buffer option" where
  "buffer_shift buf shift = do {
     let used = buffer_used buf;
     if shift \<ge> used then Some (buffer_empty buf)
     else do {
       let newused = used - shift;
       m \<leftarrow> block_mem (buf_begin buf);
       src \<leftarrow> mem_read (drop (unat shift) m) (unat newused);
       m' \<leftarrow> mem_write m src;
       Some (buf\<lparr>buf_begin := block_set (buf_begin buf) m', buf_ptr := newused\<rparr>)
     }
   }"

definition buffer_init :: buffer where
  "buffer_init = \<lparr>buf_begin = Null, buf_ptr = 0, buf_end = 0\<rparr>"

definition buffer_increase :: "cenv \<Rightarrow> buffer \<Rightarrow> (int \<times> buffer) option" where
  "buffer_increase E buf =
     (if buffer_rem buf = 0
      then let newsize = smax 1 (buffer_size buf * 2) in buffer_resize E buf newsize
      else Some (0, buf))"

text \<open>\<open>free(begin)\<close>: the pointers keep their values; freeing twice is undefined.\<close>

definition buffer_delete :: "buffer \<Rightarrow> buffer option" where
  "buffer_delete buf =
     (case buf_begin buf of
        Null \<Rightarrow> Some buf
      | Live _ \<Rightarrow> Some (buf\<lparr>buf_begin := Freed\<rparr>)
      | Freed \<Rightarrow> None)"

definition buffer_isempty :: "buffer \<Rightarrow> bool" where
  "buffer_isempty buf \<longleftrightarrow> buffer_used buf = 0"

definition buffer_advance :: "buffer \<Rightarrow> u64 \<Rightarrow> buffer option" where
  "buffer_advance buf nbytes =
     (if buffer_rem buf \<ge> nbytes then Some (buf\<lparr>buf_ptr := buf_ptr buf + nbytes\<rparr>) else None)"

text \<open>Bytes stored at \<open>ptr\<close>.\<close>

definition buffer_store :: "buffer \<Rightarrow> byte list \<Rightarrow> buffer option" where
  "buffer_store buf bs = do {
     m \<leftarrow> block_mem (buf_begin buf);
     m' \<leftarrow> mem_write (drop (unat (buf_ptr buf)) m) bs;
     Some (buf\<lparr>buf_begin := block_set (buf_begin buf) (take (unat (buf_ptr buf)) m @ m')\<rparr>)
   }"

type_synonym sys_read = "u64 \<Rightarrow> byte list option"
type_synonym sys_write = "byte list \<Rightarrow> u64 option"

definition buffer_read :: "cenv \<Rightarrow> sys_read \<Rightarrow> buffer \<Rightarrow> (int \<times> buffer) option" where
  "buffer_read E rd buf = do {
     (r, buf1) \<leftarrow> buffer_increase E buf;
     if r < 0 then Some (-1, buf1)
     else
       (case rd (buffer_rem buf1) of
          None \<Rightarrow> Some (-1, buf1)
        | Some bs \<Rightarrow> do {
            buf2 \<leftarrow> buffer_store buf1 bs;
            buf3 \<leftarrow> buffer_advance buf2 (word_of_nat (length bs));
            Some (int (length bs), buf3)
          })
   }"

definition buffer_write :: "sys_write \<Rightarrow> buffer \<Rightarrow> (int \<times> buffer) option" where
  "buffer_write wr buf = do {
     m \<leftarrow> block_mem (buf_begin buf);
     bs \<leftarrow> mem_read m (unat (buffer_used buf));
     case wr bs of
       None \<Rightarrow> Some (-1, buf)
     | Some n \<Rightarrow> do { buf1 \<leftarrow> buffer_shift buf n; Some (sint n, buf1) }
   }"

definition buffer_copy :: "cenv \<Rightarrow> buffer \<Rightarrow> byte list \<Rightarrow> u64 \<Rightarrow> (int \<times> buffer) option" where
  "buffer_copy E buf inp nbytes = do {
     (r, buf1) \<leftarrow>
       (if buffer_rem buf < nbytes then buffer_resize E buf (buffer_size buf + nbytes)
        else Some (0, buf));
     if r < 0 then Some (-1, buf1)
     else do {
       bs \<leftarrow> mem_read inp (unat nbytes);
       buf2 \<leftarrow> buffer_store buf1 bs;
       buf3 \<leftarrow> buffer_advance buf2 nbytes;
       Some (0, buf3)
     }
   }"

text \<open>\<open>serialf(in, buf->ptr, rem)\<close>.\<close>

definition serialize_at_ptr :: "serializer \<Rightarrow> buffer \<Rightarrow> u64 \<Rightarrow> (u64 \<times> buffer) option" where
  "serialize_at_ptr serialf buf nbytes = do {
     m \<leftarrow> block_mem (buf_begin buf);
     (used, b) \<leftarrow> serialf (drop (unat (buf_ptr buf)) m) nbytes;
     Some (used, buf\<lparr>buf_begin := block_set (buf_begin buf) (take (unat (buf_ptr buf)) m @ b)\<rparr>)
   }"

text \<open>
  The while loop of \<open>buffer_serialize\<close>. Its result is \<open>used\<close> and the buffer when the loop
  ends, or None in the place of \<open>used\<close> when \<open>buffer_resize\<close> fails and the function returns.
\<close>

partial_function (option) serialize_loop ::
    "cenv \<Rightarrow> serializer \<Rightarrow> u64 \<Rightarrow> buffer \<Rightarrow> (u64 option \<times> buffer) option" where
  "serialize_loop E serialf rem buf = do {
     (used, buf1) \<leftarrow> serialize_at_ptr serialf buf rem;
     if used > rem then do {
       (r, buf2) \<leftarrow> buffer_resize E buf1 (buffer_used buf1 + used);
       if r < 0 then Some (None, buf2) else serialize_loop E serialf used buf2
     }
     else Some (Some used, buf1)
   }"

declare serialize_loop.simps [code]

definition buffer_serialize :: "cenv \<Rightarrow> serializer \<Rightarrow> buffer \<Rightarrow> (int \<times> buffer) option" where
  "buffer_serialize E serialf buf = do {
     (u, buf1) \<leftarrow> serialize_loop E serialf (buffer_rem buf) buf;
     case u of
       None \<Rightarrow> Some (-1, buf1)
     | Some used \<Rightarrow> do { buf2 \<leftarrow> buffer_advance buf1 used; Some (sint used, buf2) }
   }"

definition buffer_deserialize ::
    "'a deserializer \<Rightarrow> 'a \<Rightarrow> buffer \<Rightarrow> (int \<times> 'a \<times> buffer) option" where
  "buffer_deserialize deserialf out buf = do {
     let used = buffer_used buf;
     m \<leftarrow> block_mem (buf_begin buf);
     (required, out', err) \<leftarrow> deserialf m used out 0;
     if err \<noteq> 0 then Some (-1, out', buf)
     else if required \<le> used then do {
       buf1 \<leftarrow> buffer_shift buf required;
       Some (0, out', buf1)
     }
     else Some (1, out', buf)
   }"

section \<open>Invariant and contents\<close>

definition buffer_ok :: "buffer \<Rightarrow> bool" where
  "buffer_ok buf \<longleftrightarrow>
     (case buf_begin buf of
        Null \<Rightarrow> buf_ptr buf = 0 \<and> buf_end buf = 0
      | Live m \<Rightarrow> length m = unat (buf_end buf) \<and> buf_ptr buf \<le> buf_end buf \<and>
          buf_end buf \<le> PTRDIFF_MAX
      | Freed \<Rightarrow> False)"

definition contents :: "buffer \<Rightarrow> byte list" where
  "contents buf =
     (case block_mem (buf_begin buf) of None \<Rightarrow> [] | Some m \<Rightarrow> take (unat (buf_ptr buf)) m)"

declare buffer_ok_def [wf_simps]

text \<open>Every buffer that is well formed is one block of memory with its two offsets.\<close>

lemma buffer_ok_mem:
  assumes "buffer_ok buf"
  obtains m where "block_mem (buf_begin buf) = Some m" "length m = unat (buf_end buf)"
    "unat (buf_ptr buf) \<le> length m" "contents buf = take (unat (buf_ptr buf)) m"
    "m = [] \<or> buf_begin buf = Live m"
  using assms
  by (auto simp: buffer_ok_def block_mem_def contents_def word_le_nat_alt intro!: that
      split: block.splits)

lemma buffer_ok_end: "buffer_ok buf \<Longrightarrow> unat (buf_end buf) < 2 ^ 63"
  by (auto simp: buffer_ok_def word_le_nat_alt PTRDIFF_MAX_def split: block.splits)

lemma buffer_init_ok [simp]: "buffer_ok buffer_init" "contents buffer_init = []"
  by (simp_all add: buffer_ok_def buffer_init_def contents_def block_mem_def)

lemma length_contents: "buffer_ok buf \<Longrightarrow> length (contents buf) = unat (buffer_used buf)"
  by (erule buffer_ok_mem) (simp add: buffer_used_def)

lemma unat_buffer_rem:
  "buffer_ok buf \<Longrightarrow> unat (buffer_rem buf) = unat (buf_end buf) - unat (buf_ptr buf)"
  by (erule buffer_ok_mem) (auto simp: buffer_rem_def unat_sub_if' split: if_splits)

lemma buffer_isempty_iff: "buffer_ok buf \<Longrightarrow> buffer_isempty buf \<longleftrightarrow> contents buf = []"
  using length_contents [of buf] by (auto simp: buffer_isempty_def unat_eq_0)

end
