(* ===== verification/Buf_Laws.thy ===== *)
theory Buf_Laws
  imports Middfs_Buf
begin

text \<open>
  What each buffer operation does to the contents of a well-formed buffer, and the byte queue
  the buffer implements: whatever is put in comes out in order, whatever the sizes of the
  reads and writes. The loop of \<open>buffer_serialize\<close> is shown to end.
\<close>

section \<open>Operations on a well-formed buffer\<close>

lemma resize_cases:
  assumes ok: "buffer_ok buf" and n: "newsize \<noteq> 0"
  obtains (fail) "buffer_resize E buf newsize = Some (- ENOMEM, buf)"
      "\<not> (newsize \<le> PTRDIFF_MAX \<and> can_alloc E (unat newsize))"
  | (grown) buf' where "buffer_resize E buf newsize = Some (0, buf')" "buffer_ok buf'"
      "contents buf' = take (unat newsize) (contents buf)"
      "buf_end buf' = newsize" "buf_ptr buf' = smin (buf_ptr buf) newsize"
proof -
  obtain m where m: "block_mem (buf_begin buf) = Some m" "length m = unat (buf_end buf)"
    "unat (buf_ptr buf) \<le> length m" "contents buf = take (unat (buf_ptr buf)) m"
    by (rule buffer_ok_mem [OF ok])
  let ?m = "take (unat newsize) m @ map (indet_byte E) [length m..<unat newsize]"
  let ?buf = "buf\<lparr>buf_begin := Live ?m, buf_ptr := smin (buf_ptr buf) newsize, buf_end := newsize\<rparr>"
  show thesis
  proof (cases "newsize \<le> PTRDIFF_MAX \<and> can_alloc E (unat newsize)")
    case True
    then have "buffer_resize E buf newsize = Some (0, ?buf)"
      using m n by (simp add: buffer_resize_def realloc_def buffer_used_def)
    moreover have "buffer_ok ?buf" using True by (simp add: buffer_ok_def word_le_nat_alt)
    moreover have "contents ?buf = take (unat newsize) (contents buf)"
      using m by (simp add: contents_def block_mem_def min.commute)
    ultimately show thesis by (intro grown [of ?buf]) simp_all
  next
    case False
    with m n have "buffer_resize E buf newsize = Some (- ENOMEM, buf)"
      by (auto simp: buffer_resize_def realloc_def)
    with False show thesis by (intro fail)
  qed
qed

lemma shift_result:
  assumes ok: "buffer_ok buf"
  obtains buf' where "buffer_shift buf n = Some buf'" "buffer_ok buf'"
    "contents buf' = drop (unat n) (contents buf)" "buf_end buf' = buf_end buf"
proof -
  obtain m where m: "block_mem (buf_begin buf) = Some m" "length m = unat (buf_end buf)"
    "unat (buf_ptr buf) \<le> length m" "contents buf = take (unat (buf_ptr buf)) m"
    "m = [] \<or> buf_begin buf = Live m"
    by (rule buffer_ok_mem [OF ok])
  show thesis
  proof (cases "buf_ptr buf \<le> n")
    case True
    show thesis
    proof (rule that [of "buffer_empty buf"])
      show "buffer_shift buf n = Some (buffer_empty buf)"
        using True by (simp add: buffer_shift_def buffer_used_def)
      show "buffer_ok (buffer_empty buf)"
        using ok by (simp add: buffer_ok_def buffer_empty_def split: block.splits)
      show "contents (buffer_empty buf) = drop (unat n) (contents buf)"
        using True m by (simp add: contents_def buffer_empty_def word_le_nat_alt)
    qed (simp add: buffer_empty_def)
  next
    case False
    let ?k = "unat (buf_ptr buf) - unat n"
    have k: "unat (buf_ptr buf - n) = ?k" "0 < ?k"
      using False by (auto simp: word_le_nat_alt unat_sub_if')
    then have live: "buf_begin buf = Live m" using m by auto
    let ?src = "take ?k (drop (unat n) m)"
    let ?m = "?src @ drop (length ?src) m"
    let ?buf = "buf\<lparr>buf_begin := Live ?m, buf_ptr := buf_ptr buf - n\<rparr>"
    have src: "length ?src = ?k" using m by simp
    have "buffer_shift buf n = Some ?buf"
      using False k m live src
      by (simp add: buffer_shift_def buffer_used_def block_mem_def block_set_def Let_def)
    moreover have "buffer_ok ?buf"
      using m src k ok live by (simp add: buffer_ok_def word_le_nat_alt)
    moreover have "contents ?buf = drop (unat n) (contents buf)"
      using m k src by (simp add: contents_def block_mem_def drop_take)
    ultimately show thesis by (intro that [of ?buf]) simp_all
  qed
qed

lemma store_advance:
  assumes ok: "buffer_ok buf" and fits: "length bs \<le> unat (buffer_rem buf)"
  obtains buf1 buf2 where "buffer_store buf bs = Some buf1"
    "buffer_advance buf1 (word_of_nat (length bs)) = Some buf2" "buffer_ok buf2"
    "contents buf2 = contents buf @ bs" "buf_end buf2 = buf_end buf"
proof -
  obtain m where m: "block_mem (buf_begin buf) = Some m" "length m = unat (buf_end buf)"
    "unat (buf_ptr buf) \<le> length m" "contents buf = take (unat (buf_ptr buf)) m"
    "m = [] \<or> buf_begin buf = Live m"
    by (rule buffer_ok_mem [OF ok])
  let ?p = "unat (buf_ptr buf)" and ?n = "word_of_nat (length bs) :: u64"
  have fit: "?p + length bs \<le> length m" using fits m unat_buffer_rem [OF ok] by simp
  have n: "unat ?n = length bs"
    using fits unat_u64_bound [of "buffer_rem buf"] by (intro unat_of_nat_u64) linarith
  let ?m = "take ?p m @ bs @ drop (length bs) (drop ?p m)"
  let ?buf1 = "buf\<lparr>buf_begin := block_set (buf_begin buf) ?m\<rparr>"
  let ?buf2 = "?buf1\<lparr>buf_ptr := buf_ptr buf + ?n\<rparr>"
  have "buffer_store buf bs = Some ?buf1"
    using m fit by (simp add: buffer_store_def)
  moreover have "buffer_advance ?buf1 ?n = Some ?buf2"
    using fits n by (simp add: buffer_advance_def buffer_rem_def word_le_nat_alt)
  moreover have p: "unat (buf_ptr buf + ?n) = ?p + length bs"
    using le_less_trans [OF fit [unfolded m(2)] unat_u64_bound] n
    by (intro trans [OF unat_add_u64]) simp_all
  moreover have "buffer_ok ?buf2 \<and> contents ?buf2 = contents buf @ bs"
  proof (cases "m = []")
    case True
    then have "bs = []" using fit by simp
    with True ok m show ?thesis
      by (auto simp: buffer_ok_def contents_def block_set_def block_mem_def split: block.splits)
  next
    case False
    with m have live: "buf_begin buf = Live m" by blast
    with m fit p ok show ?thesis
      by (auto simp: buffer_ok_def contents_def block_set_def block_mem_def word_le_nat_alt)
  qed
  ultimately show thesis by (intro that [of ?buf1 ?buf2]) simp_all
qed

lemma increase_cases:
  assumes ok: "buffer_ok buf"
  obtains (fail) "buffer_increase E buf = Some (- ENOMEM, buf)"
      "alloc_upto E (max 1 (2 * length (contents buf))) \<Longrightarrow> 2 ^ 63 \<le> 2 * length (contents buf)"
  | (room) buf' where "buffer_increase E buf = Some (0, buf')" "buffer_ok buf'"
      "contents buf' = contents buf" "0 < unat (buffer_rem buf')"
proof (cases "buffer_rem buf = 0")
  case True
  let ?new = "smax 1 (buffer_size buf * 2)"
  have new: "?new \<noteq> 0" by (auto simp: smax_def)
  have two: "unat (buffer_size buf * 2) = 2 * unat (buf_end buf)"
    using buffer_ok_end [OF ok] by (simp add: buffer_size_def unat_word_ariths)
  have len: "length (contents buf) = unat (buf_ptr buf)" "unat (buf_ptr buf) \<le> unat (buf_end buf)"
    using length_contents [OF ok] ok by (auto simp: buffer_used_def elim: buffer_ok_mem)
  show thesis
  proof (rule resize_cases [OF ok new, where E = E])
    assume r: "buffer_resize E buf ?new = Some (- ENOMEM, buf)"
      "\<not> (?new \<le> PTRDIFF_MAX \<and> can_alloc E (unat ?new))"
    have "unat (buf_ptr buf) = unat (buf_end buf)"
      using arg_cong [OF True, of unat] unat_buffer_rem [OF ok] len(2) by simp
    then have n: "unat ?new = max 1 (2 * length (contents buf))" using two len(1) by simp
    have "2 ^ 63 \<le> 2 * length (contents buf)" if a: "alloc_upto E (max 1 (2 * length (contents buf)))"
    proof -
      have "can_alloc E (unat ?new)" using alloc_uptoD [OF a] n by simp
      with r(2) n show ?thesis by (auto simp: word_le_nat_alt PTRDIFF_MAX_def split: if_splits)
    qed
    with r(1) True show thesis by (intro fail) (simp_all add: buffer_increase_def Let_def)
  next
    fix buf' assume "buffer_resize E buf ?new = Some (0, buf')" "buffer_ok buf'"
      "contents buf' = take (unat ?new) (contents buf)" "buf_end buf' = ?new"
      "buf_ptr buf' = smin (buf_ptr buf) ?new"
    with True len two show thesis
      by (intro room [of buf']) (auto simp: buffer_increase_def Let_def unat_buffer_rem)
  qed
next
  case False
  with ok show thesis
    by (intro room [of buf]) (auto simp: buffer_increase_def unat_gt_0)
qed

text \<open>
  What POSIX promises of the two calls: \<open>read\<close> stores at most the count, \<open>write\<close> takes at
  most the bytes it is given.
\<close>

definition read_ok :: "sys_read \<Rightarrow> bool" where
  "read_ok rd \<longleftrightarrow> (\<forall>n bs. rd n = Some bs \<longrightarrow> length bs \<le> unat n)"

definition write_ok :: "sys_write \<Rightarrow> bool" where
  "write_ok wr \<longleftrightarrow> (\<forall>bs n. wr bs = Some n \<longrightarrow> unat n \<le> length bs)"

text \<open>The bytes that \<open>read\<close> takes from the descriptor in one call of \<open>buffer_read\<close>.\<close>

definition read_result :: "cenv \<Rightarrow> sys_read \<Rightarrow> buffer \<Rightarrow> byte list" where
  "read_result E rd buf =
     (case buffer_increase E buf of
        None \<Rightarrow> []
      | Some (r, buf1) \<Rightarrow>
          if r < 0 then [] else (case rd (buffer_rem buf1) of None \<Rightarrow> [] | Some bs \<Rightarrow> bs))"

lemma read_cases:
  assumes ok: "buffer_ok buf" and rd: "read_ok rd"
  obtains (fail) buf' where "buffer_read E rd buf = Some (-1, buf')" "buffer_ok buf'"
      "contents buf' = contents buf" "read_result E rd buf = []"
      "alloc_upto E (max 1 (2 * length (contents buf))) \<Longrightarrow> 2 * length (contents buf) < 2 ^ 63 \<Longrightarrow>
       \<exists>n. 0 < unat n \<and> rd n = None"
  | (got) buf' n bs where "rd n = Some bs" "0 < unat n"
      "buffer_read E rd buf = Some (int (length bs), buf')"
      "buffer_ok buf'" "contents buf' = contents buf @ bs" "read_result E rd buf = bs"
proof (rule increase_cases [OF ok, of E])
  assume "buffer_increase E buf = Some (- ENOMEM, buf)"
    "alloc_upto E (max 1 (2 * length (contents buf))) \<Longrightarrow> 2 ^ 63 \<le> 2 * length (contents buf)"
  with ok show thesis
    by (intro fail [of buf]) (fastforce simp: buffer_read_def read_result_def ENOMEM_def)+
next
  fix buf1 assume b: "buffer_increase E buf = Some (0, buf1)" "buffer_ok buf1"
    "contents buf1 = contents buf" "0 < unat (buffer_rem buf1)"
  show thesis
  proof (cases "rd (buffer_rem buf1)")
    case None
    with b show thesis by (intro fail [of buf1]) (auto simp: buffer_read_def read_result_def)
  next
    case (Some bs)
    then have "length bs \<le> unat (buffer_rem buf1)" using rd by (simp add: read_ok_def)
    then obtain buf2 buf3 where "buffer_store buf1 bs = Some buf2"
      "buffer_advance buf2 (word_of_nat (length bs)) = Some buf3" "buffer_ok buf3"
      "contents buf3 = contents buf1 @ bs"
      by (rule store_advance [OF b(2)])
    with Some b show thesis
      by (intro got [of "buffer_rem buf1" bs buf3]) (simp_all add: buffer_read_def read_result_def)
  qed
qed

lemma write_cases:
  assumes ok: "buffer_ok buf"
  obtains (fail) "wr (contents buf) = None" "buffer_write wr buf = Some (-1, buf)"
  | (sent) buf' n where "wr (contents buf) = Some n" "buffer_write wr buf = Some (sint n, buf')"
      "buffer_ok buf'" "contents buf' = drop (unat n) (contents buf)"
proof -
  obtain m where "block_mem (buf_begin buf) = Some m" "unat (buf_ptr buf) \<le> length m"
    "contents buf = take (unat (buf_ptr buf)) m"
    by (rule buffer_ok_mem [OF ok])
  then have w: "buffer_write wr buf =
      (case wr (contents buf) of
         None \<Rightarrow> Some (-1, buf)
       | Some n \<Rightarrow> do { buf1 \<leftarrow> buffer_shift buf n; Some (sint n, buf1) })"
    by (simp add: buffer_write_def buffer_used_def)
  show thesis
  proof (cases "wr (contents buf)")
    case None
    with w show thesis by (intro fail) simp_all
  next
    case (Some n)
    obtain buf' where "buffer_shift buf n = Some buf'" "buffer_ok buf'"
      "contents buf' = drop (unat n) (contents buf)"
      by (rule shift_result [OF ok])
    with w Some show thesis by (intro sent [of n buf']) simp_all
  qed
qed

lemma copy_cases:
  assumes ok: "buffer_ok buf" and n: "unat nbytes \<le> length inp" "nbytes \<le> PTRDIFF_MAX"
  obtains (fail) "buffer_copy E buf inp nbytes = Some (-1, buf)"
  | (copied) buf' where "buffer_copy E buf inp nbytes = Some (0, buf')" "buffer_ok buf'"
      "contents buf' = contents buf @ take (unat nbytes) inp"
proof -
  let ?bs = "take (unat nbytes) inp"
  have len: "length ?bs = unat nbytes" using n by simp
  then have word: "word_of_nat (length ?bs) = nbytes" by simp
  have put: thesis if r: "(if buffer_rem buf < nbytes
        then buffer_resize E buf (buffer_size buf + nbytes) else Some (0, buf)) = Some (0, b)"
      "buffer_ok b" "contents b = contents buf" "unat nbytes \<le> unat (buffer_rem b)" for b
  proof -
    obtain b1 b2 where "buffer_store b ?bs = Some b1"
      "buffer_advance b1 (word_of_nat (length ?bs)) = Some b2" "buffer_ok b2"
      "contents b2 = contents b @ ?bs"
      by (rule store_advance [OF r(2), of ?bs]) (use r(4) len in auto)
    with r n word show thesis by (intro copied [of b2]) (simp_all add: buffer_copy_def)
  qed
  show thesis
  proof (cases "buffer_rem buf < nbytes")
    case False
    with ok show thesis by (intro put [of buf]) (simp_all add: word_less_nat_alt)
  next
    case True
    obtain m where m: "unat (buf_ptr buf) \<le> unat (buf_end buf)"
      "length (contents buf) = unat (buf_ptr buf)"
      by (rule buffer_ok_mem [OF ok]) simp
    have "unat nbytes < 2 ^ 63" using n by (simp add: PTRDIFF_MAX_def word_le_nat_alt)
    then have sum: "unat (buffer_size buf + nbytes) = unat (buf_end buf) + unat nbytes"
      using buffer_ok_end [OF ok] by (simp add: buffer_size_def unat_add_u64)
    have nz: "buffer_size buf + nbytes \<noteq> 0"
      using sum True by (auto simp: word_less_nat_alt unat_eq_0 [symmetric])
    show thesis
    proof (rule resize_cases [OF ok nz, where E = E])
      assume "buffer_resize E buf (buffer_size buf + nbytes) = Some (- ENOMEM, buf)"
      with True show thesis by (intro fail) (simp add: buffer_copy_def ENOMEM_def)
    next
      fix b assume "buffer_resize E buf (buffer_size buf + nbytes) = Some (0, b)" "buffer_ok b"
        "contents b = take (unat (buffer_size buf + nbytes)) (contents buf)"
        "buf_end b = buffer_size buf + nbytes"
        "buf_ptr b = smin (buf_ptr buf) (buffer_size buf + nbytes)"
      with True sum m show thesis by (intro put [of b]) (simp_all add: unat_buffer_rem)
    qed
  qed
qed

section \<open>Serialising into a buffer\<close>

context serializes
begin

text \<open>One call of the serialiser in the loop: it fits, or asks for more than it was given.\<close>

lemma at_ptr_fits:
  assumes x: "ok x" and b: "buffer_ok buf" and fits: "length (enc x) \<le> unat (buffer_rem buf)"
  obtains buf1 where "serialize_at_ptr (ser x) buf (buffer_rem buf)
    = Some (word_of_nat (length (enc x)), buf1)" "buffer_store buf (enc x) = Some buf1"
proof -
  obtain m where m: "block_mem (buf_begin buf) = Some m" "length m = unat (buf_end buf)"
    "unat (buf_ptr buf) \<le> length m"
    by (rule buffer_ok_mem [OF b])
  have rem: "unat (buffer_rem buf) \<le> length (drop (unat (buf_ptr buf)) m)"
    using m unat_buffer_rem [OF b] by simp
  from ser_fits [OF x fits rem] m fits rem show thesis
    by (intro that) (simp_all add: serialize_at_ptr_def buffer_store_def)
qed

lemma at_ptr_short:
  assumes x: "ok x" and b: "buffer_ok buf" and short: "unat (buffer_rem buf) < length (enc x)"
  obtains buf1 n where "serialize_at_ptr (ser x) buf (buffer_rem buf) = Some (n, buf1)"
    "buffer_rem buf < n" "unat n \<le> length (enc x)" "buffer_ok buf1"
    "contents buf1 = contents buf" "buf_ptr buf1 = buf_ptr buf"
proof -
  let ?p = "unat (buf_ptr buf)"
  obtain m where m: "block_mem (buf_begin buf) = Some m" "length m = unat (buf_end buf)"
    "?p \<le> length m" "contents buf = take ?p m" "m = [] \<or> buf_begin buf = Live m"
    by (rule buffer_ok_mem [OF b])
  have rem: "unat (buffer_rem buf) \<le> length (drop ?p m)"
    using m unat_buffer_rem [OF b] by simp
  obtain n c where r: "ser x (drop ?p m) (buffer_rem buf) = Some (n, c)"
    "length c = length (drop ?p m)" "unat (buffer_rem buf) < unat n" "unat n \<le> length (enc x)"
    by (rule ser_short [OF x short rem]) blast
  let ?buf1 = "buf\<lparr>buf_begin := block_set (buf_begin buf) (take ?p m @ c)\<rparr>"
  have "buffer_ok ?buf1 \<and> contents ?buf1 = contents buf"
  proof (cases "m = []")
    case True
    with r b m show ?thesis
      by (auto simp: buffer_ok_def contents_def block_set_def block_mem_def split: block.splits)
  next
    case False
    with m have "buf_begin buf = Live m" by blast
    with m r b show ?thesis
      by (auto simp: buffer_ok_def contents_def block_set_def block_mem_def)
  qed
  with r m show thesis
    by (intro that [of n ?buf1]) (simp_all add: serialize_at_ptr_def word_less_nat_alt)
qed

lemma serialize_loop_result:
  assumes "ok x" "buffer_ok buf" "rem = buffer_rem buf"
    "length (contents buf) + length (enc x) < 2 ^ 63"
  shows "\<exists>u buf1. serialize_loop E (ser x) rem buf = Some (u, buf1) \<and>
    (case u of
       None \<Rightarrow> buffer_ok buf1 \<and> contents buf1 = contents buf \<and>
         \<not> alloc_upto E (length (contents buf) + length (enc x))
     | Some n \<Rightarrow> n = word_of_nat (length (enc x)) \<and>
         (\<exists>buf2. buffer_advance buf1 n = Some buf2 \<and> buffer_ok buf2 \<and>
            contents buf2 = contents buf @ enc x))"
  using assms(2-4)
proof (induction "length (enc x) - unat rem" arbitrary: rem buf rule: less_induct)
  case less
  let ?n = "word_of_nat (length (enc x)) :: u64"
  have n: "unat ?n = length (enc x)"
    using enc_small [OF assms(1)] by (intro unat_of_nat_u64) simp
  show ?case
  proof (cases "length (enc x) \<le> unat (buffer_rem buf)")
    case True
    obtain b1 where call: "serialize_at_ptr (ser x) buf (buffer_rem buf) = Some (?n, b1)"
      and store: "buffer_store buf (enc x) = Some b1"
      by (rule at_ptr_fits [OF assms(1) less.prems(1) True])
    obtain b1' b2 where "buffer_store buf (enc x) = Some b1'" "buffer_advance b1' ?n = Some b2"
      "buffer_ok b2" "contents b2 = contents buf @ enc x"
      by (rule store_advance [OF less.prems(1) True])
    with store have "\<exists>b2. buffer_advance b1 ?n = Some b2 \<and> buffer_ok b2 \<and>
        contents b2 = contents buf @ enc x" by auto
    moreover have "serialize_loop E (ser x) rem buf = Some (Some ?n, b1)"
      using call True less.prems(2) n
      by (subst serialize_loop.simps) (simp add: word_less_nat_alt)
    ultimately show ?thesis by simp
  next
    case False
    then have short: "unat (buffer_rem buf) < length (enc x)" by simp
    obtain b1 k where call: "serialize_at_ptr (ser x) buf (buffer_rem buf) = Some (k, b1)"
      and k: "buffer_rem buf < k" "unat k \<le> length (enc x)" and b1: "buffer_ok b1"
      "contents b1 = contents buf" "buf_ptr b1 = buf_ptr buf"
      by (rule at_ptr_short [OF assms(1) less.prems(1) short])
    have used: "unat (buffer_used b1) = length (contents buf)"
      using length_contents [OF b1(1)] b1(2) by simp
    have sum: "unat (buffer_used b1 + k) = length (contents buf) + unat k"
      using used k less.prems(3) by (intro trans [OF unat_add_u64]) simp_all
    have nz: "buffer_used b1 + k \<noteq> 0"
      using sum k by (auto simp: word_less_nat_alt unat_eq_0 [symmetric])
    have unfold: "serialize_loop E (ser x) rem buf =
        do { (r, buf2) \<leftarrow> buffer_resize E b1 (buffer_used b1 + k);
             if r < 0 then Some (None, buf2) else serialize_loop E (ser x) k buf2 }"
      using call k less.prems(2) by (subst serialize_loop.simps) simp
    show ?thesis
    proof (rule resize_cases [OF b1(1) nz, where E = E])
      assume r: "buffer_resize E b1 (buffer_used b1 + k) = Some (- ENOMEM, b1)"
        "\<not> (buffer_used b1 + k \<le> PTRDIFF_MAX \<and> can_alloc E (unat (buffer_used b1 + k)))"
      have "buffer_used b1 + k \<le> PTRDIFF_MAX"
        using sum k(2) less.prems(3) by (simp add: word_le_nat_alt PTRDIFF_MAX_def)
      then have "\<not> can_alloc E (length (contents buf) + unat k)" using r(2) sum by simp
      then have "\<not> alloc_upto E (length (contents buf) + length (enc x))"
        using k(2) alloc_uptoD [of E _ "length (contents buf) + unat k"] by fastforce
      with r(1) unfold b1 show ?thesis by (simp add: ENOMEM_def)
    next
      fix b2 assume b2: "buffer_resize E b1 (buffer_used b1 + k) = Some (0, b2)" "buffer_ok b2"
        "contents b2 = take (unat (buffer_used b1 + k)) (contents b1)"
        "buf_end b2 = buffer_used b1 + k" "buf_ptr b2 = smin (buf_ptr b1) (buffer_used b1 + k)"
      have "buf_ptr b2 = buffer_used b1"
        using b2(5) sum used k by (auto simp: smin_def word_less_nat_alt buffer_used_def)
      then have rem: "k = buffer_rem b2" using b2(4) by (simp add: buffer_rem_def)
      have same: "contents b2 = contents buf" using b2(3) b1(2) sum by simp
      have dec: "length (enc x) - unat k < length (enc x) - unat rem"
        using k less.prems(2) short by (simp add: word_less_nat_alt)
      have "length (contents b2) + length (enc x) < 2 ^ 63" using same less.prems(3) by simp
      from less.hyps [OF dec b2(2) rem this] show ?thesis by (simp only: same unfold b2(1)) simp
    qed
  qed
qed

text \<open>
  \<open>buffer_serialize\<close> returns, and either appends the whole encoding or leaves the contents
  alone and reports -1.
\<close>

lemma buffer_serialize_cases:
  assumes x: "ok x" and b: "buffer_ok buf"
    and len: "length (contents buf) + length (enc x) < 2 ^ 63"
  obtains (fail) buf' where "buffer_serialize E (ser x) buf = Some (-1, buf')" "buffer_ok buf'"
      "contents buf' = contents buf" "\<not> alloc_upto E (length (contents buf) + length (enc x))"
  | (appended) buf' where
      "buffer_serialize E (ser x) buf = Some (int (length (enc x)), buf')" "buffer_ok buf'"
      "contents buf' = contents buf @ enc x"
proof -
  let ?n = "word_of_nat (length (enc x)) :: u64"
  have "sint ?n = int (length (enc x))"
    using len by (simp add: signed_of_nat signed_take_bit_int_eq_self)
  obtain u b1 where loop: "serialize_loop E (ser x) (buffer_rem buf) buf = Some (u, b1)"
    and r: "case u of
       None \<Rightarrow> buffer_ok b1 \<and> contents b1 = contents buf \<and>
         \<not> alloc_upto E (length (contents buf) + length (enc x))
     | Some n \<Rightarrow> n = ?n \<and> (\<exists>buf2. buffer_advance b1 n = Some buf2 \<and> buffer_ok buf2 \<and>
            contents buf2 = contents buf @ enc x)"
    using serialize_loop_result [OF x b refl len] by blast
  show thesis
  proof (cases u)
    case None
    with loop r show thesis by (intro fail [of b1]) (simp_all add: buffer_serialize_def)
  next
    case (Some n)
    with r obtain b2 where "n = ?n" "buffer_advance b1 ?n = Some b2" "buffer_ok b2"
      "contents b2 = contents buf @ enc x" by auto
    with loop Some \<open>sint ?n = _\<close> show thesis
      by (intro appended [of b2]) (simp_all add: buffer_serialize_def)
  qed
qed

end

text \<open>On any input a serialiser that stays inside its buffer leaves a well-formed buffer.\<close>

lemma serialize_at_ptr_ok:
  assumes "framed f" "buffer_ok buf" "serialize_at_ptr f buf n = Some (used, buf1)"
  shows "buffer_ok buf1"
proof -
  obtain m where m: "block_mem (buf_begin buf) = Some m" "length m = unat (buf_end buf)"
    "unat (buf_ptr buf) \<le> length m" "m = [] \<or> buf_begin buf = Live m"
    by (rule buffer_ok_mem [OF assms(2)])
  obtain c where c: "f (drop (unat (buf_ptr buf)) m) n = Some (used, c)"
    and buf1: "buf1 = buf\<lparr>buf_begin := block_set (buf_begin buf) (take (unat (buf_ptr buf)) m @ c)\<rparr>"
    using assms(3) m(1) by (auto simp: serialize_at_ptr_def bind_Some_iff)
  have "length (take (unat (buf_ptr buf)) m @ c) = length m"
    using framedD(1) [OF assms(1) c] m(3) by simp
  with m assms(2) buf1 show ?thesis
    by (auto simp: buffer_ok_def block_set_def split: block.splits)
qed

lemma buffer_resize_ok:
  assumes "buffer_ok buf" "buffer_resize E buf n = Some (r, buf1)"
  shows "buffer_ok buf1"
proof (cases "n = 0")
  case True
  with assms show ?thesis by (auto simp: buffer_resize_def realloc_def bind_Some_iff)
next
  case False
  show ?thesis by (rule resize_cases [OF assms(1) False, of E]) (use assms in auto)
qed

lemma serialize_loop_ok:
  assumes "framed f" "serialize_loop E f rem buf = Some (u, buf1)" "buffer_ok buf"
  shows "buffer_ok buf1"
proof -
  have "framed f \<longrightarrow> buffer_ok buf \<longrightarrow> buffer_ok (snd r)"
    if "serialize_loop E f rem buf = Some r" for r
  proof (rule serialize_loop.raw_induct [OF _ that, where P = "\<lambda>E f rem buf r.
        framed f \<longrightarrow> buffer_ok buf \<longrightarrow> buffer_ok (snd r)"], intro impI)
    fix loop E f rem buf r
    assume IH: "\<And>E f rem buf r. loop E f rem buf = Some r \<Longrightarrow>
        framed f \<longrightarrow> buffer_ok buf \<longrightarrow> buffer_ok (snd r)"
      and f: "framed f" and ok: "buffer_ok buf"
      and body: "do { (used, buf1) \<leftarrow> serialize_at_ptr f buf rem;
          if rem < used then do {
            (ret, buf2) \<leftarrow> buffer_resize E buf1 (buffer_used buf1 + used);
            if ret < 0 then Some (None, buf2) else loop E f used buf2
          }
          else Some (Some used, buf1) } = Some r"
    from body obtain used buf1 where at: "serialize_at_ptr f buf rem = Some (used, buf1)"
      and rest: "(if rem < used then do {
            (ret, buf2) \<leftarrow> buffer_resize E buf1 (buffer_used buf1 + used);
            if ret < 0 then Some (None, buf2) else loop E f used buf2
          }
          else Some (Some used, buf1)) = Some r"
      by (auto simp: bind_Some_iff)
    have ok1: "buffer_ok buf1" by (rule serialize_at_ptr_ok [OF f ok at])
    show "buffer_ok (snd r)"
    proof (cases "rem < used")
      case False
      with rest ok1 show ?thesis by auto
    next
      case True
      with rest obtain ret buf2 where r: "buffer_resize E buf1 (buffer_used buf1 + used) = Some (ret, buf2)"
        and last: "(if ret < 0 then Some (None, buf2) else loop E f used buf2) = Some r"
        by (auto simp: bind_Some_iff)
      have "buffer_ok buf2" by (rule buffer_resize_ok [OF ok1 r])
      with last IH [of E f used buf2 r] f show ?thesis by (cases "ret < 0") auto
    qed
  qed
  from this [OF assms(2)] assms(1,3) show ?thesis by simp
qed

lemma buffer_advance_ok:
  "buffer_ok buf \<Longrightarrow> buffer_advance buf n = Some buf1 \<Longrightarrow> buffer_ok buf1"
proof -
  assume ok: "buffer_ok buf" and adv: "buffer_advance buf n = Some buf1"
  then have n: "unat n \<le> unat (buffer_rem buf)" and b: "buf1 = buf\<lparr>buf_ptr := buf_ptr buf + n\<rparr>"
    by (auto simp: buffer_advance_def word_le_nat_alt split: if_splits)
  obtain m :: "byte list" where m: "length m = unat (buf_end buf)" "unat (buf_ptr buf) \<le> length m"
    by (rule buffer_ok_mem [OF ok]) blast
  have le: "unat (buf_ptr buf) + unat n \<le> unat (buf_end buf)"
    using n m unat_buffer_rem [OF ok] by simp
  then have "unat (buf_ptr buf + n) = unat (buf_ptr buf) + unat n"
    using le_less_trans [OF le unat_u64_bound] by (rule_tac unat_add_u64)
  with ok le b show ?thesis
    by (auto simp: buffer_ok_def word_le_nat_alt unat_eq_0 [symmetric] split: block.splits)
qed

lemma buffer_serialize_ok:
  assumes "framed f" "buffer_ok buf" "buffer_serialize E f buf = Some (r, buf1)"
  shows "buffer_ok buf1"
  using assms(3)
  by (auto simp: buffer_serialize_def bind_Some_iff split: option.splits
      dest!: serialize_loop_ok [OF assms(1) _ assms(2)] intro: buffer_advance_ok)

section \<open>Deserialising from a buffer\<close>

context codec
begin

lemma buffer_deserialize_complete:
  assumes x: "ok x" "avail x" "fresh v" and b: "buffer_ok buf" and c: "contents buf = enc x @ rest"
  obtains buf' where "buffer_deserialize des v buf = Some (0, canon x, buf')" "buffer_ok buf'"
    "contents buf' = rest"
proof -
  let ?n = "word_of_nat (length (enc x)) :: u64"
  obtain m where m: "block_mem (buf_begin buf) = Some m" "unat (buf_ptr buf) \<le> length m"
    "contents buf = take (unat (buf_ptr buf)) m"
    by (rule buffer_ok_mem [OF b])
  define tail where "tail = drop (unat (buf_ptr buf)) m"
  have split: "m = enc x @ rest @ tail"
    using m(3) c by (metis append.assoc append_take_drop_id tail_def)
  have le: "length (enc x) \<le> unat (buffer_used buf)"
    using length_contents [OF b] c by simp
  then have des: "des m (buffer_used buf) v 0 = Some (?n, canon x, 0)"
    using m(2) des_complete [OF x le, of "rest @ tail"] unfolding split
    by (simp add: buffer_used_def)
  have n: "unat ?n = length (enc x)" using enc_small [OF x(1)] by (intro unat_of_nat_u64) simp
  obtain buf' where "buffer_shift buf ?n = Some buf'" "buffer_ok buf'"
    "contents buf' = drop (unat ?n) (contents buf)"
    by (rule shift_result [OF b])
  with des m(1) n le c show thesis
    by (intro that [of buf']) (simp_all add: buffer_deserialize_def word_le_nat_alt)
qed

lemma buffer_deserialize_partial:
  assumes x: "ok x" "avail x" "fresh v" and b: "buffer_ok buf"
    and c: "enc x = contents buf @ missing" "missing \<noteq> []"
  obtains v' where "buffer_deserialize des v buf = Some (1, v', buf)"
proof -
  obtain m where m: "block_mem (buf_begin buf) = Some m" "unat (buf_ptr buf) \<le> length m"
    "contents buf = take (unat (buf_ptr buf)) m"
    by (rule buffer_ok_mem [OF b])
  have len: "length (contents buf) = unat (buffer_used buf)" by (rule length_contents [OF b])
  obtain k v' where "des m (buffer_used buf) v 0 = Some (k, v', 0)"
    "unat (buffer_used buf) < unat k"
    by (rule des_partial [OF x, of "buffer_used buf" m])
      (use m len c in \<open>auto simp: buffer_used_def\<close>)
  with m(1) show thesis
    by (intro that [of v']) (simp add: buffer_deserialize_def word_le_nat_alt)
qed

end

section \<open>The queue a buffer implements\<close>

text \<open>
  The interface a caller uses: put appends the bytes of a value at the back (or declines, and
  changes nothing), and front removes bytes at the front.
\<close>

datatype 'p queue_op = Put 'p | Remove u64

fun queue_run ::
    "('p \<Rightarrow> 'b \<Rightarrow> (bool \<times> 'b) option) \<Rightarrow> (u64 \<Rightarrow> 'b \<Rightarrow> 'b option) \<Rightarrow> ('b \<Rightarrow> byte list) \<Rightarrow>
     'p queue_op list \<Rightarrow> 'b \<Rightarrow> ('p list \<times> byte list \<times> 'b) option" where
  "queue_run put front cont [] b = Some ([], [], b)"
| "queue_run put front cont (Put p # ops) b = do {
     (accepted, b1) \<leftarrow> put p b;
     (ps, out, b2) \<leftarrow> queue_run put front cont ops b1;
     Some (if accepted then p # ps else ps, out, b2)
   }"
| "queue_run put front cont (Remove n # ops) b = do {
     b1 \<leftarrow> front n b;
     (ps, out, b2) \<leftarrow> queue_run put front cont ops b1;
     Some (ps, take (unat n) (cont b) @ out, b2)
   }"

locale byte_queue =
  fixes inv :: "'b \<Rightarrow> bool" and cont :: "'b \<Rightarrow> byte list"
    and put :: "'p \<Rightarrow> 'b \<Rightarrow> (bool \<times> 'b) option" and front :: "u64 \<Rightarrow> 'b \<Rightarrow> 'b option"
    and bytes :: "'p \<Rightarrow> byte list" and valid :: "'p \<Rightarrow> bool" and limit :: nat
  assumes put_law: "inv b \<Longrightarrow> valid p \<Longrightarrow> length (cont b) + length (bytes p) < limit \<Longrightarrow>
      \<exists>acc b'. put p b = Some (acc, b') \<and> inv b' \<and>
        cont b' = (if acc then cont b @ bytes p else cont b)"
    and front_law: "inv b \<Longrightarrow>
      \<exists>b'. front n b = Some b' \<and> inv b' \<and> cont b' = drop (unat n) (cont b)"
begin

text \<open>Bytes come out in the order they went in: nothing is lost, repeated or reordered.\<close>

lemma fifo:
  assumes "inv b" "\<forall>p. Put p \<in> set ops \<longrightarrow> valid p"
    "length (cont b) + (\<Sum>op\<leftarrow>ops. case op of Put p \<Rightarrow> length (bytes p) | Remove _ \<Rightarrow> 0) < limit"
  shows "\<exists>ps out b'. queue_run put front cont ops b = Some (ps, out, b') \<and> inv b' \<and>
           cont b @ concat (map bytes ps) = out @ cont b'"
  using assms
proof (induction ops arbitrary: b)
  case Nil
  then show ?case by simp
next
  case (Cons op ops)
  show ?case
  proof (cases op)
    case (Put p)
    have "valid p" "length (cont b) + length (bytes p) < limit" using Cons.prems Put by auto
    with put_law [OF Cons.prems(1)] obtain acc b1 where p: "put p b = Some (acc, b1)" "inv b1"
      "cont b1 = (if acc then cont b @ bytes p else cont b)" by blast
    have "length (cont b1) + (\<Sum>op\<leftarrow>ops. case op of Put p \<Rightarrow> length (bytes p) | Remove _ \<Rightarrow> 0) < limit"
      using Cons.prems(3) Put p(3) by simp
    from Cons.IH [OF p(2) _ this] Cons.prems(2) p Put show ?thesis by (cases acc) auto
  next
    case (Remove n)
    from front_law [OF Cons.prems(1)] obtain b1 where p: "front n b = Some b1" "inv b1"
      "cont b1 = drop (unat n) (cont b)" by blast
    have "length (cont b1) + (\<Sum>op\<leftarrow>ops. case op of Put p \<Rightarrow> length (bytes p) | Remove _ \<Rightarrow> 0) < limit"
      using Cons.prems(3) Remove p(3) by simp
    moreover have "\<forall>p. Put p \<in> set ops \<longrightarrow> valid p" using Cons.prems(2) by simp
    ultimately obtain ps out b' where
      q: "queue_run put front cont ops b1 = Some (ps, out, b')" "inv b'"
      "cont b1 @ concat (map bytes ps) = out @ cont b'"
      using Cons.IH [OF p(2)] by blast
    have "cont b @ concat (map bytes ps)
        = take (unat n) (cont b) @ cont b1 @ concat (map bytes ps)"
      using p(3) by (metis append.assoc append_take_drop_id)
    with p Remove q show ?thesis by simp
  qed
qed

end

definition put_bytes :: "cenv \<Rightarrow> byte list \<Rightarrow> buffer \<Rightarrow> (bool \<times> buffer) option" where
  "put_bytes E bs buf =
     map_option (\<lambda>(r, b). (r = 0, b)) (buffer_copy E buf bs (word_of_nat (length bs)))"

definition put_pkt :: "cenv \<Rightarrow> middfs_packet \<Rightarrow> buffer \<Rightarrow> (bool \<times> buffer) option" where
  "put_pkt E p buf = map_option (\<lambda>(r, b). (0 \<le> r, b)) (buffer_serialize E (serialize_pkt p) buf)"

definition take_front :: "u64 \<Rightarrow> buffer \<Rightarrow> buffer option" where
  "take_front n buf = buffer_shift buf n"

lemma take_front_law: "buffer_ok b \<Longrightarrow>
    \<exists>b'. take_front n b = Some b' \<and> buffer_ok b' \<and> contents b' = drop (unat n) (contents b)"
  unfolding take_front_def by (erule shift_result [of _ n]) blast

interpretation bytes: byte_queue buffer_ok contents "put_bytes E" take_front "\<lambda>bs. bs"
  "\<lambda>_. True" "2 ^ 63"
proof (unfold_locales, goal_cases)
  case (1 b bs)
  let ?n = "word_of_nat (length bs) :: u64"
  have n: "unat ?n = length bs" using 1(3) by (intro unat_of_nat_u64) simp
  then have le: "unat ?n \<le> length bs" "?n \<le> PTRDIFF_MAX"
    using 1(3) by (simp_all add: word_le_nat_alt PTRDIFF_MAX_def)
  show ?case
    by (rule copy_cases [OF 1(1) le, of E]) (use 1(1) n in \<open>auto simp: put_bytes_def\<close>)
next
  case (2 b n)
  then show ?case by (rule take_front_law)
qed

interpretation pkts: byte_queue buffer_ok contents "put_pkt E" take_front enc_pkt pkt_ok "2 ^ 63"
proof (unfold_locales, goal_cases)
  case (1 b p)
  show ?case
    by (rule pkt.buffer_serialize_cases [OF 1(2,1,3), of E]) (auto simp: put_pkt_def)
next
  case (2 b n)
  then show ?case by (rule take_front_law)
qed

end
