(* ===== verification/Serial_Limits.thy ===== *)
theory Serial_Limits
  imports Buf_Laws
begin

text \<open>
  Requests that do not survive the wire. A size or an offset that does not fit into an
  \<open>int32_t\<close> arrives as another number; and a write that claims so much data that the count of
  bytes wraps around is taken for complete without any.
\<close>

lemma word_range: "(2 :: nat) ^ 64 = 18446744073709551616"
  by simp

section \<open>The head of a packet\<close>

lemma des_uint32_at:
  assumes "unat used + 4 \<le> unat nbytes" "unat nbytes \<le> length buf" "take 4 (drop (unat used) buf) = be32 x"
  shows "des_next deserialize_uint32 get put buf nbytes (used, v, 0) = Some (used + 4, put x v, 0)"
proof -
  have "holds_prefix (be32 x) (drop (unat used) buf) (sizerem nbytes used)"
    using assms by (simp add: holds_prefix_def)
  with reads_uint32 [of x, unfolded reads_from_def] obtain s where "deserialize_uint32 (drop (unat used) buf) (sizerem nbytes used) (get v) 0 = Some s"
    "rstate (be32 x) (sizerem nbytes used) (\<lambda>v'. v' = x) s"
    by blast
  moreover from this(2) assms(1) have "s = (4, x, 0)"
    by (cases s) (auto simp: rstate_def word_unat_eq_iff)
  ultimately show ?thesis by (simp add: des_next_def)
qed

lemma request_pkt_read:
  assumes "8 \<le> unat nbytes" "unat nbytes \<le> length buf" "mpkt_un v = Pkt_zero"
    "take 8 buf = be32 M @ be32 (mpkt_code MPKT_REQUEST)"
  shows "deserialize_pkt E buf nbytes v 0 =
    map_option (\<lambda>(m, r, err). des_result (8 + m,
        \<lparr>mpkt_magic = M, mpkt_type = MPKT_REQUEST, mpkt_un = Pkt_request r\<rparr>, err))
      (deserialize_request E (drop 8 buf) (sizerem nbytes 8) zero_request 0)"
proof -
  have "take 4 (take 8 buf) = be32 M" "take 4 (drop 4 (take 8 buf)) = be32 (mpkt_code MPKT_REQUEST)"
    by (simp_all add: assms(4))
  then have w: "take 4 buf = be32 M" "take 4 (drop 4 buf) = be32 (mpkt_code MPKT_REQUEST)"
    by (simp_all add: drop_take)
  have fits: "\<not> nbytes < 8" using assms(1) by (simp add: word_less_nat_alt)
  have c: "mpkt_of_code (mpkt_code MPKT_REQUEST) = MPKT_REQUEST" by (simp add: mpkt_of_code_def)
  let ?run = "deserialize_request E (drop 8 buf) (sizerem nbytes 8) zero_request 0"
  have v: "v\<lparr>mpkt_magic := M, mpkt_type := MPKT_REQUEST, mpkt_un := Pkt_request r\<rparr>
      = \<lparr>mpkt_magic = M, mpkt_type = MPKT_REQUEST, mpkt_un = Pkt_request r\<rparr>" for r
    by simp
  have "deserialize_pkt E buf nbytes v 0 = map_option des_result
      (des_next (deserialize_request E) (\<lambda>p. old_request (mpkt_un p)) (\<lambda>x p. p\<lparr>mpkt_un := Pkt_request x\<rparr>)
         buf nbytes (8, v\<lparr>mpkt_magic := M, mpkt_type := MPKT_REQUEST\<rparr>, 0))"
    using assms(1-3) w fits c by (simp add: deserialize_pkt_def des_uint32_at)
  then show ?thesis
    using assms(3)
    by (cases ?run) (auto simp: des_next_def old_request_def get_request_def v)
qed

section \<open>Sizes and offsets\<close>

text \<open>The request as it is sent.\<close>

definition narrowed :: "middfs_request \<Rightarrow> middfs_request" where
  "narrowed r = r\<lparr>mreq_size := via_int32 (mreq_size r), mreq_off := via_int32 (mreq_off r)\<rparr>"

lemma narrowed_sent:
  assumes "request_named r" "\<not> req_has_data (mreq_type r)" "length (enc_request (narrowed r)) < wire_max"
  shows "writes (serialize_request r) (enc_request (narrowed r))"
proof -
  have "serialize_request r = serialize_request (narrowed r)"
    using assms(2) by (simp add: serialize_request_def narrowed_def Let_def)
  moreover have "request_named (narrowed r)" "request_filled (narrowed r)" "request_narrow (narrowed r)"
    using assms(1,2) by (simp_all add: request_named_def request_filled_def request_narrow_def narrowed_def)
  ultimately show ?thesis using writes_request [OF _ _ _ assms(3)] by simp
qed

lemma narrowed_roundtrip:
  assumes r: "request_named r" "\<not> req_has_data (mreq_type r)"
    and len: "length (enc_request (narrowed r)) + 8 \<le> unat nbytes" "unat nbytes \<le> length buf" "unat nbytes < wire_max"
    and al: "alloc_upto E (unat nbytes)"
  shows "\<exists>m b. serialize_pkt \<lparr>mpkt_magic = M, mpkt_type = MPKT_REQUEST, mpkt_un = Pkt_request r\<rparr> buf nbytes = Some (m, b) \<and>
    deserialize_pkt E b nbytes zero_packet 0
      = Some (m, \<lparr>mpkt_magic = M, mpkt_type = MPKT_REQUEST, mpkt_un = Pkt_request (canon_request (narrowed r))\<rparr>, 0)"
proof -
  let ?r = "narrowed r" and ?e = "enc_request (narrowed r)" and ?hd = "be32 M @ be32 (mpkt_code MPKT_REQUEST)"
  let ?p = "\<lparr>mpkt_magic = M, mpkt_type = MPKT_REQUEST, mpkt_un = Pkt_request r\<rparr>"
  have "writes (serialize_request r) ?e" using len by (intro narrowed_sent r) simp
  then have "writes (serialize_struct ([serialize_uint32 M, serialize_uint32 (mpkt_code MPKT_REQUEST)] @ [serialize_request r]))
      (concat ([be32 M, be32 (mpkt_code MPKT_REQUEST)] @ [?e]))"
    using len by (intro writes_struct list_all2_appendI) (simp_all add: writes_uint32)
  then have "writes (serialize_pkt ?p) (?hd @ ?e)"
    by (simp add: serialize_pkt_def pkt_fields_def get_request_def writes_def)
  then obtain m b where ser: "serialize_pkt ?p buf nbytes = Some (m, b)" "unat m = length ?e + 8"
    "b = (?hd @ ?e) @ drop (8 + length ?e) buf"
    by (rule writesD [OF _ len(2)]) (use len(1) in \<open>auto simp: wstate_def\<close>)
  have b: "unat nbytes \<le> length b" "take 8 b = ?hd" "drop 8 b = ?e @ drop (8 + length ?e) buf"
    using ser(3) len by simp_all
  have "request_named ?r" "request_filled ?r"
    using r by (simp_all add: request_named_def request_filled_def narrowed_def)
  moreover have "length ?e < wire_max" "alloc_upto E (length ?e)"
    using len alloc_upto_mono [OF al, of "length ?e"] by simp_all
  ultimately have rd: "reads_from (\<lambda>v. v = zero_request) (deserialize_request E) ?e (canon_request ?r)"
    by (rule reads_request)
  have "holds_prefix ?e (drop 8 b) (sizerem nbytes 8)"
    using b len(1,2) by (simp add: holds_prefix_def)
  with rd [unfolded reads_from_def] obtain k where k: "deserialize_request E (drop 8 b) (sizerem nbytes 8) zero_request 0 = Some (k, canon_request ?r, 0)"
    "unat k = length ?e"
    using len(1) by (fastforce simp: rstate_def)
  have "8 + k = m" using k(2) ser(2) len by (simp add: word_unat_eq_iff unat_add_u64)
  with request_pkt_read [OF _ b(1) zero_packet_fresh b(2), of E] k(1) ser(1) len(1) show ?thesis
    by (simp add: des_result_def)
qed

section \<open>Writes without their data\<close>

definition bare_write :: "u32 \<Rightarrow> middfs_request \<Rightarrow> middfs_packet" where
  "bare_write M r = \<lparr>mpkt_magic = M, mpkt_type = MPKT_REQUEST, mpkt_un = Pkt_request (r\<lparr>mreq_data := None\<rparr>)\<rparr>"

lemma bare_write_read:
  assumes r: "mreq_type r = MREQ_WRITE" "cstr_ok (mreq_requester r)" "rsrc_ok (mreq_rsrc r)"
    and wrap: "2 ^ 64 + 8 \<le> length (enc_pkt (bare_write M r)) + unat (mreq_size r)"
    and n: "length (enc_pkt (bare_write M r)) \<le> unat nbytes" "unat nbytes \<le> length buf" "unat nbytes < wire_max"
    and al: "alloc_upto E (unat nbytes)"
    and buf: "take (length (enc_pkt (bare_write M r))) buf = enc_pkt (bare_write M r)"
  shows "\<exists>m. deserialize_pkt E buf nbytes zero_packet 0
      = Some (m, \<lparr>mpkt_magic = M, mpkt_type = MPKT_REQUEST,
                   mpkt_un = Pkt_request ((canon_request r)\<lparr>mreq_data := None\<rparr>)\<rparr>, 0) \<and>
    unat m + 2 ^ 64 = length (enc_pkt (bare_write M r)) + unat (mreq_size r)"
proof -
  let ?r = "r\<lparr>mreq_data := None\<rparr>" and ?hd = "be32 M @ be32 (mpkt_code MPKT_REQUEST)"
  let ?e2 = "concat (request_shared_bytes ?r) @ concat (request_specific_bytes ?r)"
  have w: "req_has_data (mreq_type r)" "req_has_size (mreq_type r)"
    using r(1) by (simp_all add: req_has_data_def req_has_size_def)
  have e: "enc_request ?r = ?e2"
    by (simp add: enc_request_split request_data_bytes_def block_bytes_def)
  have pe: "enc_pkt (bare_write M r) = ?hd @ enc_request ?r"
    by (simp add: bare_write_def enc_pkt_def pkt_body_def old_request_def get_request_def)
  let ?k = "length (enc_request ?r)"
  have len: "length (enc_pkt (bare_write M r)) = ?k + 8" unfolding pe by simp
  have take8: "take 8 buf = ?hd"
    using arg_cong [OF buf, of "take 8"] unfolding len pe by (simp add: min_def)
  have "drop 8 (take (?k + 8) buf) = drop 8 (?hd @ enc_request ?r)" using buf unfolding len unfolding pe by simp
  then have rest: "take ?k (drop 8 buf) = enc_request ?r" by (simp add: drop_take)
  have "holds_prefix (enc_request ?r) (drop 8 buf) (sizerem nbytes 8)"
    using rest n len by (simp add: holds_prefix_def)
  moreover have "request_named ?r"
    using r by (simp add: request_named_def mreq_ok_def mreq_of_code_def req_has_to_def)
  moreover have "?k < wire_max" "alloc_upto E ?k" using n len alloc_upto_mono [OF al, of ?k] by simp_all
  ultimately obtain used where used: "unat used = ?k"
    "deserialize_request E (drop 8 buf) (sizerem nbytes 8) zero_request 0
      = deserialize_req_data E (drop 8 buf) (sizerem nbytes 8) (used, (canon_request ?r)\<lparr>mreq_data := None\<rparr>, 0)"
    using n len w(1) by (elim request_header_read [OF _ _ _ _ refl, where Q = "\<lambda>_. True"]) (auto simp: e)
  have canon: "(canon_request ?r)\<lparr>mreq_data := None\<rparr> = (canon_request r)\<lparr>mreq_data := None\<rparr>"
    "mreq_size ((canon_request r)\<lparr>mreq_data := None\<rparr>) = mreq_size r"
    using w(2) by (simp_all add: canon_request_def Let_def)
  have sum: "2 ^ 64 \<le> ?k + unat (mreq_size r)" using wrap unfolding len by simp
  then have "\<not> mreq_size r \<le> sizerem (sizerem nbytes 8) used"
    using n(1,3) len used(1) by (simp add: word_le_nat_alt)
  then have run: "deserialize_request E (drop 8 buf) (sizerem nbytes 8) zero_request 0
      = Some (used + mreq_size r, (canon_request r)\<lparr>mreq_data := None\<rparr>, 0)"
    using used(2) canon by (simp add: deserialize_req_data_def des_result_def)
  have u: "unat (used + mreq_size r) + 2 ^ 64 = ?k + unat (mreq_size r)"
    using sum used(1) by (simp add: unat_plus_if')
  have "unat (used + mreq_size r) < ?k"
    using u unat_u64_less [of "mreq_size r"] unfolding word_range by linarith
  then have "unat (8 + (used + mreq_size r)) = 8 + unat (used + mreq_size r)"
    using n(3) len n(1) by (intro trans [OF unat_add_u64]) simp_all
  with u request_pkt_read [OF _ n(2) zero_packet_fresh take8, of E] run n(1) len show ?thesis
    by (intro exI [of _ "8 + (used + mreq_size r)"]) (simp add: des_result_def)
qed

lemma bare_write_taken:
  assumes r: "mreq_type r = MREQ_WRITE" "cstr_ok (mreq_requester r)" "rsrc_ok (mreq_rsrc r)"
    and wrap: "2 ^ 64 + 8 \<le> length (enc_pkt (bare_write M r)) + unat (mreq_size r)"
    and b: "buffer_ok buf" "contents buf = enc_pkt (bare_write M r) @ rest" "length (contents buf) < wire_max"
    and al: "alloc_upto E (length (contents buf))"
  shows "\<exists>buf'. buffer_deserialize (deserialize_pkt E) zero_packet buf
      = Some (0, \<lparr>mpkt_magic = M, mpkt_type = MPKT_REQUEST,
                  mpkt_un = Pkt_request ((canon_request r)\<lparr>mreq_data := None\<rparr>)\<rparr>, buf') \<and>
    buffer_ok buf' \<and>
    contents buf' = drop (length (enc_pkt (bare_write M r)) + unat (mreq_size r) - 2 ^ 64) (contents buf)"
proof -
  let ?e = "enc_pkt (bare_write M r)"
  obtain m where m: "block_mem (buf_begin buf) = Some m" "unat (buf_ptr buf) \<le> length m"
    "contents buf = take (unat (buf_ptr buf)) m"
    by (rule buffer_ok_mem [OF b(1)])
  have len: "length (contents buf) = unat (buffer_used buf)" by (rule length_contents [OF b(1)])
  have n: "length ?e \<le> unat (buffer_used buf)" "unat (buffer_used buf) \<le> length m" "unat (buffer_used buf) < wire_max"
    using len b(2,3) m(2) by (simp_all add: buffer_used_def)
  have "take (length ?e) (contents buf) = ?e" by (simp add: b(2))
  then have "take (length ?e) (take (unat (buf_ptr buf)) m) = ?e" by (simp only: m(3))
  then have tk: "take (length ?e) m = ?e" using n(1) by (simp add: buffer_used_def min_def)
  obtain k where k: "deserialize_pkt E m (buffer_used buf) zero_packet 0
      = Some (k, \<lparr>mpkt_magic = M, mpkt_type = MPKT_REQUEST,
                   mpkt_un = Pkt_request ((canon_request r)\<lparr>mreq_data := None\<rparr>)\<rparr>, 0)"
    "unat k + 2 ^ 64 = length ?e + unat (mreq_size r)"
    using bare_write_read [OF r wrap n _ tk] al len by auto
  have "unat k < length ?e"
    using k(2) unat_u64_less [of "mreq_size r"] unfolding word_range by linarith
  then have le: "k \<le> buffer_used buf" using n(1) by (simp add: word_le_nat_alt)
  obtain buf' where "buffer_shift buf k = Some buf'" "buffer_ok buf'" "contents buf' = drop (unat k) (contents buf)"
    by (rule shift_result [OF b(1)])
  moreover have "unat k = length ?e + unat (mreq_size r) - 2 ^ 64" using k(2) by simp
  ultimately show ?thesis using k(1) m(1) le by (simp add: buffer_deserialize_def)
qed

end
