(* ===== verification/Serial_Properties.thy ===== *)
theory Serial_Properties
  imports Serial_Accept Serial_Limits "HOL-Library.Sublist"
begin

text \<open>
  The properties of the serialisation functions and of the packet buffer, each with a witness
  at a concrete packet.
\<close>

section \<open>A packet to try things on\<close>

definition good_env :: cenv where
  "good_env = \<lparr>can_alloc = \<lambda>_. True, indet32 = \<lambda>_. 0, indet_byte = \<lambda>_. 0, can_put = \<lambda>_. True\<rparr>"

definition sample_rsrc :: rsrc where
  "sample_rsrc = \<lparr>mr_owner = Some ''bob'', mr_path = Some ''/f''\<rparr>"

definition sample_write :: middfs_request where
  "sample_write =
     zero_request\<lparr>mreq_type := MREQ_WRITE, mreq_requester := Some ''amy'',
       mreq_rsrc := sample_rsrc, mreq_size := 2, mreq_off := 3, mreq_data := Some [7, 8]\<rparr>"

definition sample_pkt :: middfs_packet where
  "sample_pkt =
     \<lparr>mpkt_magic = MPKT_MAGIC, mpkt_type = MPKT_REQUEST, mpkt_un = Pkt_request sample_write\<rparr>"

lemmas sample_defs = sample_pkt_def sample_write_def sample_rsrc_def zero_request_def
  zero_rsrc_def

lemma sample_request [simp]:
  "mpkt_type sample_pkt = MPKT_REQUEST" "mpkt_un sample_pkt = Pkt_request sample_write"
  "old_request (Pkt_request sample_write) = sample_write"
  by (simp_all add: sample_pkt_def union_simps)

lemma sample_enc:
  "enc_pkt sample_pkt =
     [0, 0, 7, 8, 0, 0, 0, 3, 0, 0, 0, 14, 97, 109, 121, 0, 98, 111, 98, 0, 47, 102, 0,
      0, 0, 0, 0, 0, 0, 0, 2, 0, 0, 0, 0, 0, 0, 0, 3, 7, 8]"
  by code_simp

lemma sample_write_ok: "request_ok sample_write"
  by (simp add: request_ok_def Let_def sample_write_def sample_rsrc_def zero_request_def mreq_ok_def
      mreq_of_code_def cstr_ok_def str_ok_def rsrc_ok_def block_ok_def req_has_size_def
      req_has_to_def req_has_off_def)

lemma sample_ok [simp]: "pkt_ok sample_pkt" "alloc_for good_env sample_pkt"
proof -
  show "pkt_ok sample_pkt"
    using sample_write_ok
    by (simp add: pkt_ok_def sample_enc mpkt_ok_def mpkt_of_code_def get_request_def)
  show "alloc_for good_env sample_pkt" by (simp add: alloc_for_def alloc_upto_def good_env_def)
qed

lemma length_sample_enc [simp]: "length (enc_pkt sample_pkt) = 41"
  by (simp add: sample_enc)

section \<open>Serialising and deserialising packets\<close>

text \<open>C10: Round trip. A well-formed packet serialised into a block that is large enough reads
  back, into a zeroed packet and with no error, as the same packet: every field the packet's
  type carries on the wire is preserved (\<open>canon_pkt\<close> clears the others), and both directions
  report the same number of bytes.\<close>

theorem packet_roundtrip:
  assumes "pkt_ok p" "alloc_for E p" "length (enc_pkt p) \<le> unat nbytes"
    "unat nbytes \<le> length buf"
  shows "\<exists>m b. serialize_pkt p buf nbytes = Some (m, b) \<and>
           deserialize_pkt E b nbytes zero_packet 0 = Some (m, canon_pkt p, 0)"
  by (rule pkt.roundtrip [OF assms(1,2) zero_packet_fresh assms(3,4)])

theorem packet_roundtrip_witness:
  "\<exists>m b. serialize_pkt sample_pkt (replicate 50 0) 50 = Some (m, b) \<and>
     deserialize_pkt good_env b 50 zero_packet 0 = Some (m, canon_pkt sample_pkt, 0)"
  by (rule packet_roundtrip) simp_all

text \<open>C29: The contract of the serialisers on a well-formed packet. The function always returns;
  if the encoding fits it is written at the start of the block and its length reported,
  otherwise more than \<open>nbytes\<close> (and no more than the true length) is reported; in both cases
  the memory past \<open>nbytes\<close> is untouched.\<close>

theorem serialize_pkt_contract:
  assumes "pkt_ok p" "unat nbytes \<le> length buf"
  shows "\<exists>m b. serialize_pkt p buf nbytes = Some (m, b) \<and> length b = length buf \<and>
    drop (unat nbytes) b = drop (unat nbytes) buf \<and> unat m \<le> length (enc_pkt p) \<and>
    (if length (enc_pkt p) \<le> unat nbytes
     then unat m = length (enc_pkt p) \<and> b = enc_pkt p @ drop (length (enc_pkt p)) buf
     else unat nbytes < unat m)"
  by (rule pkt.ser_result [OF assms]) (auto simp: not_le)

theorem serialize_pkt_contract_witness:
  "\<exists>m b. serialize_pkt sample_pkt (replicate 50 0) 20 = Some (m, b) \<and> length b = 50 \<and>
     drop 20 b = replicate 30 0 \<and> unat m \<le> 41 \<and> 20 < unat m"
  using serialize_pkt_contract [OF sample_ok(1), of 20 "replicate 50 0"] by simp

text \<open>C24: Incremental reading. From any proper prefix of a packet's encoding, however short,
  \<open>deserialize_pkt\<close> reports no error and asks for more bytes than it was given.\<close>

theorem deserialize_pkt_incremental:
  assumes "pkt_ok p" "alloc_for E p" "unat nbytes < length (enc_pkt p)"
    "unat nbytes \<le> length buf" "take (unat nbytes) buf = take (unat nbytes) (enc_pkt p)"
  shows "\<exists>m p'. deserialize_pkt E buf nbytes zero_packet 0 = Some (m, p', 0) \<and>
           nbytes < m \<and> unat m \<le> 2 * length (enc_pkt p)"
  by (rule pkt.des_partial [OF assms(1,2) zero_packet_fresh assms(3-5)])
    (simp add: word_less_nat_alt)

theorem deserialize_pkt_incremental_witness:
  "\<exists>m p'. deserialize_pkt good_env (take 30 (enc_pkt sample_pkt)) 30 zero_packet 0
     = Some (m, p', 0) \<and> 30 < m \<and> unat m \<le> 2 * length (enc_pkt sample_pkt)"
  by (rule deserialize_pkt_incremental) simp_all

section \<open>Memory safety on any input\<close>

text \<open>C31: No serialisation writes past its buffer: whatever the packet, well-formed or not, and
  whatever the size given, memory past \<open>nbytes\<close> keeps its contents.\<close>

theorem serialize_pkt_in_bounds:
  assumes "unat nbytes \<le> length buf" "serialize_pkt p buf nbytes = Some (m, b)"
  shows "length b = length buf \<and> drop (unat nbytes) b = drop (unat nbytes) buf"
  using framedD [OF framed_pkt assms(2)] assms(1) by simp

theorem serialize_pkt_in_bounds_witness:
  "\<exists>m b. serialize_pkt zero_packet [1, 2, 3, 4, 5] 5 = Some (m, b) \<and> length b = 5 \<and>
     drop 5 b = []"
proof -
  have "serialize_pkt zero_packet [1, 2, 3, 4, 5] 5 = Some (8, [0, 0, 0, 0, 5])" by code_simp
  moreover from serialize_pkt_in_bounds [OF _ this] have "drop 5 [0, 0, 0, 0, 5 :: byte] = []"
    by simp
  ultimately show ?thesis by simp
qed

text \<open>C30: Memory safety of reading untrusted bytes. On any \<open>nbytes\<close> bytes whatever,
  \<open>deserialize_pkt\<close> reads nothing outside them and the process survives, with one exception,
  which a remote peer controls: a response packet whose response type is not one of the five
  known ones reaches the \<open>abort()\<close> in \<open>deserialize_rsp\<close>.\<close>

theorem deserialize_pkt_stops_iff:
  assumes "unat nbytes \<le> length buf"
  shows "deserialize_pkt E buf nbytes zero_packet 0 = None \<longleftrightarrow>
           12 \<le> unat nbytes \<and> word_at buf 4 = mpkt_code MPKT_RESPONSE \<and>
           \<not> known_response (word_at buf 8)"
  by (rule pkt_none_iff [OF assms zero_packet_fresh])

theorem deserialize_pkt_stops_iff_witness:
  "deserialize_pkt good_env [0, 0, 7, 8, 0, 0, 0, 4, 0, 0, 0, 9] 12 zero_packet 0 = None"
  by (subst deserialize_pkt_stops_iff) (simp_all add: word_at_def unbe32_def known_response_def)

section \<open>Sizes and offsets on the wire\<close>

text \<open>C38: Sizes and offsets do not survive the wire. A request other than a write is received
  with the low 32 bits of its size and offset, sign-extended, in place of the numbers it was
  sent with, because \<open>serialize_request\<close> casts them to \<open>int32_t\<close>; everything else in it, and what the
  functions report, is as it should be.\<close>

theorem serialize_request_truncates:
  assumes "request_named r" "mreq_type r \<noteq> MREQ_WRITE"
    "length (enc_request (narrowed r)) + 8 \<le> unat nbytes" "unat nbytes \<le> length buf"
    "unat nbytes < wire_max" "alloc_upto E (unat nbytes)"
  shows "\<exists>m b q. serialize_pkt \<lparr>mpkt_magic = M, mpkt_type = MPKT_REQUEST, mpkt_un = Pkt_request r\<rparr> buf nbytes = Some (m, b) \<and>
    deserialize_pkt E b nbytes zero_packet 0
      = Some (m, \<lparr>mpkt_magic = M, mpkt_type = MPKT_REQUEST, mpkt_un = Pkt_request q\<rparr>, 0) \<and>
    (req_has_size (mreq_type r) \<longrightarrow> mreq_size q = scast (ucast (mreq_size r) :: u32)) \<and>
    (req_has_off (mreq_type r) \<longrightarrow> mreq_off q = scast (ucast (mreq_off r) :: u32)) \<and>
    (let t = mreq_type r in
     mreq_type q = t \<and> mreq_requester q = mreq_requester r \<and> mreq_rsrc q = mreq_rsrc r \<and>
     (req_has_mode t \<longrightarrow> mreq_mode q = mreq_mode r) \<and> (req_has_to t \<longrightarrow> mreq_to q = mreq_to r))"
proof -
  have "\<not> req_has_data (mreq_type r)" using assms(2) by (simp add: req_has_data_def)
  from narrowed_roundtrip [OF assms(1) this assms(3-6), of M] obtain m b where
    "serialize_pkt \<lparr>mpkt_magic = M, mpkt_type = MPKT_REQUEST, mpkt_un = Pkt_request r\<rparr> buf nbytes = Some (m, b)"
    "deserialize_pkt E b nbytes zero_packet 0
      = Some (m, \<lparr>mpkt_magic = M, mpkt_type = MPKT_REQUEST, mpkt_un = Pkt_request (canon_request (narrowed r))\<rparr>, 0)"
    by blast
  then show ?thesis
    by (intro exI [of _ m] exI [of _ b] exI [of _ "canon_request (narrowed r)"])
      (simp add: canon_request_def narrowed_def via_int32_def Let_def)
qed

definition far_read :: middfs_request where
  "far_read = zero_request\<lparr>mreq_type := MREQ_READ, mreq_requester := Some ''amy'', mreq_rsrc := sample_rsrc,
     mreq_size := 0x180000005, mreq_off := 0x300000007\<rparr>"

theorem serialize_request_truncates_witness:
  "\<exists>m b q. serialize_pkt \<lparr>mpkt_magic = MPKT_MAGIC, mpkt_type = MPKT_REQUEST, mpkt_un = Pkt_request far_read\<rparr>
      (replicate 50 0) 50 = Some (m, b) \<and>
    deserialize_pkt good_env b 50 zero_packet 0
      = Some (m, \<lparr>mpkt_magic = MPKT_MAGIC, mpkt_type = MPKT_REQUEST, mpkt_un = Pkt_request q\<rparr>, 0) \<and>
    mreq_size q = 0xFFFFFFFF80000005 \<and> mreq_off q = 7"
proof -
  have len: "length (enc_request (narrowed far_read)) = 31" by code_simp
  have w: "scast (ucast (0x180000005 :: u64) :: u32) = (0xFFFFFFFF80000005 :: u64)"
    "scast (ucast (0x300000007 :: u64) :: u32) = (7 :: u64)"
    by code_simp+
  have r: "request_named far_read"
    by (simp add: far_read_def request_named_def zero_request_def mreq_ok_def mreq_of_code_def
        cstr_ok_def str_ok_def rsrc_ok_def sample_rsrc_def req_has_to_def)
  have f: "mreq_type far_read = MREQ_READ" "mreq_size far_read = 0x180000005" "mreq_off far_read = 0x300000007"
    by (simp_all add: far_read_def)
  have "mreq_type far_read \<noteq> MREQ_WRITE" "length (enc_request (narrowed far_read)) + 8 \<le> unat (50 :: u64)"
    "unat (50 :: u64) \<le> length (replicate 50 (0 :: byte))" "unat (50 :: u64) < wire_max" "alloc_upto good_env (unat (50 :: u64))"
    unfolding len f by (simp_all add: alloc_upto_def good_env_def)
  from serialize_request_truncates [OF r this, of MPKT_MAGIC] obtain m b q where
    "serialize_pkt \<lparr>mpkt_magic = MPKT_MAGIC, mpkt_type = MPKT_REQUEST, mpkt_un = Pkt_request far_read\<rparr>
      (replicate 50 0) 50 = Some (m, b)"
    "deserialize_pkt good_env b 50 zero_packet 0
      = Some (m, \<lparr>mpkt_magic = MPKT_MAGIC, mpkt_type = MPKT_REQUEST, mpkt_un = Pkt_request q\<rparr>, 0)"
    "mreq_size q = scast (ucast (mreq_size far_read) :: u32)" "mreq_off q = scast (ucast (mreq_off far_read) :: u32)"
    unfolding f(1) by (auto simp: req_has_size_def req_has_off_def)
  then show ?thesis unfolding f(2,3) w by blast
qed

text \<open>C39: A write request whose declared size makes the 64-bit count wrap around is accepted
  without its data: \<open>used += size\<close> comes out below the bytes already read, so
  \<open>buffer_deserialize\<close> returns 0 with a packet whose data pointer is null, although its size
  claims far more than was received, and takes only the wrapped count of bytes off the buffer.\<close>

theorem write_size_wraps:
  assumes "mreq_type r = MREQ_WRITE" "cstr_ok (mreq_requester r)" "rsrc_ok (mreq_rsrc r)"
    "2 ^ 64 + 8 \<le> length (enc_pkt (bare_write M r)) + unat (mreq_size r)"
    "buffer_ok buf" "contents buf = enc_pkt (bare_write M r) @ rest" "length (contents buf) < wire_max"
    "alloc_upto E (length (contents buf))"
  shows "\<exists>p req buf'. buffer_deserialize (deserialize_pkt E) zero_packet buf = Some (0, p, buf') \<and>
    mpkt_type p = MPKT_REQUEST \<and> get_request (mpkt_un p) = Some req \<and>
    mreq_type req = MREQ_WRITE \<and> mreq_size req = mreq_size r \<and> mreq_data req = None \<and>
    buffer_ok buf' \<and>
    contents buf' = drop (length (enc_pkt (bare_write M r)) + unat (mreq_size r) - 2 ^ 64) (contents buf)"
  using bare_write_taken [OF assms] assms(1)
  by (auto simp: get_request_def canon_request_def Let_def req_has_size_def)

text \<open>
  A write of 2 to the 64 minus 31 bytes by amy to bob's file, in 39 bytes: the packet is taken
  for the first 8 of them.
\<close>

definition huge_write :: middfs_request where
  "huge_write = sample_write\<lparr>mreq_size := 0xFFFFFFFFFFFFFFE1\<rparr>"

definition huge_arrival :: buffer where
  "huge_arrival =
     \<lparr>buf_begin = Live [0, 0, 7, 8, 0, 0, 0, 3, 0, 0, 0, 14, 97, 109, 121, 0, 98, 111, 98, 0, 47, 102, 0,
        255, 255, 255, 255, 255, 255, 255, 225, 0, 0, 0, 0, 0, 0, 0, 3], buf_ptr = 39, buf_end = 39\<rparr>"

theorem write_size_wraps_witness:
  "\<exists>p req buf'. buffer_deserialize (deserialize_pkt good_env) zero_packet huge_arrival = Some (0, p, buf') \<and>
    get_request (mpkt_un p) = Some req \<and> mreq_type req = MREQ_WRITE \<and>
    mreq_size req = 0xFFFFFFFFFFFFFFE1 \<and> mreq_data req = None \<and> length (contents buf') = 31"
proof -
  have c: "contents huge_arrival = enc_pkt (bare_write MPKT_MAGIC huge_write) @ []"
    "length (enc_pkt (bare_write MPKT_MAGIC huge_write)) = 39" "length (contents huge_arrival) = 39"
    "unat (mreq_size huge_write) = 18446744073709551585"
  proof -
    have e: "enc_pkt (bare_write MPKT_MAGIC huge_write) =
        [0, 0, 7, 8, 0, 0, 0, 3, 0, 0, 0, 14, 97, 109, 121, 0, 98, 111, 98, 0, 47, 102, 0,
        255, 255, 255, 255, 255, 255, 255, 225, 0, 0, 0, 0, 0, 0, 0, 3]"
      by code_simp
    show "contents huge_arrival = enc_pkt (bare_write MPKT_MAGIC huge_write) @ []"
      by (simp add: e huge_arrival_def contents_def block_mem_def)
    show "length (enc_pkt (bare_write MPKT_MAGIC huge_write)) = 39" by (simp add: e)
    show "length (contents huge_arrival) = 39" by (simp add: huge_arrival_def contents_def block_mem_def)
    show "unat (mreq_size huge_write) = 18446744073709551585" by (simp add: huge_write_def)
  qed
  have size: "mreq_size huge_write = 0xFFFFFFFFFFFFFFE1" by (simp add: huge_write_def)
  have ok: "buffer_ok huge_arrival" by (simp add: huge_arrival_def buffer_ok_def PTRDIFF_MAX_def)
  have r: "mreq_type huge_write = MREQ_WRITE" "cstr_ok (mreq_requester huge_write)" "rsrc_ok (mreq_rsrc huge_write)"
    by (simp_all add: huge_write_def sample_write_def sample_rsrc_def cstr_ok_def str_ok_def rsrc_ok_def)
  have "2 ^ 64 + 8 \<le> length (enc_pkt (bare_write MPKT_MAGIC huge_write)) + unat (mreq_size huge_write)"
    "length (contents huge_arrival) < wire_max" "alloc_upto good_env (length (contents huge_arrival))"
    unfolding c(2-4) by (simp_all add: alloc_upto_def good_env_def)
  from write_size_wraps [OF r this(1) ok c(1) this(2,3)] obtain p req buf' where
    "buffer_deserialize (deserialize_pkt good_env) zero_packet huge_arrival = Some (0, p, buf')"
    "get_request (mpkt_un p) = Some req" "mreq_type req = MREQ_WRITE" "mreq_size req = mreq_size huge_write"
    "mreq_data req = None"
    "contents buf' = drop (length (enc_pkt (bare_write MPKT_MAGIC huge_write)) + unat (mreq_size huge_write) - 2 ^ 64)
       (contents huge_arrival)"
    by blast
  then show ?thesis unfolding c(2,4) using c(3) size by (intro exI [of _ p] exI [of _ req] exI [of _ buf']) simp
qed

section \<open>Packets through a buffer\<close>

text \<open>C32: \<open>buffer_serialize\<close> always returns, for all its loop that runs until the packet fits.
  Either the whole encoding of the packet is appended to the contents and its length
  returned, or a reallocation failed, -1 is returned and the contents are as before.\<close>

theorem buffer_serialize_total:
  assumes "pkt_ok p" "buffer_ok buf" "length (contents buf) + length (enc_pkt p) < 2 ^ 63"
  shows "\<exists>r buf'. buffer_serialize E (serialize_pkt p) buf = Some (r, buf') \<and> buffer_ok buf' \<and>
    (r = int (length (enc_pkt p)) \<and> contents buf' = contents buf @ enc_pkt p \<or>
     r = -1 \<and> contents buf' = contents buf)"
  by (rule pkt.buffer_serialize_cases [OF assms, of E]) auto

theorem buffer_serialize_total_witness:
  "\<exists>r buf'. buffer_serialize good_env (serialize_pkt sample_pkt) buffer_init = Some (r, buf') \<and>
     buffer_ok buf' \<and> (r = 41 \<and> contents buf' = enc_pkt sample_pkt \<or> r = -1 \<and> contents buf' = [])"
  using buffer_serialize_total [of sample_pkt buffer_init good_env] by simp

text \<open>C23: \<open>buffer_deserialize\<close> takes exactly one packet off the front of a buffer that holds a
  whole one, and leaves the bytes after it; while the packet is incomplete it returns 1 and the
  buffer is unchanged.\<close>

theorem buffer_deserialize_packet:
  assumes "pkt_ok p" "alloc_for E p" "buffer_ok buf" "contents buf @ missing = enc_pkt p @ rest"
    "missing = [] \<or> rest = []"
  shows "\<exists>r p' buf'. buffer_deserialize (deserialize_pkt E) zero_packet buf = Some (r, p', buf') \<and>
    (if length (enc_pkt p) \<le> length (contents buf)
     then r = 0 \<and> p' = canon_pkt p \<and> buffer_ok buf' \<and> contents buf' = rest
     else r = 1 \<and> buf' = buf)"
proof (cases "length (enc_pkt p) \<le> length (contents buf)")
  case True
  have c: "contents buf = enc_pkt p @ rest"
    using assms(4,5) True by (auto simp: append_eq_append_conv2 append_eq_conv_conj)
  show ?thesis
    by (rule pkt.buffer_deserialize_complete [OF assms(1,2) zero_packet_fresh assms(3) c])
      (use True in auto)
next
  case False
  then have "missing \<noteq> []" using arg_cong [OF assms(4), of length] by auto
  with assms(4,5) have c: "enc_pkt p = contents buf @ missing" by simp
  show ?thesis
    by (rule pkt.buffer_deserialize_partial
        [OF assms(1,2) zero_packet_fresh assms(3) c \<open>missing \<noteq> []\<close>])
      (use False in auto)
qed

theorem buffer_deserialize_packet_witness:
  "\<exists>r p' buf'. buffer_deserialize (deserialize_pkt good_env) zero_packet
       \<lparr>buf_begin = Live (enc_pkt sample_pkt @ [5, 6]), buf_ptr = 42, buf_end = 43\<rparr>
     = Some (r, p', buf') \<and> r = 0 \<and> p' = canon_pkt sample_pkt \<and> contents buf' = [5]"
proof -
  let ?b = "\<lparr>buf_begin = Live (enc_pkt sample_pkt @ [5, 6]), buf_ptr = 42, buf_end = 43\<rparr>"
  have "buffer_ok ?b" by (simp add: buffer_ok_def PTRDIFF_MAX_def)
  moreover have "contents ?b = enc_pkt sample_pkt @ [5]" by (simp add: contents_def block_mem_def)
  ultimately show ?thesis
    using buffer_deserialize_packet [OF sample_ok, of ?b "[]" "[5]"] by auto
qed

text \<open>C11: Nothing but encodings is accepted. Whatever bytes a peer has sent, when
  \<open>buffer_deserialize\<close> returns a packet (0), the packet is well-formed and in the form a receiver
  gets, and the bytes taken off the buffer are exactly its encoding. The counts it declares
  must not be larger than the code can send (\<open>write_size_wraps\<close> shows what happens beyond).\<close>

theorem received_is_encoding:
  assumes "buffer_ok buf" "length (contents buf) < wire_max"
    "buffer_deserialize (deserialize_pkt E) zero_packet buf = Some (0, p, buf')" "counts_small p"
  shows "pkt_ok p \<and> canon_pkt p = p \<and> buffer_ok buf' \<and> contents buf = enc_pkt p @ contents buf'"
proof -
  obtain m where m: "block_mem (buf_begin buf) = Some m" "unat (buf_ptr buf) \<le> length m"
    "contents buf = take (unat (buf_ptr buf)) m"
    by (rule buffer_ok_mem [OF assms(1)])
  have len: "length (contents buf) = unat (buffer_used buf)" by (rule length_contents [OF assms(1)])
  from assms(3) m(1) obtain k where k: "deserialize_pkt E m (buffer_used buf) zero_packet 0 = Some (k, p, 0)"
    "k \<le> buffer_used buf" "buffer_shift buf k = Some buf'"
    by (auto simp: buffer_deserialize_def bind_Some_iff Let_def split: if_splits)
  have n: "unat (buffer_used buf) \<le> length m" using m(2) by (simp add: buffer_used_def)
  have enc: "pkt_ok p \<and> canon_pkt p = p \<and> enc_pkt p = take (unat k) m"
    using received_canonical [OF k(1) n _ k(2) assms(4)] assms(2) len by simp
  have "unat k \<le> unat (buf_ptr buf)" using k(2) by (simp add: buffer_used_def word_le_nat_alt)
  then have "take (unat k) m = take (unat k) (contents buf)" unfolding m(3) by (simp add: min_absorb1)
  moreover obtain b where "buffer_shift buf k = Some b" "buffer_ok b" "contents b = drop (unat k) (contents buf)"
    by (rule shift_result [OF assms(1)])
  ultimately show ?thesis using enc k(3) by simp
qed

text \<open>A CONNECT packet with a magic number of 0, followed by one more byte.\<close>

definition sample_arrival :: buffer where
  "sample_arrival =
     \<lparr>buf_begin = Live [0, 0, 0, 0, 0, 0, 0, 1, 0, 0, 16, 225, 97, 109, 121, 0, 9], buf_ptr = 17, buf_end = 17\<rparr>"

theorem received_is_encoding_witness:
  "\<exists>p buf'. buffer_deserialize (deserialize_pkt good_env) zero_packet sample_arrival = Some (0, p, buf') \<and>
     mpkt_type p = MPKT_CONNECT \<and> pkt_ok p \<and> contents sample_arrival = enc_pkt p @ [9]"
proof -
  let ?run = "buffer_deserialize (deserialize_pkt good_env) zero_packet sample_arrival"
  have "map_option (\<lambda>(r, p, buf'). (r, mpkt_type p, contents buf')) ?run = Some (0, MPKT_CONNECT, [9])"
    by code_simp
  then obtain p buf' where run: "?run = Some (0, p, buf')" "mpkt_type p = MPKT_CONNECT" "contents buf' = [9]"
    by auto
  have "buffer_ok sample_arrival" "length (contents sample_arrival) < wire_max"
    by (simp_all add: sample_arrival_def buffer_ok_def contents_def block_mem_def PTRDIFF_MAX_def)
  from received_is_encoding [OF this run(1)] run show ?thesis by (simp add: counts_small_def)
qed

text \<open>
  The packets ps queued one after another, with no reallocation failing; and what comes out of a
  buffer when \<open>buffer_deserialize\<close> is called, at most n times, until it returns no packet.
\<close>

fun send_all :: "cenv \<Rightarrow> middfs_packet list \<Rightarrow> buffer \<Rightarrow> buffer option" where
  "send_all E [] buf = Some buf"
| "send_all E (p # ps) buf = do {
     (r, buf1) \<leftarrow> buffer_serialize E (serialize_pkt p) buf;
     if r < 0 then None else send_all E ps buf1
   }"

fun receive_all :: "cenv \<Rightarrow> nat \<Rightarrow> buffer \<Rightarrow> (middfs_packet list \<times> buffer) option" where
  "receive_all E 0 buf = None"
| "receive_all E (Suc n) buf = do {
     (r, p, buf1) \<leftarrow> buffer_deserialize (deserialize_pkt E) zero_packet buf;
     if r = 0 then do { (ps, buf2) \<leftarrow> receive_all E n buf1; Some (p # ps, buf2) }
     else if r = 1 then Some ([], buf1)
     else None
   }"

lemma send_all_contents:
  assumes "list_all pkt_ok ps" "buffer_ok buf" "length (contents buf) + length (concat (map enc_pkt ps)) < 2 ^ 63"
    "send_all E ps buf = Some sent"
  shows "contents sent = contents buf @ concat (map enc_pkt ps)"
  using assms
proof (induction ps arbitrary: buf)
  case (Cons p ps)
  have p: "pkt_ok p" "length (contents buf) + length (enc_pkt p) < 2 ^ 63" using Cons.prems(1,3) by simp_all
  show ?case
  proof (rule pkt.buffer_serialize_cases [OF p(1) Cons.prems(2) p(2), of E])
    fix b assume "buffer_serialize E (serialize_pkt p) buf = Some (int (length (enc_pkt p)), b)" "buffer_ok b"
      "contents b = contents buf @ enc_pkt p"
    with Cons.IH [of b] Cons.prems show ?thesis by simp
  qed (use Cons.prems(4) in simp)
qed simp

lemma receive_nothing:
  assumes "buffer_ok buf" "contents buf = []"
  shows "\<exists>v. buffer_deserialize (deserialize_pkt E) zero_packet buf = Some (1, v, buf)"
proof -
  obtain m where m: "block_mem (buf_begin buf) = Some m" by (rule buffer_ok_mem [OF assms(1)])
  have "buffer_used buf = 0" using length_contents [OF assms(1)] assms(2) by (simp add: unat_eq_0)
  with m show ?thesis
    by (simp add: buffer_deserialize_def deserialize_pkt_def des_next_def deserialize_uint32_def)
qed

lemma receive_prefix:
  assumes "list_all (\<lambda>p. pkt_ok p \<and> alloc_for E p) ps" "buffer_ok buf"
    "prefix (contents buf) (concat (map enc_pkt ps))" "length ps < n"
  shows "\<exists>k buf'. k \<le> length ps \<and> receive_all E n buf = Some (map canon_pkt (take k ps), buf') \<and>
    contents buf = concat (map enc_pkt (take k ps)) @ contents buf' \<and>
    (if k < length ps then length (contents buf') < length (enc_pkt (ps ! k)) else contents buf' = [])"
  using assms
proof (induction ps arbitrary: buf n)
  case Nil
  then obtain n' v where "n = Suc n'" "buffer_deserialize (deserialize_pkt E) zero_packet buf = Some (1, v, buf)"
    using receive_nothing [of buf E] by (cases n) auto
  with Nil show ?case by auto
next
  case (Cons p ps)
  obtain n' where n: "n = Suc n'" "length ps < n'" using Cons.prems(4) by (cases n) auto
  have p: "pkt_ok p" "alloc_for E p" using Cons.prems(1) by simp_all
  obtain t where t: "enc_pkt p @ concat (map enc_pkt ps) = contents buf @ t"
    using Cons.prems(3) by (auto elim: prefixE)
  show ?case
  proof (cases "length (enc_pkt p) \<le> length (contents buf)")
    case True
    with t obtain rest where "enc_pkt p @ rest = contents buf" and c2: "concat (map enc_pkt ps) = rest @ t"
      by (auto simp: append_eq_append_conv2)
    then have c: "contents buf = enc_pkt p @ rest" "concat (map enc_pkt ps) = rest @ t" by simp_all
    obtain b where b: "buffer_deserialize (deserialize_pkt E) zero_packet buf = Some (0, canon_pkt p, b)"
      "buffer_ok b" "contents b = rest"
      by (rule pkt.buffer_deserialize_complete [OF p zero_packet_fresh Cons.prems(2) c(1)])
    from Cons.IH [OF _ b(2) _ n(2)] Cons.prems(1) b(3) c(2) obtain k buf' where
      "k \<le> length ps" "receive_all E n' b = Some (map canon_pkt (take k ps), buf')"
      "contents b = concat (map enc_pkt (take k ps)) @ contents buf'"
      "if k < length ps then length (contents buf') < length (enc_pkt (ps ! k)) else contents buf' = []"
      by auto
    with b c n(1) show ?thesis by (intro exI [of _ "Suc k"] exI [of _ buf']) simp
  next
    case False
    from t obtain missing where "enc_pkt p = contents buf @ missing \<or> enc_pkt p @ missing = contents buf"
      by (auto simp: append_eq_append_conv2)
    with False have "enc_pkt p = contents buf @ missing" "missing \<noteq> []"
      by (metis length_append le_add1, metis append_Nil2 order_refl length_append le_add1)
    then obtain v where "buffer_deserialize (deserialize_pkt E) zero_packet buf = Some (1, v, buf)"
      by (rule pkt.buffer_deserialize_partial [OF p zero_packet_fresh Cons.prems(2)])
    with n(1) False show ?thesis by (intro exI [of _ 0] exI [of _ buf]) simp
  qed
qed

text \<open>C26: Packets come out of a stream as they went in. Packets are serialised one after another
  into a buffer, and a part of its bytes, cut anywhere, has arrived in the buffer of a receiver:
  repeated \<open>buffer_deserialize\<close> gives exactly the packets that have arrived whole, in order,
  and keeps the bytes of the next one; of all the bytes it gives all the packets, and an empty
  buffer is left.\<close>

theorem packet_stream_in_order:
  assumes "list_all (\<lambda>p. pkt_ok p \<and> alloc_for E p) ps" "length (concat (map enc_pkt ps)) < 2 ^ 63"
    "send_all E ps buffer_init = Some sent" "buffer_ok buf" "prefix (contents buf) (contents sent)" "length ps < n"
  shows "\<exists>k buf'. k \<le> length ps \<and> receive_all E n buf = Some (map canon_pkt (take k ps), buf') \<and>
    contents buf = concat (map enc_pkt (take k ps)) @ contents buf' \<and>
    (if k < length ps then length (contents buf') < length (enc_pkt (ps ! k)) else contents buf' = []) \<and>
    (contents buf = contents sent \<longrightarrow> k = length ps)"
proof -
  have "list_all pkt_ok ps" using assms(1) by (simp add: list_all_iff)
  with assms(2,3) have s: "contents sent = concat (map enc_pkt ps)"
    using send_all_contents [of ps buffer_init E sent] by simp
  obtain k buf' where k: "k \<le> length ps" "receive_all E n buf = Some (map canon_pkt (take k ps), buf')"
    "contents buf = concat (map enc_pkt (take k ps)) @ contents buf'"
    "if k < length ps then length (contents buf') < length (enc_pkt (ps ! k)) else contents buf' = []"
    using receive_prefix [OF assms(1,4) _ assms(6)] assms(5) s by auto
  have "k = length ps" if all: "contents buf = contents sent"
  proof (rule ccontr)
    assume "k \<noteq> length ps"
    with k(1,4) have lt: "k < length ps" "length (contents buf') < length (enc_pkt (ps ! k))" by simp_all
    have "concat (map enc_pkt ps) = concat (map enc_pkt (take k ps)) @ enc_pkt (ps ! k) @ concat (map enc_pkt (drop (Suc k) ps))"
      using arg_cong [OF id_take_nth_drop [OF lt(1)], of "\<lambda>xs. concat (map enc_pkt xs)"] by simp
    with all s k(3) have "contents buf' = enc_pkt (ps ! k) @ concat (map enc_pkt (drop (Suc k) ps))" by simp
    with lt(2) show False by simp
  qed
  with k show ?thesis by blast
qed

text \<open>Two packets are queued; all of the first and one byte of the second have arrived.\<close>

theorem packet_stream_in_order_witness:
  "\<exists>buf'. receive_all good_env 3 \<lparr>buf_begin = Live (enc_pkt sample_pkt @ [0]), buf_ptr = 42, buf_end = 42\<rparr>
      = Some ([canon_pkt sample_pkt], buf') \<and> contents buf' = [0]"
proof -
  let ?buf = "\<lparr>buf_begin = Live (enc_pkt sample_pkt @ [0]), buf_ptr = 42, buf_end = 42\<rparr> :: buffer"
  have "send_all good_env [sample_pkt, sample_pkt] buffer_init \<noteq> None" by code_simp
  then obtain sent where sent: "send_all good_env [sample_pkt, sample_pkt] buffer_init = Some sent" by auto
  have c: "contents sent = enc_pkt sample_pkt @ enc_pkt sample_pkt"
    using send_all_contents [OF _ _ _ sent] by simp
  have b: "buffer_ok ?buf" "contents ?buf = enc_pkt sample_pkt @ [0]"
    by (simp_all add: buffer_ok_def PTRDIFF_MAX_def contents_def block_mem_def)
  have "prefix (contents ?buf) (contents sent)" unfolding b(2) c by (simp add: sample_enc)
  moreover define ps where "ps = [sample_pkt, sample_pkt]"
  moreover have "list_all (\<lambda>p. pkt_ok p \<and> alloc_for good_env p) ps" "length (concat (map enc_pkt ps)) < 2 ^ 63" "length ps < 3"
    by (simp_all add: ps_def)
  ultimately obtain k buf' where
    k: "k \<le> length ps" "receive_all good_env 3 ?buf = Some (map canon_pkt (take k ps), buf')"
    "contents ?buf = concat (map enc_pkt (take k ps)) @ contents buf'"
    "if k < length ps then length (contents buf') < length (enc_pkt (ps ! k)) else contents buf' = []"
    using packet_stream_in_order [of good_env ps sent ?buf 3] sent b(1) by blast
  have "length (enc_pkt sample_pkt) + 1 = length (concat (map enc_pkt (take k ps))) + length (contents buf')"
    using arg_cong [OF k(3) [unfolded b(2)], of length] by simp
  moreover have "k = 0 \<or> k = 1 \<or> k = 2" using k(1) by (auto simp: ps_def)
  ultimately have one: "k = 1" using k(4) by (auto simp: ps_def)
  then have "contents buf' = [0]" using k(3) unfolding b(2) by (simp add: ps_def)
  with k(2) one show ?thesis by (intro exI [of _ buf']) (simp add: ps_def)
qed

text \<open>C13: A buffer is a first-in first-out queue of bytes: over any sequence of packets
  serialised into it and of removals from its front (the writes to the socket), the bytes
  removed followed by the bytes left are exactly the bytes held at first followed by the
  encodings of the packets that were accepted, in order.\<close>

theorem buffer_is_fifo:
  assumes "buffer_ok b" "\<forall>p. Put p \<in> set ops \<longrightarrow> pkt_ok p"
    "length (contents b)
       + (\<Sum>op\<leftarrow>ops. case op of Put p \<Rightarrow> length (enc_pkt p) | Remove _ \<Rightarrow> 0) < 2 ^ 63"
  shows "\<exists>ps out b'. queue_run (put_pkt E) take_front contents ops b = Some (ps, out, b') \<and>
    buffer_ok b' \<and> contents b @ concat (map enc_pkt ps) = out @ contents b'"
  by (rule pkts.fifo [OF assms])

theorem buffer_is_fifo_witness:
  "\<exists>ps out b'. queue_run (put_pkt good_env) take_front contents
       [Put sample_pkt, Remove 7, Put sample_pkt, Remove 60] buffer_init = Some (ps, out, b') \<and>
     buffer_ok b' \<and> concat (map enc_pkt ps) = out @ contents b'"
  using buffer_is_fifo [of buffer_init "[Put sample_pkt, Remove 7, Put sample_pkt, Remove 60]" good_env]
  by simp

end
