(* ===== verification/Middfs_Print.thy ===== *)
theory Middfs_Print
  imports Middfs_Packet
begin

text \<open>
  The printing of packets, \<open>print_packet\<close> and the functions it calls in \<open>lib/middfs-pkt.c\<close> and
  \<open>lib/middfs-rsrc.c\<close>: the text each writes to the error output. Printing reads through the
  pointers of a packet, also of one that was received in part: None is a null string handed to
  \<open>%s\<close>, or a directory entry that is not there, which are undefined.
\<close>

section \<open>Formats\<close>

definition digit :: "nat \<Rightarrow> char" where
  "digit k = char_of (48 + k)"

function num_text :: "nat \<Rightarrow> nat \<Rightarrow> string" where
  "num_text b n = (if b < 2 \<or> n < b then [digit n] else num_text b (n div b) @ [digit (n mod b)])"
  by auto
termination by (relation "measure snd") auto

declare num_text.simps [simp del]

text \<open>The conversions: \<open>%u\<close> and \<open>%llu\<close>, \<open>%o\<close>, \<open>%d\<close>, and \<open>%p\<close> with the text of the address.\<close>

definition fmt_u :: "'w :: len word \<Rightarrow> string" where
  "fmt_u w = num_text 10 (unat w)"

definition fmt_o :: "u32 \<Rightarrow> string" where
  "fmt_o w = num_text 8 (unat w)"

definition fmt_d :: "u32 \<Rightarrow> string" where
  "fmt_d w = (if sint w < 0 then ''-'' else []) @ num_text 10 (nat \<bar>sint w\<bar>)"

definition fmt_p :: "string \<Rightarrow> 'a option \<Rightarrow> string" where
  "fmt_p addr p = (case p of None \<Rightarrow> ''(nil)'' | Some _ \<Rightarrow> addr)"

section \<open>Requests\<close>

definition print_rsrc :: "rsrc \<Rightarrow> string option" where
  "print_rsrc r = do {
     owner \<leftarrow> mr_owner r;
     path \<leftarrow> mr_path r;
     Some (''{.mr_owner = ``'' @ owner @ [CHR 0x27, CHR 0x27] @ '', .mr_path = ``'' @ path @ [CHR 0x27, CHR 0x27] @ ''}'')
   }"

fun req_type_strs :: "middfs_request_type \<Rightarrow> string" where
  "req_type_strs MREQ_NONE = ''MREQ_NONE''"
| "req_type_strs MREQ_GETATTR = ''MREQ_GETATTR''"
| "req_type_strs MREQ_ACCESS = ''MREQ_ACCESS''"
| "req_type_strs MREQ_READLINK = ''MREQ_READLINK''"
| "req_type_strs MREQ_MKDIR = ''MREQ_MKDIR''"
| "req_type_strs MREQ_SYMLINK = ''MREQ_SYMLINK''"
| "req_type_strs MREQ_UNLINK = ''MREQ_UNLINK''"
| "req_type_strs MREQ_RMDIR = ''MREQ_RMDIR''"
| "req_type_strs MREQ_RENAME = ''MREQ_RENAME''"
| "req_type_strs MREQ_CHMOD = ''MREQ_CHMOD''"
| "req_type_strs MREQ_TRUNCATE = ''MREQ_TRUNCATE''"
| "req_type_strs MREQ_OPEN = ''MREQ_OPEN''"
| "req_type_strs MREQ_CREATE = ''MREQ_CREATE''"
| "req_type_strs MREQ_READ = ''MREQ_READ''"
| "req_type_strs MREQ_WRITE = ''MREQ_WRITE''"
| "req_type_strs MREQ_READDIR = ''MREQ_READDIR''"
| "req_type_strs (MREQ_OTHER w) = ''<invalid>''"

text \<open>The offset is printed as the size.\<close>

definition print_request :: "string \<Rightarrow> middfs_request \<Rightarrow> string option" where
  "print_request addr req = do {
     let type = mreq_type req;
     requester \<leftarrow> mreq_requester req;
     rsrc \<leftarrow> print_rsrc (mreq_rsrc req);
     to \<leftarrow> (if req_has_to type
            then do { t \<leftarrow> print_rsrc (mreq_to req); Some (''.mreq_to = '' @ t @ '', '') }
            else Some []);
     Some (''{'' @ ''.mreq_type = '' @ req_type_strs type @ '', '' @
       ''.mreq_requester = ``'' @ requester @ [CHR 0x27, CHR 0x27] @ '', '' @ ''.mreq_rsrc = '' @ rsrc @ '', '' @
       (if req_has_mode type then ''.mreq_mode = '' @ fmt_o (mreq_mode req) @ '', '' else []) @
       (if req_has_size type then ''.mreq_size = '' @ fmt_u (mreq_size req) @ '', '' else []) @
       to @
       (if req_has_off type then ''.mreq_off = '' @ fmt_u (mreq_size req) @ '', '' else []) @
       (if req_has_data type then ''.mreq_data = '' @ fmt_p addr (mreq_data req) @ '', '' else []) @ ''}'')
   }"

section \<open>Responses\<close>

fun rsp_type_strs :: "middfs_response_type \<Rightarrow> string" where
  "rsp_type_strs MRSP_OK = ''MRSP_OK''"
| "rsp_type_strs MRSP_DATA = ''MRSP_DATA''"
| "rsp_type_strs MRSP_STAT = ''MRSP_STAT''"
| "rsp_type_strs MRSP_DIR = ''MRSP_DIR''"
| "rsp_type_strs MRSP_ERROR = ''MRSP_ERROR''"
| "rsp_type_strs (MRSP_OTHER w) = ''<invalid type>''"

definition print_data :: "string \<Rightarrow> middfs_data \<Rightarrow> string" where
  "print_data addr d =
     ''{.mdata_nbytes = '' @ fmt_u (mdata_nbytes d) @ '', .mdata_buf = '' @ fmt_p addr (mdata_buf d) @ ''}''"

definition print_stat :: "middfs_stat \<Rightarrow> string" where
  "print_stat st =
     ''{.mstat_mode = '' @ fmt_o (mstat_mode st) @ '', .mstat_size = '' @ fmt_u (mstat_size st) @
     '', .mstat_blocks = '' @ fmt_u (mstat_blocks st) @ '', .mstat_blksize = '' @
     fmt_u (mstat_blksize st) @ ''}''"

definition print_dirent :: "middfs_dirent \<Rightarrow> string option" where
  "print_dirent de = do {
     name \<leftarrow> mde_name de;
     Some (''{.mde_name = ``'' @ name @ [CHR 0x27, CHR 0x27] @ '', .mde_mode = '' @ fmt_o (mde_mode de) @ ''}'')
   }"

fun print_dirents :: "middfs_dirent list option \<Rightarrow> nat list \<Rightarrow> string option" where
  "print_dirents ents [] = Some []"
| "print_dirents ents (i # is) = do {
     es \<leftarrow> ents;
     de \<leftarrow> (if i < length es then Some (es ! i) else None);
     s \<leftarrow> print_dirent de;
     rest \<leftarrow> print_dirents ents is;
     Some (''['' @ num_text 10 i @ ''] = '' @ s @ '', '' @ rest)
   }"

definition print_dir :: "middfs_dir \<Rightarrow> string option" where
  "print_dir dir = do {
     s \<leftarrow> print_dirents (mdir_ents dir) [0..<unat (mdir_count dir)];
     Some (''{.mdir_count = '' @ fmt_u (mdir_count dir) @ '', .mdir_ents = {'' @ s @ ''}}'')
   }"

definition print_response :: "string \<Rightarrow> middfs_response \<Rightarrow> string option" where
  "print_response addr rsp = do {
     s \<leftarrow>
       (case mrsp_type rsp of
          MRSP_DATA \<Rightarrow> do { d \<leftarrow> get_data (mrsp_un rsp); Some (''.mrsp_data = '' @ print_data addr d) }
        | MRSP_STAT \<Rightarrow> do { st \<leftarrow> get_stat (mrsp_un rsp); Some (''.mrsp_stat = '' @ print_stat st) }
        | MRSP_DIR \<Rightarrow> do {
            dir \<leftarrow> get_dir (mrsp_un rsp);
            s \<leftarrow> print_dir dir;
            Some (''.mrsp_dir = '' @ s)
          }
        | MRSP_ERROR \<Rightarrow> do { e \<leftarrow> get_error (mrsp_un rsp); Some (''.mrsp_error = '' @ fmt_d e) }
        | _ \<Rightarrow> Some []);
     Some (''{.mrsp_type = '' @ rsp_type_strs (mrsp_type rsp) @ '', '' @ s @ ''}'')
   }"

section \<open>Packets\<close>

definition print_connect :: "middfs_connect \<Rightarrow> string option" where
  "print_connect conn = do {
     name \<leftarrow> conn_name conn;
     Some (''{.name = ``'' @ name @ [CHR 0x27, CHR 0x27] @ '', .port = '' @ fmt_d (conn_port conn) @ ''}'')
   }"

fun packet_type_strs :: "middfs_packet_type \<Rightarrow> string" where
  "packet_type_strs MPKT_NONE = ''MPKT_NONE''"
| "packet_type_strs MPKT_CONNECT = ''MPKT_CONNECT''"
| "packet_type_strs MPKT_DISCONNECT = ''MPKT_DISCONNECT''"
| "packet_type_strs MPKT_REQUEST = ''MPKT_REQUEST''"
| "packet_type_strs MPKT_RESPONSE = ''MPKT_RESPONSE''"
| "packet_type_strs (MPKT_OTHER w) = ''<invalid type>''"

definition print_packet :: "string \<Rightarrow> middfs_packet \<Rightarrow> string option" where
  "print_packet addr pkt = do {
     s \<leftarrow>
       (case mpkt_type pkt of
          MPKT_CONNECT \<Rightarrow> do { c \<leftarrow> get_connect (mpkt_un pkt); print_connect c }
        | MPKT_REQUEST \<Rightarrow> do { req \<leftarrow> get_request (mpkt_un pkt); print_request addr req }
        | MPKT_RESPONSE \<Rightarrow> do { rsp \<leftarrow> get_response (mpkt_un pkt); print_response addr rsp }
        | _ \<Rightarrow> Some []);
     Some (''{.mpkt_magic = '' @ fmt_u (mpkt_magic pkt) @ '', .mpkt_type = '' @
       packet_type_strs (mpkt_type pkt) @ '', '' @ s)
   }"

end
