(* ===== verification/Conf_Properties.thy ===== *)
theory Conf_Properties
  imports Middfs_Print Serial_Properties
begin

text \<open>
  The properties of the configuration, \<open>lib/middfs-conf.c\<close>: what is put can be looked up, line
  by line for a whole file, and what the numeric lookups make of a value.
\<close>

section \<open>One definition\<close>

lemma takeWhile_name: "CHR ''='' \<notin> set nm \<Longrightarrow> takeWhile (\<lambda>c. c \<noteq> CHR ''='') (nm @ CHR ''='' # val) = nm"
  by (induction nm) auto

lemma putenv_def_line:
  "CHR ''='' \<notin> set nm \<Longrightarrow> putenv (nm @ CHR ''='' # val) env = env(nm \<mapsto> val)"
  by (simp add: putenv_def takeWhile_name)

lemma conf_put_result:
  assumes "CHR ''='' \<notin> set nm" "alloc_upto E (length nm + length val + 9)"
    "can_put E (''MIDDFS_'' @ nm @ CHR ''='' # val)"
  shows "conf_put E (nm @ CHR ''='' # val) env = (0, env(''MIDDFS_'' @ nm \<mapsto> val))"
  using assms putenv_def_line [of "''MIDDFS_'' @ nm" val env]
  by (simp add: conf_put_def conf_envvar_def alloc_upto_def)

text \<open>Put and get. After \<open>conf_put\<close> of a definition \<open>name=value\<close>, \<open>conf_get\<close> of the name
  returns exactly the value, whatever characters it has, and every other name reads as
  before.\<close>

theorem conf_put_get:
  assumes "CHR ''='' \<notin> set nm" "alloc_upto E (length nm + length val + length nm' + 9)"
    "can_put E (''MIDDFS_'' @ nm @ ''='' @ val)"
  shows "\<exists>env'. conf_put E (nm @ ''='' @ val) env = (0, env') \<and>
    conf_get E env' nm' = (if nm' = nm then Some val else conf_get E env nm')"
proof -
  have "conf_put E (nm @ CHR ''='' # val) env = (0, env(''MIDDFS_'' @ nm \<mapsto> val))"
    using assms(1,3) by (intro conf_put_result alloc_upto_mono [OF assms(2)]) simp_all
  moreover have "conf_envvar E nm' = Some (''MIDDFS_'' @ nm')"
    using assms(2) by (simp add: conf_envvar_def alloc_upto_def)
  ultimately show ?thesis by (simp add: conf_get_def)
qed

theorem conf_put_get_witness:
  "\<exists>env'. conf_put good_env ''username=a=b'' Map.empty = (0, env') \<and>
    conf_get good_env env' ''username'' = Some ''a=b''"
  using conf_put_get [of "''username''" good_env "''a=b''" "''username''" Map.empty]
  by (simp add: alloc_upto_def good_env_def)

section \<open>A file\<close>

lemma fgets_line_take:
  "CHR 0x0A \<notin> set l \<Longrightarrow> length l < n \<Longrightarrow>
   fgets_line n (l @ CHR 0x0A # rest) = (l @ [CHR 0x0A], rest)"
proof (induction l arbitrary: n)
  case Nil
  then show ?case by (cases n) simp_all
next
  case (Cons c l)
  then show ?case by (cases n) auto
qed

lemma strip_line_comment:
  assumes "\<forall>c \<in> set l. c \<noteq> CHR ''#'' \<and> c \<noteq> CHR 0x0A \<and> c \<noteq> CHR 0x00"
    "r = [] \<or> hd r = CHR ''#'' \<or> hd r = CHR 0x0A"
  shows "strip_line (l @ r) = l"
  using assms by (cases r) (auto simp: strip_line_def takeWhile_append2)

definition plain :: "string \<Rightarrow> bool" where
  "plain s \<longleftrightarrow> (\<forall>c \<in> set s. c \<noteq> CHR ''#'' \<and> c \<noteq> CHR 0x0A \<and> c \<noteq> CHR 0x00)"

text \<open>A line of the file: a definition \<open>name=value\<close> or none, and a comment after a #.\<close>

type_synonym conf_line = "(string \<times> string) option \<times> string"

definition line_def :: "conf_line \<Rightarrow> string" where
  "line_def l = (case fst l of None \<Rightarrow> [] | Some (nm, val) \<Rightarrow> nm @ CHR ''='' # val)"

definition line_text :: "conf_line \<Rightarrow> string" where
  "line_text l = line_def l @ snd l @ [CHR 0x0A]"

definition line_ok :: "conf_line \<Rightarrow> bool" where
  "line_ok l \<longleftrightarrow>
     (case fst l of None \<Rightarrow> True | Some (nm, val) \<Rightarrow> plain nm \<and> plain val \<and> CHR ''='' \<notin> set nm) \<and>
     (snd l = [] \<or> hd (snd l) = CHR ''#'') \<and> CHR 0x0A \<notin> set (snd l) \<and> length (line_text l) < 1024"

definition line_effect :: "conf_line \<Rightarrow> environ \<Rightarrow> environ" where
  "line_effect l env =
     (case fst l of None \<Rightarrow> env(''MIDDFS_'' := None) | Some (nm, val) \<Rightarrow> env(''MIDDFS_'' @ nm \<mapsto> val))"

text \<open>Whether \<open>putenv\<close> takes the line.\<close>

definition line_taken :: "cenv \<Rightarrow> conf_line \<Rightarrow> bool" where
  "line_taken E l \<longleftrightarrow> can_put E (''MIDDFS_'' @ line_def l)"

lemma conf_put_line:
  assumes "line_ok l" "alloc_upto E 2048"
  shows "conf_put E (line_def l) env = (if line_taken E l then (0, line_effect l env) else (-1, env))"
proof (cases "fst l")
  case None
  with assms(2) show ?thesis
    unfolding line_taken_def
    by (simp add: line_def_def line_effect_def conf_put_def conf_envvar_def putenv_def alloc_upto_def)
next
  case (Some d)
  obtain nm val where d: "d = (nm, val)" by (cases d)
  have nm: "CHR ''='' \<notin> set nm" "length nm + length val + 9 \<le> 2048"
    using assms(1) Some d by (auto simp: line_ok_def line_text_def line_def_def)
  have "conf_envvar E (line_def l) = Some (''MIDDFS_'' @ line_def l)"
    using assms(2) nm(2) Some d by (simp add: conf_envvar_def line_def_def alloc_upto_def)
  then show ?thesis
    using conf_put_result [of nm E val env] alloc_upto_mono [OF assms(2)] Some d nm
    by (cases "line_taken E l") (simp_all add: line_def_def line_effect_def line_taken_def conf_put_def)
qed

lemma conf_load_line:
  assumes ok: "line_ok l" and al: "alloc_upto E 2048"
  shows "conf_load_loop E (line_text l @ rest) env
    = (if line_taken E l then conf_load_loop E rest (line_effect l env) else (-1, env))"
proof -
  let ?d = "line_def l"
  have plain: "plain ?d" using ok by (auto simp: line_ok_def line_def_def plain_def split: option.splits)
  then have "CHR 0x0A \<notin> set (?d @ snd l)" using ok by (auto simp: line_ok_def plain_def)
  moreover have "length (?d @ snd l) < CONF_LOAD_MAXLINE - 1"
    using ok by (simp add: line_ok_def line_text_def CONF_LOAD_MAXLINE_def)
  ultimately have "fgets_line (CONF_LOAD_MAXLINE - 1) ((?d @ snd l) @ CHR 0x0A # rest)
      = ((?d @ snd l) @ [CHR 0x0A], rest)" by (rule fgets_line_take)
  moreover have "strip_line (?d @ (snd l @ [CHR 0x0A])) = ?d"
    using plain ok by (intro strip_line_comment) (auto simp: line_ok_def plain_def hd_append)
  ultimately show ?thesis
    using conf_put_line [OF ok al, of env]
    by (subst conf_load_loop.simps) (simp add: line_text_def)
qed

lemma conf_load_all:
  assumes "list_all line_ok ls" "alloc_upto E 2048"
  shows "conf_load_loop E (concat (map line_text ls)) env
    = (let taken = takeWhile (line_taken E) ls in
       (if taken = ls then 0 else -1, fold line_effect taken env))"
  using assms(1)
proof (induction ls arbitrary: env)
  case Nil
  show ?case by (subst conf_load_loop.simps) simp
next
  case (Cons l ls)
  then show ?case by (simp add: conf_load_line [OF _ assms(2)])
qed

text \<open>The definitions of a file, the last one first.\<close>

abbreviation definitions :: "conf_line list \<Rightarrow> (string \<times> string) list" where
  "definitions ls \<equiv> rev (List.map_filter fst ls)"

lemma fold_effect:
  assumes "nm \<noteq> []"
  shows "fold line_effect ls env (''MIDDFS_'' @ nm)
    = (case map_of (definitions ls) nm of None \<Rightarrow> env (''MIDDFS_'' @ nm) | Some v \<Rightarrow> Some v)"
proof (induction ls arbitrary: env)
  case (Cons l ls)
  from Cons.IH [of "line_effect l env"] show ?case
    using assms
    by (auto simp: line_effect_def map_filter_simps map_add_def split: option.splits)
qed (simp add: map_filter_simps)

text \<open>C40: Loading a file stores what it says. Of lines that each define a variable, hold only a
  comment or are empty, \<open>conf_load\<close> takes those before the first that \<open>putenv\<close> refuses, and returns
  0 exactly when there is no such line, -1 otherwise. Then every non-empty name (of at most 1024
  characters) reads as its last definition in the lines taken, and names they do not define
  read as before.\<close>

theorem conf_load_lines:
  assumes "list_all line_ok ls" "alloc_upto E 2048" "taken = takeWhile (line_taken E) ls"
  shows "\<exists>env'. conf_load E (Some (concat (map line_text ls))) False False env
      = (if taken = ls then 0 else -1, env') \<and>
    (\<forall>nm. nm \<noteq> [] \<longrightarrow> length nm \<le> 1024 \<longrightarrow>
       conf_get E env' nm
         = (case map_of (definitions taken) nm of None \<Rightarrow> conf_get E env nm | Some v \<Rightarrow> Some v))"
proof -
  have "conf_envvar E nm = Some (''MIDDFS_'' @ nm)" if "length nm \<le> 1024" for nm
    using assms(2) that by (simp add: conf_envvar_def alloc_upto_def)
  then show ?thesis
    using conf_load_all [OF assms(1,2), of env] fold_effect [of _ taken env] assms(3)
    by (auto simp: conf_load_def conf_get_def Let_def split: option.splits)
qed

definition sample_lines :: "conf_line list" where
  "sample_lines =
     [(None, ''# client''), (Some (''username'', ''bob''), []), (None, []),
      (Some (''username'', ''amy''), ''# not bob'')]"

text \<open>An environment with no room for the last line.\<close>

definition full_env :: cenv where
  "full_env = good_env\<lparr>can_put := \<lambda>s. s \<noteq> ''MIDDFS_username=amy''\<rparr>"

theorem conf_load_lines_witness:
  "\<exists>env' env''. conf_load good_env (Some (concat (map line_text sample_lines))) False False Map.empty = (0, env') \<and>
    conf_get good_env env' ''username'' = Some ''amy'' \<and> conf_get good_env env' ''homepath'' = None \<and>
    conf_load full_env (Some (concat (map line_text sample_lines))) False False Map.empty = (-1, env'') \<and>
    conf_get full_env env'' ''username'' = Some ''bob''"
proof -
  have ok: "list_all line_ok sample_lines" by code_simp
  have al: "alloc_upto good_env 2048" "alloc_upto full_env 2048"
    by (simp_all add: alloc_upto_def good_env_def full_env_def)
  have d: "takeWhile (line_taken good_env) sample_lines = sample_lines"
    "takeWhile (line_taken full_env) sample_lines = take 3 sample_lines" "take 3 sample_lines \<noteq> sample_lines"
    "definitions sample_lines = [(''username'', ''amy''), (''username'', ''bob'')]"
    "definitions (take 3 sample_lines) = [(''username'', ''bob'')]"
    by code_simp+
  have n: "''username'' \<noteq> []" "length ''username'' \<le> 1024" "''homepath'' \<noteq> []" "length ''homepath'' \<le> 1024"
    by simp_all
  have h: "conf_get good_env Map.empty ''homepath'' = None" by (simp add: conf_get_def split: option.split)
  from conf_load_lines [OF ok al(1) refl, of Map.empty] conf_load_lines [OF ok al(2) refl, of Map.empty]
  show ?thesis unfolding d using n d(3) h by fastforce
qed

text \<open>The first line alone.\<close>

theorem conf_load_first_line:
  assumes "plain nm" "plain val" "CHR ''='' \<notin> set nm"
    "comment = [] \<or> hd comment = CHR ''#''" "CHR 0x0A \<notin> set comment"
    "length nm + length val + length comment < 1022" "alloc_upto E 2048"
    "can_put E (''MIDDFS_'' @ nm @ ''='' @ val)"
  shows "conf_load E (Some (nm @ ''='' @ val @ comment @ CHR 0x0A # rest)) ferr cerr env
    = conf_load E (Some rest) ferr cerr (env(''MIDDFS_'' @ nm \<mapsto> val))"
proof -
  let ?l = "(Some (nm, val), comment)"
  have "line_ok ?l" using assms(1-6) by (simp add: line_ok_def line_text_def line_def_def)
  from conf_load_line [OF this assms(7), of rest env] assms(8) show ?thesis
    by (simp add: conf_load_def line_text_def line_def_def line_effect_def line_taken_def)
qed

section \<open>Numbers\<close>

lemma digit_chars:
  "digit 0 = CHR ''0''" "digit 1 = CHR ''1''" "digit 2 = CHR ''2''" "digit 3 = CHR ''3''" "digit 4 = CHR ''4''"
  "digit 5 = CHR ''5''" "digit 6 = CHR ''6''" "digit 7 = CHR ''7''" "digit 8 = CHR ''8''" "digit 9 = CHR ''9''"
  by code_simp+

lemma of_char_digit: "k < 10 \<Longrightarrow> of_char (digit k) = 48 + k"
  by (simp add: digit_def)

lemma digit_facts:
  assumes "k < 10"
  shows "digit_val (digit k) = Some k" "is_digit 10 (digit k)" "\<not> isspace (digit k)"
    "digit k \<noteq> CHR ''-''" "digit k \<noteq> CHR ''+''" "digit k = CHR ''0'' \<longleftrightarrow> k = 0"
proof -
  note k = of_char_digit [OF assms]
  show v: "digit_val (digit k) = Some k" using k assms by (simp add: digit_val_def)
  then show "is_digit 10 (digit k)" using assms by (simp add: is_digit_def)
  show "\<not> isspace (digit k)" using k by (simp add: isspace_def)
  have "of_char (digit k) \<noteq> (of_char (CHR ''-'') :: nat)" "of_char (digit k) \<noteq> (of_char (CHR ''+'') :: nat)"
    "of_char (digit k) = (of_char (CHR ''0'') :: nat) \<longleftrightarrow> k = 0"
    unfolding k by simp_all
  then show "digit k \<noteq> CHR ''-''" "digit k \<noteq> CHR ''+''" "digit k = CHR ''0'' \<longleftrightarrow> k = 0"
    by (auto simp only: of_char_eq_iff)
qed

lemma read_digits_append:
  "read_digits 10 acc (num_text 10 n @ t) = read_digits 10 (acc * 10 ^ length (num_text 10 n) + n) t"
proof (induction n arbitrary: acc t rule: less_induct)
  case (less n)
  show ?case
  proof (cases "n < 10")
    case True
    then show ?thesis using digit_facts [OF True] by (simp add: num_text.simps [of 10 n])
  next
    case False
    then have n: "n div 10 < n" "num_text 10 n = num_text 10 (n div 10) @ [digit (n mod 10)]"
      by (simp_all add: num_text.simps [of 10 n])
    have "n mod 10 < 10" by simp
    from digit_facts [OF this] less.IH [OF n(1), of acc "digit (n mod 10) # t"] show ?thesis
      by (simp add: n(2) algebra_simps)
  qed
qed

lemma num_text_hd:
  "\<exists>d cs. num_text 10 n = digit d # cs \<and> d < 10 \<and> (0 < n \<longrightarrow> 0 < d) \<and> (n = 0 \<longrightarrow> cs = [])"
proof (induction n rule: less_induct)
  case (less n)
  show ?case
  proof (cases "n < 10")
    case True
    then show ?thesis by (intro exI [of _ n] exI [of _ "[]"]) (simp add: num_text.simps [of 10 n])
  next
    case False
    then have n: "n div 10 < n" "0 < n div 10" "num_text 10 n = num_text 10 (n div 10) @ [digit (n mod 10)]"
      by (simp_all add: num_text.simps [of 10 n])
    from less.IH [OF n(1)] n(2,3) False show ?thesis by auto
  qed
qed

lemma strtoull_num_text:
  "strtoull (num_text 10 n) = (if n < 2 ^ 64 then word_of_nat n else - 1, [])"
proof -
  obtain d cs where d: "num_text 10 n = digit d # cs" "d < 10" "0 < n \<longrightarrow> 0 < d" "n = 0 \<longrightarrow> cs = []"
    using num_text_hd [of n] by blast
  note f = digit_facts [OF d(2)]
  have start: "split_sign (dropWhile isspace (num_text 10 n)) = (False, num_text 10 n)"
    using f by (simp add: d(1))
  have big: "int n \<ge> 2 ^ 64 \<longleftrightarrow> \<not> n < 2 ^ 64" by auto
  show ?thesis
  proof (cases "n = 0")
    case True
    then have "num_text 10 n = ''0''" by (simp add: num_text.simps [of 10 0] digit_chars)
    then show ?thesis
      using True by (simp add: strtoull_def isspace_def split_base_def is_digit_def digit_val_def)
  next
    case False
    then have "digit d \<noteq> CHR ''0''" using f(6) d(3) by simp
    then have "split_base (num_text 10 n) = (10, num_text 10 n)"
      by (simp add: split_base_def d(1) split: list.splits)
    then show ?thesis
      using read_digits_append [of 0 n "[]"] start f(2) big d(1)
      by (simp add: strtoull_def)
  qed
qed

lemma ucast_of_nat: "(ucast (word_of_nat n :: u64) :: u32) = word_of_nat n"
  by (simp add: word_eq_iff_unsigned unsigned_of_nat unsigned_ucast_eq) (simp add: word_of_nat_eq_iff)

text \<open>A decimal number is read modulo 2 to the 32. When the configuration has a variable with
  the decimal digits of n, \<open>conf_get_uint32\<close> returns the low 32 bits of n, all ones from 2 to the 64
  on, and never reports an error: the value is n exactly when n is below 2 to the 32.\<close>

theorem conf_get_uint32_decimal:
  assumes "conf_get E env nm = Some (num_text 10 n)"
  shows "conf_get_uint32 E env nm err = (if n < 2 ^ 64 then word_of_nat n else - 1, err)"
proof -
  have "num_text 10 n \<noteq> []" using num_text_hd [of n] by auto
  moreover have "(ucast (- 1 :: u64) :: u32) = - 1" by (rule bit_word_eqI) (simp add: bit_simps)
  ultimately show ?thesis
    using assms
    by (simp add: conf_get_uint32_def conf_get_ull_def strtoull_num_text ucast_of_nat)
qed

theorem conf_get_uint32_decimal_witness:
  "conf_get_uint32 good_env [''MIDDFS_serverport'' \<mapsto> ''4294967297''] ''serverport'' 0 = (1, 0)"
proof -
  have "num_text 10 4294967297 = ''4294967297''" by (simp add: num_text.simps digit_chars)
  then have "conf_get good_env [''MIDDFS_serverport'' \<mapsto> ''4294967297''] ''serverport'' = Some (num_text 10 4294967297)"
    by (simp add: conf_get_def conf_envvar_def good_env_def)
  from conf_get_uint32_decimal [OF this] show ?thesis by simp
qed

text \<open>The cut for any value, however it is written.\<close>

theorem conf_get_uint32_wraps:
  assumes "conf_get_ull E env nm err = (word_of_nat (2 ^ 32 * k + v), e)"
  shows "conf_get_uint32 E env nm err = (word_of_nat v, e)"
proof -
  have "(ucast (word_of_nat (2 ^ 32 * k + v) :: u64) :: u32) = word_of_nat (2 ^ 32 * k + v)"
    by (rule ucast_of_nat)
  also have "\<dots> = word_of_nat v"
    unfolding word_of_nat_eq_iff by (simp add: take_bit_eq_mod)
  finally show ?thesis using assms(1) by (simp add: conf_get_uint32_def)
qed

theorem conf_get_uint32_wraps_witness:
  "conf_get_uint32 good_env [''MIDDFS_serverport'' \<mapsto> ''4294967297''] ''serverport'' 0 = (1, 0)"
proof -
  have "strtoull ''4294967297'' = (word_of_nat (2 ^ 32 * 1 + 1), [])"
    by (simp add: strtoull_def split_base_def is_digit_def digit_val_def isspace_def)
  then have "conf_get_ull good_env [''MIDDFS_serverport'' \<mapsto> ''4294967297''] ''serverport'' 0
      = (word_of_nat (2 ^ 32 * 1 + 1), 0)"
    by (simp add: conf_get_ull_def conf_get_def conf_envvar_def good_env_def del: of_nat_add of_nat_mult)
  from conf_get_uint32_wraps [OF this] show ?thesis by simp
qed

end
