(* ===== verification/Middfs_Sock.thy ===== *)
theory Middfs_Sock
  imports Buf_Laws
begin

text \<open>
  The table of sockets of \<open>lib/middfs-sock.c\<close>: a growing array of \<open>middfs_sockinfo\<close>, each
  with an end to read from and an end to write to, and the loop that polls them.

  The \<open>revents\<close> pointer of a socket end points into the array given to \<open>poll(2)\<close> and is
  modelled as an index into it. System calls are arguments: cl says whether \<open>close(2)\<close> of a
  descriptor succeeds, and \<open>poll(2)\<close> is a function from the array to the events it reports.
\<close>

section \<open>State\<close>

datatype middfs_socktype = MFD_NONE | MFD_PKT_IN | MFD_PKT_OUT | MFD_LSTN

datatype middfs_sockstate =
    MSS_NONE
  | MSS_CLOSED
  | MSS_LSTN
  | MSS_REQRD
  | MSS_RSPWR
  | MSS_REQFWD
  | MSS_RSPFWD

record middfs_sockend =
  se_fd :: int
  se_buf :: buffer
  se_revents :: "nat option"

record middfs_sockinfo =
  si_type :: middfs_socktype
  si_state :: middfs_sockstate
  si_in :: middfs_sockend
  si_out :: middfs_sockend
  si_revents :: int

record middfs_socks =
  sk_sockinfos :: "middfs_sockinfo option block"
  sk_count :: int
  sk_len :: int

record pollfd =
  pfd_fd :: int
  pfd_events :: int

definition POLLIN :: int where "POLLIN = 1"
definition POLLOUT :: int where "POLLOUT = 4"
definition POLLERR :: int where "POLLERR = 8"
definition POLLHUP :: int where "POLLHUP = 16"

definition sizeof_sockinfo :: u64 where "sizeof_sockinfo = 96"

definition INT_MAX :: int where "INT_MAX = 2147483647"

section \<open>Socket ends\<close>

definition middfs_sockend_init :: "int \<Rightarrow> middfs_sockend" where
  "middfs_sockend_init fd = \<lparr>se_fd = fd, se_buf = buffer_init, se_revents = None\<rparr>"

definition middfs_sockend_delete ::
    "(int \<Rightarrow> bool) \<Rightarrow> middfs_sockend \<Rightarrow> (int \<times> middfs_sockend) option" where
  "middfs_sockend_delete cl se = do {
     b \<leftarrow> buffer_delete (se_buf se);
     let se1 = se\<lparr>se_buf := b\<rparr>;
     Some (if se_fd se \<ge> 0
           then (if cl (se_fd se) then 0 else -1, se1\<lparr>se_fd := -1\<rparr>)
           else (0, se1))
   }"

text \<open>revs is the array of reported events, one per entry polled.\<close>

definition middfs_sockend_check :: "int list \<Rightarrow> middfs_sockend \<Rightarrow> int option" where
  "middfs_sockend_check revs se =
     (if se_fd se < 0 then Some 0
      else do {
        i \<leftarrow> se_revents se;
        revents \<leftarrow> (if i < length revs then Some (revs ! i) else None);
        Some (if revents AND POLLERR \<noteq> 0 then -1
              else if revents AND POLLHUP \<noteq> 0 then -1
              else revents)
      })"

text \<open>
  The entry for one end, at position pos of the array, when nfds says there is room for it.
  \<open>nfds\<close> is a \<open>size_t\<close> converted to an \<open>int\<close>.
\<close>

definition middfs_sockend_pollfd ::
    "pollfd list \<Rightarrow> nat \<Rightarrow> u64 \<Rightarrow> int \<Rightarrow> middfs_sockend \<Rightarrow> int \<Rightarrow>
     (nat \<times> pollfd list \<times> middfs_sockend) option" where
  "middfs_sockend_pollfd pfds pos nfds polarity se err =
     (if err \<noteq> 0 then Some (0, pfds, se)
      else if se_fd se < 0 then None
      else if sint (ucast nfds :: u32) > 0
      then (if pos < length pfds
            then Some (1, pfds[pos := \<lparr>pfd_fd = se_fd se,
                                       pfd_events = polarity AND (POLLIN OR POLLOUT)\<rparr>],
                       se\<lparr>se_revents := Some pos\<rparr>)
            else None)
      else Some (1, pfds, se))"

definition middfs_sockend_isopen :: "middfs_sockend \<Rightarrow> bool" where
  "middfs_sockend_isopen se \<longleftrightarrow> se_fd se \<ge> 0"

section \<open>Sockets\<close>

text \<open>The field \<open>revents\<close> of the socket keeps the value it has in info.\<close>

definition middfs_sockinfo_init ::
    "middfs_socktype \<Rightarrow> int \<Rightarrow> int \<Rightarrow> middfs_sockinfo \<Rightarrow> middfs_sockinfo option" where
  "middfs_sockinfo_init type fd_in fd_out info = do {
     st \<leftarrow> (case type of
              MFD_NONE \<Rightarrow> Some MSS_NONE
            | MFD_PKT_IN \<Rightarrow> Some MSS_REQRD
            | MFD_LSTN \<Rightarrow> Some MSS_LSTN
            | MFD_PKT_OUT \<Rightarrow> None);
     Some (info\<lparr>si_type := type, si_state := st, si_in := middfs_sockend_init fd_in,
                si_out := middfs_sockend_init fd_out\<rparr>)
   }"

definition middfs_sockinfo_delete ::
    "(int \<Rightarrow> bool) \<Rightarrow> middfs_sockinfo \<Rightarrow> (int \<times> middfs_sockinfo) option" where
  "middfs_sockinfo_delete cl info = do {
     (r1, ein) \<leftarrow> middfs_sockend_delete cl (si_in info);
     (r2, eout) \<leftarrow> middfs_sockend_delete cl (si_out info);
     Some (0, info\<lparr>si_type := MFD_NONE, si_in := ein, si_out := eout\<rparr>)
   }"

definition polls_in :: "middfs_sockstate \<Rightarrow> bool" where
  "polls_in st \<longleftrightarrow> st = MSS_LSTN \<or> st = MSS_REQRD \<or> st = MSS_RSPFWD"

definition polls_out :: "middfs_sockstate \<Rightarrow> bool" where
  "polls_out st \<longleftrightarrow> st = MSS_RSPWR \<or> st = MSS_REQFWD"

definition middfs_sockinfo_pollfds ::
    "pollfd list \<Rightarrow> nat \<Rightarrow> u64 \<Rightarrow> middfs_sockinfo \<Rightarrow> int \<Rightarrow>
     (nat \<times> pollfd list \<times> middfs_sockinfo) option" where
  "middfs_sockinfo_pollfds pfds pos nfds info err =
     (if err \<noteq> 0 \<or> si_type info = MFD_NONE then Some (0, pfds, info)
      else do {
        let st = si_state info;
        (used1, pfds1, ein) \<leftarrow>
          (if polls_in st
           then middfs_sockend_pollfd pfds pos nfds POLLIN (si_in info) err
           else Some (0, pfds, si_in info));
        (used2, pfds2, eout) \<leftarrow>
          (if polls_out st
           then middfs_sockend_pollfd pfds1 (pos + used1) (sizerem nfds (word_of_nat used1))
                  POLLOUT (si_out info) err
           else Some (0, pfds1, si_out info));
        Some (used1 + used2, pfds2, info\<lparr>si_in := ein, si_out := eout\<rparr>)
      })"

definition middfs_sockinfo_check ::
    "int list \<Rightarrow> middfs_sockinfo \<Rightarrow> (int \<times> middfs_sockinfo) option" where
  "middfs_sockinfo_check revs info = do {
     let st = si_state info;
     revents_in \<leftarrow> (if polls_in st then middfs_sockend_check revs (si_in info) else Some 0);
     revents_out \<leftarrow> (if polls_out st then middfs_sockend_check revs (si_out info) else Some 0);
     Some (if revents_in < 0 \<or> revents_out < 0 then (-1, info)
           else (let r = revents_in OR revents_out in (r, info\<lparr>si_revents := r\<rparr>)))
   }"

definition middfs_sockinfo_isopen :: "middfs_sockinfo \<Rightarrow> bool" where
  "middfs_sockinfo_isopen info \<longleftrightarrow>
     middfs_sockend_isopen (si_in info) \<or> middfs_sockend_isopen (si_out info)"

section \<open>The table\<close>

definition middfs_socks_init :: middfs_socks where
  "middfs_socks_init = \<lparr>sk_sockinfos = Null, sk_count = 0, sk_len = 0\<rparr>"

definition middfs_socks_resize :: "cenv \<Rightarrow> u64 \<Rightarrow> middfs_socks \<Rightarrow> (int \<times> middfs_socks) option" where
  "middfs_socks_resize E newlen socks = do {
     ptr \<leftarrow> realloc_slots E (sk_sockinfos socks) newlen sizeof_sockinfo;
     Some (case ptr of
             None \<Rightarrow> (-1, socks)
           | Some b \<Rightarrow> (0, socks\<lparr>sk_sockinfos := b, sk_len := sint (ucast newlen :: u32)\<rparr>))
   }"

text \<open>Doubling \<open>len\<close> past \<open>INT_MAX\<close> is a signed overflow, which C leaves undefined.\<close>

definition middfs_socks_add ::
    "cenv \<Rightarrow> middfs_sockinfo \<Rightarrow> middfs_socks \<Rightarrow> (int \<times> middfs_socks) option" where
  "middfs_socks_add E sockinfo socks = do {
     (r, socks1) \<leftarrow>
       (if sk_count socks = sk_len socks
        then (if 2 * sk_len socks > INT_MAX then None
              else middfs_socks_resize E (word_of_int (max (2 * sk_len socks) 16)) socks)
        else Some (0, socks));
     if r < 0 then Some (-1, socks1)
     else do {
       infos \<leftarrow> slot_set (sk_sockinfos socks1) (nat (sk_count socks1)) (Some sockinfo);
       Some (0, socks1\<lparr>sk_sockinfos := infos, sk_count := sk_count socks1 + 1\<rparr>)
     }
   }"

definition middfs_socks_remove ::
    "(int \<Rightarrow> bool) \<Rightarrow> nat \<Rightarrow> middfs_socks \<Rightarrow> (int \<times> middfs_socks) option" where
  "middfs_socks_remove cl index socks =
     (if \<not> int index < sk_count socks then None
      else do {
        info \<leftarrow> slot_get (sk_sockinfos socks) index;
        (r, info1) \<leftarrow> middfs_sockinfo_delete cl info;
        infos \<leftarrow> slot_set (sk_sockinfos socks) index (Some info1);
        Some (if r < 0 then -1 else 0, socks\<lparr>sk_sockinfos := infos\<rparr>)
      })"

fun socks_remove_all ::
    "(int \<Rightarrow> bool) \<Rightarrow> nat list \<Rightarrow> int \<Rightarrow> middfs_socks \<Rightarrow> (int \<times> middfs_socks) option" where
  "socks_remove_all cl [] retv socks = Some (retv, socks)"
| "socks_remove_all cl (i # is) retv socks = do {
     (r, socks1) \<leftarrow> middfs_socks_remove cl i socks;
     socks_remove_all cl is (if r < 0 then -1 else retv) socks1
   }"

definition middfs_socks_delete :: "(int \<Rightarrow> bool) \<Rightarrow> middfs_socks \<Rightarrow> (int \<times> middfs_socks) option" where
  "middfs_socks_delete cl socks = do {
     (retv, socks1) \<leftarrow> socks_remove_all cl [0..<nat (sk_count socks)] 0 socks;
     case sk_sockinfos socks1 of
       Null \<Rightarrow> Some (retv, socks1)
     | Live _ \<Rightarrow> Some (retv, socks1\<lparr>sk_sockinfos := Freed\<rparr>)
     | Freed \<Rightarrow> None
   }"

subsection \<open>Packing\<close>

text \<open>\<open>middfs_sockinfo_move\<close> between two slots; with equal ones it only copies onto itself.\<close>

definition middfs_sockinfo_move ::
    "nat \<Rightarrow> nat \<Rightarrow> middfs_sockinfo option block \<Rightarrow> middfs_sockinfo option block option" where
  "middfs_sockinfo_move dst src infos = do {
     s \<leftarrow> slot_get infos src;
     infos1 \<leftarrow> slot_set infos dst (Some s);
     if dst \<noteq> src then do {
       s1 \<leftarrow> middfs_sockinfo_init MFD_NONE (-1) (-1) s;
       slot_set infos1 src (Some s1)
     }
     else Some infos1
   }"

text \<open>The inner loop: the first open socket among the candidates moves to the closed slot.\<close>

fun pack_inner ::
    "nat \<Rightarrow> nat list \<Rightarrow> middfs_sockinfo option block \<Rightarrow> middfs_sockinfo option block option" where
  "pack_inner closed_index [] infos = Some infos"
| "pack_inner closed_index (i # is) infos = do {
     info \<leftarrow> slot_get infos i;
     if middfs_sockinfo_isopen info then middfs_sockinfo_move closed_index i infos
     else pack_inner closed_index is infos
   }"

fun pack_outer ::
    "nat \<Rightarrow> nat list \<Rightarrow> int \<Rightarrow> middfs_sockinfo option block \<Rightarrow>
     (int \<times> middfs_sockinfo option block) option" where
  "pack_outer count [] nopen infos = Some (nopen, infos)"
| "pack_outer count (i # is) nopen infos = do {
     info \<leftarrow> slot_get infos i;
     if \<not> middfs_sockinfo_isopen info then do {
       infos1 \<leftarrow> pack_inner i [i + 1..<count] infos;
       pack_outer count is nopen infos1
     }
     else pack_outer count is (nopen + 1) infos
   }"

definition middfs_socks_pack :: "middfs_socks \<Rightarrow> (int \<times> middfs_socks) option" where
  "middfs_socks_pack socks = do {
     let count = nat (sk_count socks);
     (nopen, infos) \<leftarrow> pack_outer count [0..<count] 0 (sk_sockinfos socks);
     Some (nopen, socks\<lparr>sk_sockinfos := infos, sk_count := nopen\<rparr>)
   }"

subsection \<open>Polling\<close>

fun socks_pollfds_loop ::
    "nat list \<Rightarrow> pollfd list \<Rightarrow> u64 \<Rightarrow> nat \<Rightarrow> int \<Rightarrow> middfs_sockinfo option block \<Rightarrow>
     (nat \<times> pollfd list \<times> middfs_sockinfo option block) option" where
  "socks_pollfds_loop [] pfds nfds used err infos = Some (used, pfds, infos)"
| "socks_pollfds_loop (i # is) pfds nfds used err infos = do {
     info \<leftarrow> slot_get infos i;
     (k, pfds1, info1) \<leftarrow>
       middfs_sockinfo_pollfds pfds used (sizerem nfds (word_of_nat used)) info err;
     infos1 \<leftarrow> slot_set infos i (Some info1);
     socks_pollfds_loop is pfds1 nfds (used + k) err infos1
   }"

definition middfs_socks_pollfds ::
    "pollfd list \<Rightarrow> u64 \<Rightarrow> middfs_socks \<Rightarrow> (int \<times> pollfd list \<times> middfs_socks) option" where
  "middfs_socks_pollfds pfds nfds socks = do {
     let err = 0;
     (used, pfds1, infos) \<leftarrow>
       socks_pollfds_loop [0..<nat (sk_count socks)] pfds nfds 0 err (sk_sockinfos socks);
     Some (if err \<noteq> 0 then -1 else int used, pfds1, socks\<lparr>sk_sockinfos := infos\<rparr>)
   }"

fun socks_check_loop ::
    "(int \<Rightarrow> bool) \<Rightarrow> int list \<Rightarrow> nat list \<Rightarrow> int \<Rightarrow> middfs_socks \<Rightarrow> (int \<times> middfs_socks) option" where
  "socks_check_loop cl revs [] nready socks = Some (nready, socks)"
| "socks_check_loop cl revs (i # is) nready socks = do {
     info \<leftarrow> slot_get (sk_sockinfos socks) i;
     (revents, info1) \<leftarrow> middfs_sockinfo_check revs info;
     infos \<leftarrow> slot_set (sk_sockinfos socks) i (Some info1);
     let socks1 = socks\<lparr>sk_sockinfos := infos\<rparr>;
     if revents < 0 then do {
       (r, socks2) \<leftarrow> middfs_socks_remove cl i socks1;
       socks_check_loop cl revs is nready socks2
     }
     else socks_check_loop cl revs is (if revents > 0 then nready + 1 else nready) socks1
   }"

definition middfs_socks_check ::
    "(int \<Rightarrow> bool) \<Rightarrow> int list \<Rightarrow> middfs_socks \<Rightarrow> (int \<times> middfs_socks) option" where
  "middfs_socks_check cl revs socks =
     socks_check_loop cl revs [0..<nat (sk_count socks)] 0 socks"

type_synonym sys_poll = "pollfd list \<Rightarrow> int list option"

definition middfs_socks_poll ::
    "cenv \<Rightarrow> (int \<Rightarrow> bool) \<Rightarrow> sys_poll \<Rightarrow> middfs_socks \<Rightarrow> (int \<times> middfs_socks) option" where
  "middfs_socks_poll E cl pol socks = do {
     (nfds, _, socks1) \<leftarrow> middfs_socks_pollfds [] 0 socks;
     if nfds < 0 then Some (-1, socks1)
     else if \<not> calloc_ok E (word_of_int nfds) 8 then Some (-1, socks1)
     else do {
       let pfds = replicate (nat nfds) \<lparr>pfd_fd = 0, pfd_events = 0\<rparr>;
       (_, pfds1, socks2) \<leftarrow> middfs_socks_pollfds pfds (word_of_int nfds) socks1;
       case pol pfds1 of
         None \<Rightarrow> Some (-1, socks2)
       | Some revs \<Rightarrow> middfs_socks_check cl revs socks2
     }
   }"

end
