(* ===== verification/Middfs_Conn.thy ===== *)
theory Middfs_Conn
  imports Middfs_Sock
begin

text \<open>
  The connection manager, \<open>lib/middfs-conn.c\<close>, with the handler interface of
  \<open>lib/middfs-handler.h\<close>: the loop that polls the sockets and handles the events of each, and
  the state machine that reads one packet from a socket or writes one to it.

  The two functions of \<open>struct handler_info\<close> work on the socket and on the program's own global
  state, of type 'g. What the system calls of one event return is the record io.
\<close>

datatype handler_e = HS_ERR | HS_SUC | HS_NEW | HS_DEL

text \<open>\<open>io_junk\<close> is what the uninitialised \<open>new_sockinfo\<close> of \<open>server_loop\<close> holds.\<close>

record io =
  io_read :: sys_read
  io_write :: sys_write
  io_accept :: int
  io_connect :: "cstr \<Rightarrow> u32 \<Rightarrow> int"
  io_peer :: cstr
  io_close :: "int \<Rightarrow> bool"
  io_junk :: middfs_sockinfo

record 'g handler_info =
  rd_fin :: "io \<Rightarrow> middfs_packet \<Rightarrow> middfs_sockinfo \<times> 'g \<Rightarrow> (handler_e \<times> middfs_sockinfo \<times> 'g) option"
  wr_fin :: "io \<Rightarrow> middfs_sockinfo \<times> 'g \<Rightarrow> (handler_e \<times> middfs_sockinfo \<times> 'g) option"

section \<open>Reading and writing packets\<close>

definition set_in_buf :: "buffer \<Rightarrow> middfs_sockinfo \<Rightarrow> middfs_sockinfo" where
  "set_in_buf b info = info\<lparr>si_in := (si_in info)\<lparr>se_buf := b\<rparr>\<rparr>"

definition set_out_buf :: "buffer \<Rightarrow> middfs_sockinfo \<Rightarrow> middfs_sockinfo" where
  "set_out_buf b info = info\<lparr>si_out := (si_out info)\<lparr>se_buf := b\<rparr>\<rparr>"

definition handle_pkt_rd ::
    "cenv \<Rightarrow> 'g handler_info \<Rightarrow> io \<Rightarrow> middfs_sockinfo \<times> 'g \<Rightarrow>
     (handler_e \<times> middfs_sockinfo \<times> 'g) option" where
  "handle_pkt_rd E hi io s = do {
     let (sockinfo, g) = s;
     if si_revents sockinfo AND POLLIN = 0 then None
     else do {
       (bytes_read, buf1) \<leftarrow> buffer_read E (io_read io) (se_buf (si_in sockinfo));
       let sockinfo1 = set_in_buf buf1 sockinfo;
       if bytes_read < 0 \<or> bytes_read = 0 then Some (HS_DEL, sockinfo1, g)
       else do {
         let bytes_ready = buffer_used buf1;
         mem \<leftarrow> block_mem (buf_begin buf1);
         (bytes_required, in_pkt, errp) \<leftarrow> deserialize_pkt E mem bytes_ready zero_packet 0;
         if errp \<noteq> 0 then Some (HS_DEL, sockinfo1, g)
         else if bytes_required > bytes_ready then Some (HS_SUC, sockinfo1, g)
         else do {
           buf2 \<leftarrow> buffer_shift buf1 bytes_required;
           rd_fin hi io in_pkt (set_in_buf buf2 sockinfo1, g)
         }
       }
     }
   }"

definition handle_pkt_wr ::
    "cenv \<Rightarrow> 'g handler_info \<Rightarrow> io \<Rightarrow> middfs_sockinfo \<times> 'g \<Rightarrow>
     (handler_e \<times> middfs_sockinfo \<times> 'g) option" where
  "handle_pkt_wr E hi io s = do {
     let (sockinfo, g) = s;
     if si_revents sockinfo AND POLLOUT = 0 then None
     else do {
       (bytes_written, buf1) \<leftarrow> buffer_write (io_write io) (se_buf (si_out sockinfo));
       let sockinfo1 = set_out_buf buf1 sockinfo;
       if bytes_written < 0 then Some (HS_DEL, sockinfo1, g)
       else if bytes_written > 0 then Some (HS_SUC, sockinfo1, g)
       else wr_fin hi io (sockinfo1, g)
     }
   }"

definition handle_pkt_event ::
    "cenv \<Rightarrow> 'g handler_info \<Rightarrow> io \<Rightarrow> middfs_sockinfo \<times> 'g \<Rightarrow>
     (handler_e \<times> middfs_sockinfo \<times> 'g) option" where
  "handle_pkt_event E hi io s =
     (if si_revents (fst s) \<noteq> 0 then
        (case si_state (fst s) of
           MSS_REQRD \<Rightarrow> handle_pkt_rd E hi io s
         | MSS_RSPFWD \<Rightarrow> handle_pkt_rd E hi io s
         | MSS_RSPWR \<Rightarrow> handle_pkt_wr E hi io s
         | MSS_REQFWD \<Rightarrow> handle_pkt_wr E hi io s
         | _ \<Rightarrow> None)
      else Some (HS_SUC, s))"

section \<open>Listening\<close>

definition server_accept :: "io \<Rightarrow> int \<Rightarrow> int" where
  "server_accept io servfd = io_accept io"

text \<open>The result holds the socket and \<open>new_sockinfo\<close>.\<close>

definition handle_lstn_event ::
    "io \<Rightarrow> middfs_sockinfo \<Rightarrow> middfs_sockinfo \<Rightarrow>
     (handler_e \<times> middfs_sockinfo \<times> middfs_sockinfo) option" where
  "handle_lstn_event io sockinfo new_sockinfo =
     (if si_revents sockinfo AND POLLIN \<noteq> 0 then do {
        let clientfd = server_accept io (se_fd (si_in sockinfo));
        if clientfd < 0 then Some (HS_DEL, sockinfo, new_sockinfo)
        else do {
          new1 \<leftarrow> middfs_sockinfo_init MFD_PKT_IN clientfd (-1) new_sockinfo;
          Some (HS_NEW, sockinfo, new1)
        }
      }
      else Some (HS_SUC, sockinfo, new_sockinfo))"

definition handle_socket_event ::
    "cenv \<Rightarrow> 'g handler_info \<Rightarrow> io \<Rightarrow> middfs_sockinfo \<times> 'g \<Rightarrow> middfs_sockinfo \<Rightarrow>
     (handler_e \<times> middfs_sockinfo \<times> middfs_sockinfo \<times> 'g) option" where
  "handle_socket_event E hi io s new_sockinfo =
     (if middfs_sockinfo_isopen (fst s) then
        (case si_type (fst s) of
           MFD_PKT_IN \<Rightarrow> do {
             (st, info1, g1) \<leftarrow> handle_pkt_event E hi io s;
             Some (st, info1, new_sockinfo, g1)
           }
         | MFD_PKT_OUT \<Rightarrow> None
         | MFD_LSTN \<Rightarrow> do {
             (st, info1, new1) \<leftarrow> handle_lstn_event io (fst s) new_sockinfo;
             Some (st, info1, new1, snd s)
           }
         | MFD_NONE \<Rightarrow> None)
      else Some (HS_SUC, fst s, new_sockinfo, snd s))"

section \<open>The server loop\<close>

text \<open>
  What a socket's event did, applied to the table at its index. The result is Inl when
  \<open>server_loop\<close> returns -1 at once.
\<close>

definition apply_status ::
    "cenv \<Rightarrow> io \<Rightarrow> nat \<Rightarrow> handler_e \<Rightarrow> middfs_sockinfo \<Rightarrow> middfs_socks \<Rightarrow>
     (bool \<times> middfs_socks) option" where
  "apply_status E io index status new_sockinfo socks =
     (case status of
        HS_SUC \<Rightarrow> Some (True, socks)
      | HS_NEW \<Rightarrow> do {
          (r, socks1) \<leftarrow> middfs_socks_add E new_sockinfo socks;
          if r < 0 then do {
            (r', info') \<leftarrow> middfs_sockinfo_delete (io_close io) new_sockinfo;
            Some (False, socks1)
          }
          else Some (True, socks1)
        }
      | HS_DEL \<Rightarrow> do {
          (r, socks1) \<leftarrow> middfs_socks_remove (io_close io) index socks;
          Some (\<not> r < 0, socks1)
        }
      | HS_ERR \<Rightarrow> Some (False, socks))"

fun handle_events ::
    "cenv \<Rightarrow> 'g handler_info \<Rightarrow> (nat \<Rightarrow> io) \<Rightarrow> nat list \<Rightarrow> middfs_socks \<times> 'g \<Rightarrow>
     (int \<times> middfs_socks \<times> 'g) option" where
  "handle_events E hi ios [] s = Some (0, s)"
| "handle_events E hi ios (i # is) s = do {
     info \<leftarrow> slot_get (sk_sockinfos (fst s)) i;
     (status, info1, new1, g1) \<leftarrow>
       handle_socket_event E hi (ios i) (info, snd s) (io_junk (ios i));
     infos \<leftarrow> slot_set (sk_sockinfos (fst s)) i (Some info1);
     (continue, socks2) \<leftarrow>
       apply_status E (ios i) i status new1 ((fst s)\<lparr>sk_sockinfos := infos\<rparr>);
     if continue then handle_events E hi ios is (socks2, g1) else Some (-1, socks2, g1)
   }"

definition server_loop ::
    "cenv \<Rightarrow> 'g handler_info \<Rightarrow> sys_poll \<Rightarrow> (int \<Rightarrow> bool) \<Rightarrow> (nat \<Rightarrow> io) \<Rightarrow>
     middfs_socks \<times> 'g \<Rightarrow> (int \<times> middfs_socks \<times> 'g) option" where
  "server_loop E hi pol cl ios s = do {
     (readyfds, socks1) \<leftarrow> middfs_socks_poll E cl pol (fst s);
     if readyfds < 0 then Some (-1, socks1, snd s)
     else
       (let count = sk_count socks1
        in handle_events E hi ios [0..<nat count] (socks1, snd s))
   }"

section \<open>Starting to listen\<close>

text \<open>The results of the calls of \<open>server_start\<close>: a descriptor, then whether each succeeds.\<close>

record start_io =
  st_socket :: int
  st_setsockopt :: bool
  st_getaddrinfo :: bool
  st_bind :: bool
  st_listen :: bool
  st_close :: "int \<Rightarrow> bool"
  st_junk :: middfs_sockinfo

definition server_start :: "cenv \<Rightarrow> start_io \<Rightarrow> middfs_socks \<Rightarrow> (int \<times> middfs_socks) option" where
  "server_start E io socks =
     (if st_socket io < 0 then Some (-1, socks)
      else if \<not> st_setsockopt io then Some (-1, socks)
      else if \<not> st_getaddrinfo io then Some (-1, socks)
      else if \<not> st_bind io then Some (-1, socks)
      else if \<not> st_listen io then Some (-1, socks)
      else do {
        serv_sockinfo \<leftarrow> middfs_sockinfo_init MFD_LSTN (st_socket io) (-1) (st_junk io);
        (r, socks1) \<leftarrow> middfs_socks_add E serv_sockinfo socks;
        if r < 0 then do {
          (r1, info1) \<leftarrow> middfs_sockinfo_delete (st_close io) serv_sockinfo;
          (r2, socks2) \<leftarrow> middfs_socks_delete (st_close io) socks1;
          Some (-1, socks2)
        }
        else Some (0, socks1)
      })"

end
