(* ===== verification/Server_Clients.thy ===== *)
theory Server_Clients
  imports Middfs_Print "HOL-Library.Multiset"
begin

text \<open>
  The list of connected clients, \<open>server/middfs-client.c\<close>: a growing array kept sorted by user
  name with \<open>qsort\<close> and searched with \<open>bsearch\<close>.

  The C library's \<open>qsort\<close> is modelled as the stable sort it is in practice (a merge sort), and
  \<open>bsearch\<close> as the halving search; the properties below hold whichever of two clients of the
  same name comes first.
\<close>

section \<open>State\<close>

record client =
  cl_username :: cstr
  cl_IP :: cstr
  cl_port :: u32

record clients =
  cl_vec :: "client option block"
  cl_len :: u64
  cl_cnt :: u64

definition sizeof_client :: u64 where "sizeof_client = 24"

section \<open>One client\<close>

text \<open>
  The client is None when the function fails: its strings have been released. peer is the
  address \<open>getpeername\<close> and \<open>inet_ntoa\<close> give, None when one of them fails.
\<close>

definition client_create ::
    "cenv \<Rightarrow> middfs_connect \<Rightarrow> cstr \<Rightarrow> (int \<times> client option) option" where
  "client_create E conn peer =
     (case peer of
        None \<Rightarrow> Some (-1, None)
      | Some IP \<Rightarrow> do {
          username \<leftarrow> strdup E (conn_name conn);
          ip \<leftarrow> strdup E (Some IP);
          Some (if username = None \<or> ip = None then (-1, None)
                else (0, Some \<lparr>cl_username = username, cl_IP = ip, cl_port = conn_port conn\<rparr>))
        })"

text \<open>The line \<open>client_print\<close> writes; None is a null string handed to \<open>%s\<close>.\<close>

definition client_print :: "client \<Rightarrow> string option" where
  "client_print client = do {
     username \<leftarrow> cl_username client;
     IP \<leftarrow> cl_IP client;
     Some (''username = '' @ username @ '', port = '' @ fmt_u (cl_port client) @ '', IP = '' @ IP @ [CHR 0x0A])
   }"

definition client_cmp :: "client \<Rightarrow> client \<Rightarrow> int option" where
  "client_cmp c1 c2 = do { n1 \<leftarrow> cl_username c1; n2 \<leftarrow> cl_username c2; Some (strcmp n1 n2) }"

section \<open>The vector\<close>

definition clients_init :: clients where
  "clients_init = \<lparr>cl_vec = Null, cl_len = 0, cl_cnt = 0\<rparr>"

text \<open>\<open>client_delete\<close> of a slot: its strings are freed, so the slot must hold a client.\<close>

definition client_delete :: "nat \<Rightarrow> client option block \<Rightarrow> client option block option" where
  "client_delete i vec = do { c \<leftarrow> slot_get vec i; slot_set vec i None }"

fun clients_delete_loop :: "nat list \<Rightarrow> client option block \<Rightarrow> client option block option" where
  "clients_delete_loop [] vec = Some vec"
| "clients_delete_loop (i # is) vec = do {
     vec1 \<leftarrow> client_delete i vec;
     clients_delete_loop is vec1
   }"

definition clients_delete :: "clients \<Rightarrow> clients option" where
  "clients_delete cs = do {
     vec \<leftarrow> clients_delete_loop [0..<unat (cl_cnt cs)] (cl_vec cs);
     Some (cs\<lparr>cl_vec := (case vec of Live _ \<Rightarrow> Freed | b \<Rightarrow> b)\<rparr>)
   }"

text \<open>The slots in use; reading one that holds no client is undefined.\<close>

fun filled :: "'a option list \<Rightarrow> 'a list option" where
  "filled [] = Some []"
| "filled (x # xs) = do { c \<leftarrow> x; cs \<leftarrow> filled xs; Some (c # cs) }"

definition used_slots :: "clients \<Rightarrow> client list option" where
  "used_slots cs = do {
     v \<leftarrow> block_mem (cl_vec cs);
     v' \<leftarrow> (if unat (cl_cnt cs) \<le> length v then Some (take (unat (cl_cnt cs)) v) else None);
     filled v'
   }"

definition cl_key :: "client \<Rightarrow> string" where
  "cl_key c = (case cl_username c of None \<Rightarrow> [] | Some s \<Rightarrow> s)"

text \<open>Two or more elements are compared, so each of them needs a name.\<close>

definition clients_sort :: "clients \<Rightarrow> clients option" where
  "clients_sort cs = do {
     v \<leftarrow> block_mem (cl_vec cs);
     us \<leftarrow> used_slots cs;
     if 2 \<le> length us \<and> \<not> list_all (\<lambda>c. cl_username c \<noteq> None) us then None
     else Some (cs\<lparr>cl_vec :=
       block_set (cl_vec cs) (map Some (sort_key cl_key us) @ drop (length us) v)\<rparr>)
   }"

definition clients_remove :: "u64 \<Rightarrow> clients \<Rightarrow> clients option" where
  "clients_remove index cs = do {
     vec \<leftarrow> client_delete (unat index) (cl_vec cs);
     let cnt = cl_cnt cs - 1;
     let cs1 = cs\<lparr>cl_vec := vec, cl_cnt := cnt\<rparr>;
     if index < cnt then do {
       back \<leftarrow> slot_get vec (unat cnt);
       vec1 \<leftarrow> slot_set vec (unat index) (Some back);
       clients_sort (cs1\<lparr>cl_vec := vec1\<rparr>)
     }
     else Some cs1
   }"

text \<open>The first loop of \<open>clients_resize\<close> removes the last client until the others fit.\<close>

function clients_truncate :: "u64 \<Rightarrow> clients \<Rightarrow> clients option" where
  "clients_truncate newlen cs =
     (if newlen < cl_cnt cs then do {
        cs1 \<leftarrow> clients_remove (cl_cnt cs - 1) cs;
        if cl_cnt cs1 < cl_cnt cs then clients_truncate newlen cs1 else None
      }
      else Some cs)"
  by pat_completeness auto
termination
  by (relation "measure (\<lambda>(newlen, cs). unat (cl_cnt cs))") (simp_all add: word_less_nat_alt)

declare clients_truncate.simps [simp del]

definition clients_resize :: "cenv \<Rightarrow> clients \<Rightarrow> u64 \<Rightarrow> (int \<times> clients) option" where
  "clients_resize E cs newlen = do {
     cs1 \<leftarrow> clients_truncate newlen cs;
     newvec \<leftarrow> realloc_slots E (cl_vec cs1) newlen sizeof_client;
     Some (case newvec of
             None \<Rightarrow> (-1, cs1)
           | Some vec \<Rightarrow> (0, cs1\<lparr>cl_vec := vec, cl_len := newlen\<rparr>))
   }"

definition clients_add :: "cenv \<Rightarrow> client \<Rightarrow> clients \<Rightarrow> (int \<times> clients) option" where
  "clients_add E c cs = do {
     (r, cs1) \<leftarrow>
       (if cl_cnt cs = cl_len cs then clients_resize E cs (smax 1 (cl_len cs * 2))
        else Some (0, cs));
     if r < 0 then Some (-1, cs1)
     else do {
       vec \<leftarrow> slot_set (cl_vec cs1) (unat (cl_cnt cs1)) (Some c);
       cs2 \<leftarrow> clients_sort (cs1\<lparr>cl_vec := vec, cl_cnt := cl_cnt cs1 + 1\<rparr>);
       Some (0, cs2)
     }
   }"

text \<open>\<open>bsearch\<close>: the index of a matching element between l and u.\<close>

function bsearch :: "(nat \<Rightarrow> int option) \<Rightarrow> nat \<Rightarrow> nat \<Rightarrow> nat option option" where
  "bsearch compar l u =
     (if l < u then do {
        let idx = (l + u) div 2;
        r \<leftarrow> compar idx;
        if r < 0 then bsearch compar l idx
        else if r > 0 then bsearch compar (idx + 1) u
        else Some (Some idx)
      }
      else Some None)"
  by pat_completeness auto
termination by (relation "measure (\<lambda>(compar, l, u). u - l)") auto

declare bsearch.simps [simp del]

text \<open>The inner option is the pointer returned, as an index; None is NULL.\<close>

definition client_find :: "cstr \<Rightarrow> clients \<Rightarrow> nat option option" where
  "client_find username cs =
     (let key = \<lparr>cl_username = username, cl_IP = None, cl_port = 0\<rparr>
      in bsearch (\<lambda>i. do { c \<leftarrow> slot_get (cl_vec cs) i; client_cmp key c }) 0 (unat (cl_cnt cs)))"

definition S_IFDIR :: u32 where "S_IFDIR = 0x4000"

text \<open>The mode of every entry: a directory with the permission bits 0644.\<close>

definition client_dir_mode :: u32 where "client_dir_mode = 0x41A4"

fun dirents_of :: "cenv \<Rightarrow> client list \<Rightarrow> middfs_dirent list option" where
  "dirents_of E [] = Some []"
| "dirents_of E (c # cs) = do {
     nm \<leftarrow> strdup E (cl_username c);
     des \<leftarrow> dirents_of E cs;
     Some (\<lparr>mde_name = nm, mde_mode = client_dir_mode\<rparr> # des)
   }"

definition clients_readdir ::
    "cenv \<Rightarrow> clients \<Rightarrow> middfs_dir \<Rightarrow> (int \<times> middfs_dir) option" where
  "clients_readdir E cs dir =
     (if \<not> calloc_ok E (cl_cnt cs) 16 then Some (-1, dir\<lparr>mdir_ents := None\<rparr>)
      else do {
        us \<leftarrow> used_slots cs;
        des \<leftarrow> dirents_of E us;
        Some (0, dir\<lparr>mdir_ents := Some des, mdir_count := cl_cnt cs\<rparr>)
      })"

section \<open>Invariant\<close>

definition named :: "client \<Rightarrow> bool" where
  "named c \<longleftrightarrow> cl_username c \<noteq> None"

definition users :: "clients \<Rightarrow> client list" where
  "users cs = (case used_slots cs of None \<Rightarrow> [] | Some us \<Rightarrow> us)"

definition clients_ok :: "clients \<Rightarrow> bool" where
  "clients_ok cs \<longleftrightarrow>
     (case cl_vec cs of
        Null \<Rightarrow> cl_len cs = 0
      | Live v \<Rightarrow> length v = unat (cl_len cs)
      | Freed \<Rightarrow> False) \<and>
     unat (cl_len cs) * 24 < 2 ^ 63 \<and> cl_cnt cs \<le> cl_len cs \<and>
     (case used_slots cs of
        None \<Rightarrow> False
      | Some us \<Rightarrow> list_all named us \<and> sorted (map cl_key us))"

declare clients_ok_def [wf_simps]

end
