(* ===== verification/Clients_Laws.thy ===== *)
theory Clients_Laws
  imports Server_Clients
begin

text \<open>
  The client list as a directory of users: every operation keeps the array sorted and its
  slots filled, \<open>clients_add\<close> and \<open>clients_remove\<close> change it by the one client they are
  given, and the binary search of \<open>client_find\<close> finds a user exactly when there is one.
\<close>

section \<open>Slots\<close>

lemma filled_iff: "filled xs = Some cs \<longleftrightarrow> xs = map Some cs"
  by (induction xs arbitrary: cs) (auto simp: bind_Some_iff)

lemma filled_map_Some [simp]: "filled (map Some cs) = Some cs"
  by (simp add: filled_iff)

lemma clients_okE:
  assumes "clients_ok cs"
  obtains us rest where "block_mem (cl_vec cs) = Some (map Some us @ rest)"
    "length us = unat (cl_cnt cs)" "length us + length rest = unat (cl_len cs)"
    "users cs = us" "list_all named us" "sorted (map cl_key us)"
    "us = [] \<and> rest = [] \<or> cl_vec cs = Live (map Some us @ rest)"
    "unat (cl_len cs) * 24 < 2 ^ 63"
proof -
  obtain v where v: "block_mem (cl_vec cs) = Some v" "length v = unat (cl_len cs)"
    "v = [] \<or> cl_vec cs = Live v"
    using assms by (auto simp: clients_ok_def block_mem_def split: block.splits)
  obtain us where us: "used_slots cs = Some us" "list_all named us" "sorted (map cl_key us)"
    using assms by (auto simp: clients_ok_def split: option.splits)
  then have t: "take (unat (cl_cnt cs)) v = map Some us" "unat (cl_cnt cs) \<le> length v"
    using v by (auto simp: used_slots_def filled_iff bind_Some_iff split: if_splits)
  then have len: "length us = unat (cl_cnt cs)" by (metis length_map length_take min.absorb2)
  have "v = map Some us @ drop (unat (cl_cnt cs)) v" using t(1) by (metis append_take_drop_id)
  with v us t len assms show thesis
    by (intro that [of us "drop (unat (cl_cnt cs)) v"]) (auto simp: users_def clients_ok_def)
qed

lemma users_eqI:
  "block_mem (cl_vec cs) = Some (map Some us @ rest) \<Longrightarrow> length us = unat (cl_cnt cs) \<Longrightarrow>
   used_slots cs = Some us \<and> users cs = us"
  by (simp add: used_slots_def users_def)

text \<open>A well-formed list is one whose array has these slots.\<close>

lemma clients_okI:
  assumes "cl_vec cs = Live (map Some us @ rest)" "length us = unat (cl_cnt cs)"
    "length us + length rest = unat (cl_len cs)" "unat (cl_len cs) * 24 < 2 ^ 63"
    "list_all named us" "sorted (map cl_key us)"
  shows "clients_ok cs" "users cs = us"
proof -
  have "used_slots cs = Some us \<and> users cs = us"
    using assms by (intro users_eqI [where rest = rest]) (simp_all add: block_mem_def)
  with assms show "clients_ok cs" "users cs = us"
    by (auto simp: clients_ok_def word_le_nat_alt)
qed

lemma sort_result:
  assumes "cl_vec cs = Live (map Some us @ rest)" "length us = unat (cl_cnt cs)"
    "length us + length rest = unat (cl_len cs)" "unat (cl_len cs) * 24 < 2 ^ 63"
    "list_all named us"
  obtains cs' where "clients_sort cs = Some cs'" "clients_ok cs'"
    "users cs' = sort_key cl_key us" "cl_len cs' = cl_len cs" "cl_cnt cs' = cl_cnt cs"
proof -
  let ?us = "sort_key cl_key us"
  let ?cs = "cs\<lparr>cl_vec := Live (map Some ?us @ rest)\<rparr>"
  have "used_slots cs = Some us"
    using assms users_eqI [of cs us rest] by (simp add: block_mem_def)
  then have "clients_sort cs = Some ?cs"
    using assms(1,5) by (simp add: clients_sort_def block_mem_def block_set_def named_def list_all_iff)
  moreover have "list_all named ?us" using assms(5) by (simp add: list_all_iff)
  then have "clients_ok ?cs" "users ?cs = ?us"
    using assms by (auto intro!: clients_okI [where us = ?us and rest = rest])
  ultimately show thesis by (intro that [of ?cs]) simp_all
qed

lemma clients_init_ok [simp]: "clients_ok clients_init" "users clients_init = []"
  by (simp_all add: clients_ok_def clients_init_def used_slots_def block_mem_def users_def)

lemma length_users: "clients_ok cs \<Longrightarrow> length (users cs) = unat (cl_cnt cs)"
  by (erule clients_okE) simp

section \<open>Adding\<close>

text \<open>There is a free slot, or the array can be given twice as many (or the first).\<close>

definition clients_room :: "cenv \<Rightarrow> clients \<Rightarrow> bool" where
  "clients_room E cs \<longleftrightarrow>
     cl_cnt cs \<noteq> cl_len cs \<or>
     (let n = 24 * max 1 (2 * unat (cl_len cs)) in n < 2 ^ 63 \<and> can_alloc E n)"

lemma clients_resize_cases:
  assumes ok: "clients_ok cs" and n: "cl_len cs \<le> newlen" "newlen \<noteq> 0" "unat newlen * 24 < 2 ^ 64"
  obtains (fail) "clients_resize E cs newlen = Some (-1, cs)"
      "\<not> (24 * unat newlen < 2 ^ 63 \<and> can_alloc E (24 * unat newlen))"
  | (grown) cs' rest where "clients_resize E cs newlen = Some (0, cs')"
      "cl_vec cs' = Live (map Some (users cs) @ rest)" "cl_len cs' = newlen"
      "cl_cnt cs' = cl_cnt cs" "length (users cs) + length rest = unat newlen"
      "24 * unat newlen < 2 ^ 63" "can_alloc E (24 * unat newlen)"
proof -
  obtain us rest where v: "block_mem (cl_vec cs) = Some (map Some us @ rest)"
    "length us = unat (cl_cnt cs)" "length us + length rest = unat (cl_len cs)" "users cs = us"
    by (rule clients_okE [OF ok])
  have cnt: "unat (cl_cnt cs) \<le> unat newlen" using v n by (simp add: word_le_nat_alt)
  have len: "unat (cl_len cs) \<le> unat newlen" using n by (simp add: word_le_nat_alt)
  have bytes: "unat (newlen * sizeof_client) = unat newlen * 24"
    using n(3) by (simp add: sizeof_client_def unat_word_ariths)
  have nz: "newlen * sizeof_client \<noteq> 0"
    using bytes n(2) by (metis mult_eq_0_iff unat_eq_0 zero_neq_numeral)
  have k: "unat (newlen * sizeof_client) div unat sizeof_client = unat newlen"
    unfolding bytes by (simp add: sizeof_client_def)
  have trunc: "clients_truncate newlen cs = Some cs"
    using cnt by (subst clients_truncate.simps) (simp add: word_less_nat_alt)
  show thesis
  proof (cases "newlen * sizeof_client \<le> PTRDIFF_MAX \<and> can_alloc E (unat (newlen * sizeof_client))")
    case True
    let ?new = "map Some us @ rest @ replicate (unat newlen - unat (cl_len cs)) None"
    have "realloc_slots E (cl_vec cs) newlen sizeof_client = Some (Some (Live ?new))"
      using True nz v len by (simp add: realloc_slots_def k)
    moreover have "24 * unat newlen < 2 ^ 63" "can_alloc E (24 * unat newlen)"
      using True bytes by (simp_all add: word_le_nat_alt PTRDIFF_MAX_def mult.commute)
    ultimately show thesis
      using v len trunc
      by (intro grown [of "cs\<lparr>cl_vec := Live ?new, cl_len := newlen\<rparr>"
            "rest @ replicate (unat newlen - unat (cl_len cs)) None"])
        (simp_all add: clients_resize_def)
  next
    case False
    then have "realloc_slots E (cl_vec cs) newlen sizeof_client = Some None"
      using nz v by (auto simp: realloc_slots_def)
    moreover have "\<not> (24 * unat newlen < 2 ^ 63 \<and> can_alloc E (24 * unat newlen))"
      using False bytes by (simp add: word_le_nat_alt PTRDIFF_MAX_def mult.commute)
    ultimately show thesis using trunc by (intro fail) (simp_all add: clients_resize_def)
  qed
qed

lemma add_slot:
  assumes "cl_vec cs = Live (map Some us @ rest)" "length us = unat (cl_cnt cs)"
    "length us + length rest = unat (cl_len cs)" "unat (cl_len cs) * 24 < 2 ^ 63"
    "list_all named us" "named c" "rest \<noteq> []"
  obtains cs' where
    "do { vec \<leftarrow> slot_set (cl_vec cs) (unat (cl_cnt cs)) (Some c);
          cs2 \<leftarrow> clients_sort (cs\<lparr>cl_vec := vec, cl_cnt := cl_cnt cs + 1\<rparr>);
          Some (0, cs2) } = Some (0 :: int, cs')"
    "clients_ok cs'" "users cs' = sort_key cl_key (us @ [c])"
proof -
  obtain r rest' where r: "rest = r # rest'" using assms(7) by (cases rest) auto
  let ?v = "map Some (us @ [c]) @ rest'"
  let ?cs = "cs\<lparr>cl_vec := Live ?v, cl_cnt := cl_cnt cs + 1\<rparr>"
  have "unat (cl_cnt cs) + unat (1 :: u64) < 2 ^ 64"
    using assms(2,3,4) r unat_u64_less [of "cl_len cs"] by simp
  then have cnt: "unat (cl_cnt cs + 1) = unat (cl_cnt cs) + 1"
    by (subst unat_add_u64) simp_all
  have "slot_set (cl_vec cs) (unat (cl_cnt cs)) (Some c) = Some (Live ?v)"
    using assms(1,2) r
    by (simp add: slot_set_def block_mem_def block_set_def list_update_append)
  moreover obtain cs' where "clients_sort ?cs = Some cs'" "clients_ok cs'"
    "users cs' = sort_key cl_key (us @ [c])"
    by (rule sort_result [of ?cs "us @ [c]" rest']) (use assms r cnt in auto)
  ultimately show thesis by (intro that [of cs']) simp_all
qed

lemma add_cases:
  assumes ok: "clients_ok cs" and c: "named c"
  obtains (fail) "clients_add E c cs = Some (-1, cs)" "\<not> clients_room E cs"
  | (added) cs' where "clients_add E c cs = Some (0, cs')" "clients_ok cs'"
      "users cs' = sort_key cl_key (users cs @ [c])" "clients_room E cs"
proof -
  obtain us rest where v: "block_mem (cl_vec cs) = Some (map Some us @ rest)"
    "length us = unat (cl_cnt cs)" "length us + length rest = unat (cl_len cs)" "users cs = us"
    "list_all named us" "us = [] \<and> rest = [] \<or> cl_vec cs = Live (map Some us @ rest)"
    "unat (cl_len cs) * 24 < 2 ^ 63"
    by (rule clients_okE [OF ok])
  show thesis
  proof (cases "cl_cnt cs = cl_len cs")
    case False
    then have "unat (cl_cnt cs) \<noteq> unat (cl_len cs)" by (metis word_unat_eq_iff)
    with v have "rest \<noteq> []" "cl_vec cs = Live (map Some us @ rest)" by auto
    then obtain cs' where
      "do { vec \<leftarrow> slot_set (cl_vec cs) (unat (cl_cnt cs)) (Some c);
            cs2 \<leftarrow> clients_sort (cs\<lparr>cl_vec := vec, cl_cnt := cl_cnt cs + 1\<rparr>);
            Some (0, cs2) } = Some (0 :: int, cs')"
      "clients_ok cs'" "users cs' = sort_key cl_key (us @ [c])"
      using v c by (elim add_slot [rotated -1]) auto
    with False v show thesis by (intro added [of cs']) (simp_all add: clients_add_def clients_room_def)
  next
    case True
    let ?n = "smax 1 (cl_len cs * 2)"
    have two: "unat (cl_len cs * 2) = 2 * unat (cl_len cs)"
      using v(7) by (simp add: unat_word_ariths)
    have n: "cl_len cs \<le> ?n" "?n \<noteq> 0" "unat ?n * 24 < 2 ^ 64"
      using v(7) two by (auto simp: word_le_nat_alt unat_eq_0 [symmetric])
    have room: "clients_room E cs \<longleftrightarrow> 24 * unat ?n < 2 ^ 63 \<and> can_alloc E (24 * unat ?n)"
      using True two
      by (auto simp: clients_room_def Let_def smax_def max_def word_less_nat_alt)
    show thesis
    proof (rule clients_resize_cases [OF ok n, of E])
      assume "clients_resize E cs ?n = Some (-1, cs)"
        "\<not> (24 * unat ?n < 2 ^ 63 \<and> can_alloc E (24 * unat ?n))"
      with True room show thesis by (intro fail) (simp_all add: clients_add_def)
    next
      fix cs1 rest1 assume g: "clients_resize E cs ?n = Some (0, cs1)"
        "cl_vec cs1 = Live (map Some (users cs) @ rest1)" "cl_len cs1 = ?n"
        "cl_cnt cs1 = cl_cnt cs" "length (users cs) + length rest1 = unat ?n"
        "24 * unat ?n < 2 ^ 63" "can_alloc E (24 * unat ?n)"
      have "length us < unat ?n" using v(2,4) two True by simp
      with g(5) v(4) have "rest1 \<noteq> []" by auto
      then obtain cs' where
        "do { vec \<leftarrow> slot_set (cl_vec cs1) (unat (cl_cnt cs1)) (Some c);
              cs2 \<leftarrow> clients_sort (cs1\<lparr>cl_vec := vec, cl_cnt := cl_cnt cs1 + 1\<rparr>);
              Some (0, cs2) } = Some (0 :: int, cs')"
        "clients_ok cs'" "users cs' = sort_key cl_key (us @ [c])"
        using g v c by (elim add_slot [rotated -1]) auto
      with True g(1,6,7) room v(4) show thesis by (intro added [of cs']) (simp_all add: clients_add_def)
    qed
  qed
qed

section \<open>Removing\<close>

lemma remove_result:
  assumes ok: "clients_ok cs" and i: "i < cl_cnt cs"
  obtains cs' where "clients_remove i cs = Some cs'" "clients_ok cs'"
    "mset (users cs') = mset (users cs) - {#users cs ! unat i#}"
    "unat (cl_cnt cs') = unat (cl_cnt cs) - 1"
proof -
  let ?i = "unat i" and ?n = "unat (cl_cnt cs) - 1"
  obtain us rest where v: "block_mem (cl_vec cs) = Some (map Some us @ rest)"
    "length us = unat (cl_cnt cs)" "length us + length rest = unat (cl_len cs)" "users cs = us"
    "list_all named us" "sorted (map cl_key us)"
    "us = [] \<and> rest = [] \<or> cl_vec cs = Live (map Some us @ rest)" "unat (cl_len cs) * 24 < 2 ^ 63"
    by (rule clients_okE [OF ok])
  have il: "?i < length us" using i v by (simp add: word_less_nat_alt)
  then have live: "cl_vec cs = Live (map Some us @ rest)" using v by auto
  have cnt: "unat (cl_cnt cs - 1) = ?n" using il v by (simp add: unat_sub_if' del: length_0_conv)
  define bl where "bl = butlast us"
  define z where "z = last us"
  have "us \<noteq> []" using il by auto
  then have us: "us = bl @ [z]" "length bl = ?n" using v(2) by (simp_all add: bl_def z_def)
  let ?v1 = "(map Some us @ rest)[?i := None]"
  have del: "client_delete ?i (cl_vec cs) = Some (Live ?v1)"
    using live il
    by (simp add: client_delete_def slot_get_def slot_set_def block_mem_def block_set_def nth_append)
  have named: "list_all named bl" "named z" using v(5) us by auto
  show thesis
  proof (cases "?i < ?n")
    case False
    then have last: "?i = ?n" using il v by simp
    then have v1: "?v1 = map Some bl @ None # rest"
      using us by (simp add: list_update_append)
    let ?cs = "cs\<lparr>cl_vec := Live (map Some bl @ None # rest), cl_cnt := cl_cnt cs - 1\<rparr>"
    have "clients_remove i cs = Some ?cs"
      using del v1 False cnt by (simp add: clients_remove_def Let_def word_less_nat_alt)
    moreover have "sorted (map cl_key bl)" using v(6) us by (simp add: sorted_append)
    then have "clients_ok ?cs" "users ?cs = bl"
      using v us cnt named by (auto intro!: clients_okI [where us = bl and rest = "None # rest"])
    moreover have "us ! ?i = z" using us last by (metis nth_append_length)
    then have "mset bl = mset us - {#us ! ?i#}" using us(1) by simp
    ultimately show thesis using v(4) cnt by (intro that [of ?cs]) simp_all
  next
    case True
    let ?bl = "bl[?i := z]"
    have v1: "?v1 = (map Some bl)[?i := None] @ Some z # rest"
      using us True by (simp add: list_update_append)
    let ?vec = "Live (map Some ?bl @ Some z # rest)"
    have fill: "slot_get (Live ?v1) ?n = Some z"
      using us True v(2) by (simp add: v1 slot_get_def block_mem_def nth_append)
    have put: "slot_set (Live ?v1) ?i (Some z) = Some ?vec"
      using us True
      by (simp add: v1 slot_set_def block_mem_def block_set_def list_update_append map_update)
    let ?cs = "cs\<lparr>cl_cnt := cl_cnt cs - 1, cl_vec := ?vec\<rparr>"
    obtain cs' where s: "clients_sort ?cs = Some cs'" "clients_ok cs'"
      "users cs' = sort_key cl_key ?bl" "cl_cnt cs' = cl_cnt ?cs"
    proof (rule sort_result [of ?cs ?bl "Some z # rest"])
      show "list_all named ?bl"
        using named True us by (auto simp: list_all_iff dest!: set_update_subset_insert [THEN subsetD])
    qed (use v us cnt in auto)
    have "clients_remove i cs = Some cs'"
      using del fill put s(1) True cnt
      by (simp add: clients_remove_def Let_def word_less_nat_alt)
    moreover have "mset ?bl = mset us - {#us ! ?i#}"
      using us True by (simp add: mset_update nth_append)
    ultimately show thesis using s v(4) cnt by (intro that [of cs']) simp_all
  qed
qed

section \<open>Finding\<close>

lemma bsearch_sorted:
  assumes cmp: "\<And>i. i < length ks \<Longrightarrow> compar i = Some (strcmp k (ks ! i))"
    and sorted: "sorted ks" and range: "u \<le> length ks"
    and inside: "\<And>i. i < length ks \<Longrightarrow> ks ! i = k \<Longrightarrow> l \<le> i \<and> i < u"
  shows "\<exists>r. bsearch compar l u = Some r \<and>
    (case r of None \<Rightarrow> k \<notin> set ks | Some i \<Rightarrow> i < length ks \<and> ks ! i = k)"
  using range inside
proof (induction "u - l" arbitrary: l u rule: less_induct)
  case less
  show ?case
  proof (cases "l < u")
    case False
    with less.prems(2) have "k \<notin> set ks" by (metis in_set_conv_nth le_less_trans)
    with False show ?thesis by (subst bsearch.simps) simp
  next
    case True
    let ?m = "(l + u) div 2"
    have m: "l \<le> ?m" "?m < u" "?m < length ks" using True less.prems(1) by auto
    note mono = sorted_nth_mono [OF sorted]
    have step: "bsearch compar l u =
        (if k < ks ! ?m then bsearch compar l ?m
         else if ks ! ?m < k then bsearch compar (?m + 1) u else Some (Some ?m))"
      using True m cmp by (subst bsearch.simps) simp
    consider "k < ks ! ?m" | "ks ! ?m < k" | "ks ! ?m = k" by force
    then show ?thesis
    proof cases
      case 1
      have "l \<le> i \<and> i < ?m" if "i < length ks" "ks ! i = k" for i
        using less.prems(2) [OF that] mono [of ?m i] that 1 by (auto simp: not_less [symmetric])
      with less.hyps [of ?m l] m 1 step show ?thesis by (simp add: diff_less_mono)
    next
      case 2
      have "?m + 1 \<le> i \<and> i < u" if "i < length ks" "ks ! i = k" for i
        using less.prems(2) [OF that] mono [of i ?m] that 2 m by (auto simp: not_less [symmetric] Suc_le_eq)
      moreover have "u - (?m + 1) < u - l" using m by linarith
      ultimately show ?thesis
        using less.hyps [of u "?m + 1"] less.prems(1) 2 step by auto
    next
      case 3
      with step m show ?thesis by simp
    qed
  qed
qed

lemma find_result:
  assumes ok: "clients_ok cs"
  obtains r where "client_find (Some n) cs = Some r"
    "r = None \<Longrightarrow> Some n \<notin> cl_username ` set (users cs)"
    "\<And>i. r = Some i \<Longrightarrow> i < length (users cs) \<and> cl_username (users cs ! i) = Some n \<and>
       slot_get (cl_vec cs) i = Some (users cs ! i)"
proof -
  obtain us rest where v: "block_mem (cl_vec cs) = Some (map Some us @ rest)"
    "length us = unat (cl_cnt cs)" "users cs = us" "list_all named us" "sorted (map cl_key us)"
    by (rule clients_okE [OF ok])
  have get: "slot_get (cl_vec cs) i = Some (us ! i)" if "i < length us" for i
    using that v(1) by (simp add: slot_get_def nth_append)
  have name: "cl_username (us ! i) = Some (cl_key (us ! i))" if "i < length us" for i
    using that v(4) by (auto simp: list_all_length named_def cl_key_def)
  let ?cmp = "\<lambda>i. do { c \<leftarrow> slot_get (cl_vec cs) i;
      client_cmp \<lparr>cl_username = Some n, cl_IP = None, cl_port = 0\<rparr> c }"
  have "\<exists>r. bsearch ?cmp 0 (unat (cl_cnt cs)) = Some r \<and>
    (case r of None \<Rightarrow> n \<notin> set (map cl_key us)
     | Some i \<Rightarrow> i < length (map cl_key us) \<and> map cl_key us ! i = n)"
    by (rule bsearch_sorted) (use v get name in \<open>auto simp: client_cmp_def\<close>)
  then obtain r where r: "client_find (Some n) cs = Some r"
    "case r of None \<Rightarrow> n \<notin> cl_key ` set us | Some i \<Rightarrow> i < length us \<and> cl_key (us ! i) = n"
    by (auto simp: client_find_def split: option.splits)
  show thesis
  proof (rule that [OF r(1)])
    show "Some n \<notin> cl_username ` set (users cs)" if "r = None"
    proof
      assume "Some n \<in> cl_username ` set (users cs)"
      then obtain c where "c \<in> set us" "cl_username c = Some n" using v(3) by auto
      with r(2) that show False by (auto simp: image_iff cl_key_def)
    qed
  qed (use r(2) name get v(3) in auto)
qed

section \<open>Listing\<close>

lemma dirents_of_all:
  "list_all named us \<Longrightarrow>
   \<exists>des. dirents_of E us = Some des \<and> length des = length us \<and>
     (\<forall>i < length us. mde_mode (des ! i) = client_dir_mode \<and>
        mde_name (des ! i) = (if can_alloc E (length (cl_key (us ! i)) + 1)
                              then cl_username (us ! i) else None))"
proof (induction us)
  case Nil
  then show ?case by simp
next
  case (Cons u us)
  then obtain des s where "dirents_of E us = Some des" "cl_username u = Some s"
    and "length des = length us \<and> (\<forall>i < length us. mde_mode (des ! i) = client_dir_mode \<and>
        mde_name (des ! i) = (if can_alloc E (length (cl_key (us ! i)) + 1)
                              then cl_username (us ! i) else None))"
    by (auto simp: named_def)
  then show ?case
    by (auto simp: strdup_def cl_key_def nth_Cons split: nat.splits)
qed

lemma clients_used_slots: "clients_ok cs \<Longrightarrow> used_slots cs = Some (users cs) \<and> list_all named (users cs)"
  by (auto simp: clients_ok_def users_def split: option.splits)

section \<open>The interface of the client list\<close>

text \<open>
  What the server's handler (\<open>server/middfs-server-handler.c\<close>) relies on. A list takes a new
  client when it has room for it, and is otherwise unchanged.
\<close>

locale user_directory =
  fixes inv :: "'s \<Rightarrow> bool" and room :: "'s \<Rightarrow> bool" and listing :: "'s \<Rightarrow> client list"
    and add :: "client \<Rightarrow> 's \<Rightarrow> (int \<times> 's) option" and remove :: "u64 \<Rightarrow> 's \<Rightarrow> 's option"
    and find :: "string \<Rightarrow> 's \<Rightarrow> nat option option"
  assumes add_law: "inv s \<Longrightarrow> named c \<Longrightarrow>
      \<exists>r s'. add c s = Some (r, s') \<and> inv s' \<and>
        (if room s then r = 0 \<and> mset (listing s') = add_mset c (mset (listing s)) else r = -1 \<and> s' = s)"
    and remove_law: "inv s \<Longrightarrow> unat i < length (listing s) \<Longrightarrow>
      \<exists>s'. remove i s = Some s' \<and> inv s' \<and>
        mset (listing s') = mset (listing s) - {#listing s ! unat i#}"
    and find_law: "inv s \<Longrightarrow>
      \<exists>r. find n s = Some r \<and>
        (case r of
           None \<Rightarrow> Some n \<notin> cl_username ` set (listing s)
         | Some i \<Rightarrow> i < length (listing s) \<and> cl_username (listing s ! i) = Some n)"
    and bounded: "inv s \<Longrightarrow> length (listing s) < 2 ^ 64"
begin

definition count_name :: "string \<Rightarrow> 's \<Rightarrow> nat" where
  "count_name n s = size {#c \<in># mset (listing s). cl_username c = Some n#}"

lemma find_iff: "inv s \<Longrightarrow> \<exists>r. find n s = Some r \<and> (r = None \<longleftrightarrow> count_name n s = 0)"
proof -
  assume "inv s"
  from find_law [OF this, of n] obtain r where r: "find n s = Some r"
    "case r of
       None \<Rightarrow> Some n \<notin> cl_username ` set (listing s)
     | Some i \<Rightarrow> i < length (listing s) \<and> cl_username (listing s ! i) = Some n" by blast
  have "count_name n s = 0 \<longleftrightarrow> Some n \<notin> cl_username ` set (listing s)"
    by (force simp: count_name_def image_iff)
  moreover have "Some n \<in> cl_username ` set (listing s)" if "r = Some i" for i
    using r(2) that by (metis (mono_tags, lifting) image_eqI nth_mem option.simps(5))
  ultimately show ?thesis using r by (cases r) auto
qed

text \<open>Adding loses no client.\<close>

lemma add_grows:
  assumes "inv s" "named c" "add c s = Some (r, s')"
  shows "set (listing s) \<subseteq> set (listing s')"
proof -
  have "mset (listing s') = add_mset c (mset (listing s)) \<or> s' = s"
    using add_law [OF assms(1,2)] assms(3) by (auto split: if_splits)
  then show ?thesis by (auto dest: arg_cong [where f = set_mset])
qed

text \<open>A client that was just added is found, under its name.\<close>

lemma find_added:
  assumes "inv s" "cl_username c = Some n" "add c s = Some (0, s')"
  shows "\<exists>i. find n s' = Some (Some i) \<and> i < length (listing s') \<and>
           cl_username (listing s' ! i) = Some n"
proof -
  have "named c" using assms(2) by (simp add: named_def)
  with add_law [OF assms(1)] assms(3) have s': "inv s'"
    "mset (listing s') = add_mset c (mset (listing s))" by (fastforce split: if_splits)+
  then have "Some n \<in> cl_username ` set (listing s')"
    using assms(2) by (metis image_eqI set_mset_mset union_single_eq_member)
  with find_law [OF s'(1), of n] show ?thesis by (auto split: option.splits)
qed

text \<open>Removing what was found leaves one client of that name less.\<close>

lemma remove_found:
  assumes "inv s" "find n s = Some (Some i)"
  shows "\<exists>s'. remove (word_of_nat i) s = Some s' \<and> inv s' \<and> count_name n s = Suc (count_name n s')"
proof -
  have i: "i < length (listing s)" "cl_username (listing s ! i) = Some n"
    using find_law [OF assms(1), of n] assms(2) by auto
  have u: "unat (word_of_nat i :: u64) = i"
    using i(1) bounded [OF assms(1)] by (intro unat_of_nat_u64) simp
  with remove_law [OF assms(1), of "word_of_nat i"] i obtain s'
    where s': "remove (word_of_nat i) s = Some s'" "inv s'"
      "mset (listing s') = mset (listing s) - {#listing s ! i#}" by auto
  have "mset (listing s) = add_mset (listing s ! i) (mset (listing s'))"
    using s'(3) i(1) by simp
  with s' i show ?thesis by (auto simp: count_name_def)
qed

end

interpretation directory: user_directory clients_ok "clients_room E" users "clients_add E" clients_remove
  "\<lambda>n. client_find (Some n)"
proof (unfold_locales, goal_cases)
  case (1 s c)
  show ?case by (rule add_cases [OF 1, of E]) (use 1 in auto)
next
  case (2 s i)
  then have "i < cl_cnt s" by (simp add: length_users word_less_nat_alt)
  then show ?case by (rule remove_result [OF 2(1)]) auto
next
  case (3 s n)
  show ?case by (rule find_result [OF 3, of n]) (auto split: option.splits)
next
  case (4 s)
  then show ?case using unat_u64_bound [of "cl_cnt s"] by (simp add: length_users)
qed

end
