(* ===== verification/Server_Handler.thy ===== *)
theory Server_Handler
  imports Middfs_Conn Clients_Laws
begin

text \<open>
  The server's packet handlers, \<open>server/middfs-server-handler.c\<close>. The global state is the list
  of clients. A socket goes from reading a request (REQRD) either straight to writing the
  response (RSPWR), or through forwarding the request to the owner's client (REQFWD) and
  reading the response there (RSPFWD).
\<close>

text \<open>The bits of \<open>R_OK | W_OK | X_OK\<close>.\<close>

definition ACCESS_BITS :: u32 where "ACCESS_BITS = 7"

section \<open>Connecting\<close>

definition handle_connect ::
    "cenv \<Rightarrow> io \<Rightarrow> middfs_packet \<Rightarrow> middfs_sockinfo \<times> clients \<Rightarrow>
     (handler_e \<times> middfs_sockinfo \<times> clients) option" where
  "handle_connect E io in_pkt s = do {
     let (sockinfo, clients) = s;
     conn \<leftarrow> get_connect (mpkt_un in_pkt);
     (r, client) \<leftarrow> client_create E conn (io_peer io);
     if r < 0 then Some (HS_DEL, sockinfo, clients)
     else do {
       c \<leftarrow> client;
       (r', clients1) \<leftarrow> clients_add E c clients;
       if r' < 0 then Some (HS_DEL, sockinfo, clients1)
       else do {
         _ \<leftarrow> client_print c;
         Some (HS_DEL, sockinfo, clients1)
       }
     }
   }"

section \<open>Requests\<close>

text \<open>The socket turns to the client it read from: \<open>in\<close> becomes \<open>out\<close>.\<close>

definition answer_client :: "middfs_sockinfo \<Rightarrow> middfs_sockinfo" where
  "answer_client info =
     info\<lparr>si_state := MSS_RSPWR, si_out := (si_out info)\<lparr>se_fd := se_fd (si_in info)\<rparr>,
          si_in := (si_in info)\<lparr>se_fd := -1\<rparr>\<rparr>"

definition root_response ::
    "cenv \<Rightarrow> middfs_request \<Rightarrow> clients \<Rightarrow> middfs_response \<Rightarrow> middfs_response option" where
  "root_response E req clients rsp =
     (case mreq_type req of
        MREQ_READDIR \<Rightarrow> do {
          let rsp1 = response_init rsp MRSP_DIR;
          (r, dir) \<leftarrow> clients_readdir E clients (old_dir (mrsp_un rsp1));
          let rsp2 = rsp1\<lparr>mrsp_un := Rsp_dir dir\<rparr>;
          Some (if r < 0 then response_error rsp2 ENOMEM else rsp2)
        }
      | MREQ_ACCESS \<Rightarrow>
          (let mode = mreq_mode req in
           Some (if mode AND ACCESS_BITS \<noteq> mode then response_error rsp EINVAL
                 else response_init rsp MRSP_OK))
      | MREQ_RENAME \<Rightarrow> Some (response_error rsp EPERM)
      | _ \<Rightarrow> Some (response_error rsp ENOENT))"

definition handle_req_rd_fin_root ::
    "cenv \<Rightarrow> middfs_request \<Rightarrow> middfs_response \<Rightarrow> middfs_sockinfo \<times> clients \<Rightarrow>
     (handler_e \<times> middfs_response \<times> middfs_sockinfo) option" where
  "handle_req_rd_fin_root E req rsp s = do {
     rsp1 \<leftarrow> root_response E req (snd s) rsp;
     Some (HS_SUC, rsp1, answer_client (fst s))
   }"

definition handle_req_rd_fin_peer ::
    "cenv \<Rightarrow> io \<Rightarrow> middfs_packet \<Rightarrow> middfs_packet \<Rightarrow> middfs_sockinfo \<times> clients \<Rightarrow>
     (handler_e \<times> middfs_packet \<times> middfs_sockinfo) option" where
  "handle_req_rd_fin_peer E io in_pkt out_pkt s = do {
     let (sockinfo, clients) = s;
     req \<leftarrow> get_request (mpkt_un in_pkt);
     let recipient_name = mr_owner (mreq_rsrc req);
     found \<leftarrow> client_find recipient_name clients;
     case found of
       None \<Rightarrow> Some (HS_SUC, packet_error out_pkt ENOENT, answer_client sockinfo)
     | Some i \<Rightarrow> do {
         let sockinfo1 = sockinfo\<lparr>si_state := MSS_REQFWD\<rparr>;
         recipient_info \<leftarrow> slot_get (cl_vec clients) i;
         let tmpfd = io_connect io (cl_IP recipient_info) (cl_port recipient_info);
         Some (if tmpfd < 0 then (HS_DEL, in_pkt, sockinfo1)
               else (HS_SUC, in_pkt,
                     sockinfo1\<lparr>si_out := (si_out sockinfo1)\<lparr>se_fd := tmpfd\<rparr>\<rparr>))
       }
   }"

text \<open>
  \<open>out_pkt\<close> is an uninitialised local; whichever branch is taken writes every field of it that
  is serialised, so it starts as the zero packet here.
\<close>

definition handle_req_rd_fin ::
    "cenv \<Rightarrow> io \<Rightarrow> middfs_packet \<Rightarrow> middfs_sockinfo \<times> clients \<Rightarrow>
     (handler_e \<times> middfs_sockinfo \<times> clients) option" where
  "handle_req_rd_fin E io in_pkt s = do {
     req \<leftarrow> get_request (mpkt_un in_pkt);
     let owner = mr_path (mreq_rsrc req);
     (retv, out_pkt, info1) \<leftarrow>
       (if owner = None \<or> owner = Some [] then do {
          let out0 = packet_init zero_packet MPKT_RESPONSE;
          (retv, rsp, info1) \<leftarrow> handle_req_rd_fin_root E req (old_response (mpkt_un out0)) s;
          Some (retv, out0\<lparr>mpkt_un := Pkt_response rsp\<rparr>, info1)
        }
        else handle_req_rd_fin_peer E io in_pkt zero_packet s);
     if retv = HS_DEL then Some (retv, info1, snd s)
     else do {
       (r, buf) \<leftarrow> buffer_serialize E (serialize_pkt out_pkt) (se_buf (si_out info1));
       let info2 = set_out_buf buf info1;
       Some (if r < 0 then HS_DEL else HS_SUC, info2, snd s)
     }
   }"

definition handle_req_wr_fin ::
    "middfs_sockinfo \<times> clients \<Rightarrow> (handler_e \<times> middfs_sockinfo \<times> clients) option" where
  "handle_req_wr_fin s = do {
     let (sockinfo, g) = s;
     if si_state sockinfo \<noteq> MSS_REQFWD then None
     else do {
       let tmpfd = se_fd (si_out sockinfo);
       Some (HS_SUC,
         sockinfo\<lparr>si_state := MSS_RSPFWD,
                  si_out := (si_out sockinfo)\<lparr>se_fd := se_fd (si_in sockinfo)\<rparr>,
                  si_in := (si_in sockinfo)\<lparr>se_fd := tmpfd\<rparr>\<rparr>, g)
     }
   }"

section \<open>Responses\<close>

definition handle_rsp_rd_fin ::
    "cenv \<Rightarrow> middfs_packet \<Rightarrow> middfs_sockinfo \<times> clients \<Rightarrow>
     (handler_e \<times> middfs_sockinfo \<times> clients) option" where
  "handle_rsp_rd_fin E in_pkt s = do {
     let (sockinfo, g) = s;
     if si_state sockinfo \<noteq> MSS_RSPFWD then None
     else do {
       let info1 = sockinfo\<lparr>si_state := MSS_RSPWR\<rparr>;
       (r, buf) \<leftarrow> buffer_serialize E (serialize_pkt in_pkt) (se_buf (si_out info1));
       Some (if r < 0 then HS_DEL else HS_SUC, set_out_buf buf info1, g)
     }
   }"

definition handle_rsp_wr_fin ::
    "middfs_sockinfo \<times> clients \<Rightarrow> (handler_e \<times> middfs_sockinfo \<times> clients) option" where
  "handle_rsp_wr_fin s = do {
     let (sockinfo, g) = s;
     if si_state sockinfo \<noteq> MSS_RSPWR then None
     else Some (HS_DEL, sockinfo\<lparr>si_state := MSS_CLOSED\<rparr>, g)
   }"

section \<open>The handler interface\<close>

definition handle_pkt_rd_fin ::
    "cenv \<Rightarrow> io \<Rightarrow> middfs_packet \<Rightarrow> middfs_sockinfo \<times> clients \<Rightarrow>
     (handler_e \<times> middfs_sockinfo \<times> clients) option" where
  "handle_pkt_rd_fin E io in_pkt s =
     (case mpkt_type in_pkt of
        MPKT_CONNECT \<Rightarrow> handle_connect E io in_pkt s
      | MPKT_DISCONNECT \<Rightarrow> None
      | MPKT_REQUEST \<Rightarrow> handle_req_rd_fin E io in_pkt s
      | MPKT_RESPONSE \<Rightarrow> handle_rsp_rd_fin E in_pkt s
      | _ \<Rightarrow> Some (HS_DEL, s))"

definition handle_pkt_wr_fin ::
    "middfs_sockinfo \<times> clients \<Rightarrow> (handler_e \<times> middfs_sockinfo \<times> clients) option" where
  "handle_pkt_wr_fin s =
     (case si_state (fst s) of
        MSS_REQFWD \<Rightarrow> handle_req_wr_fin s
      | MSS_RSPWR \<Rightarrow> handle_rsp_wr_fin s
      | _ \<Rightarrow> Some (HS_DEL, s))"

definition server_hi :: "cenv \<Rightarrow> clients handler_info" where
  "server_hi E =
     \<lparr>rd_fin = handle_pkt_rd_fin E, wr_fin = \<lambda>io s. handle_pkt_wr_fin s\<rparr>"

end
