(* ===== verification/Sock_Laws.thy ===== *)
theory Sock_Laws
  imports Middfs_Sock
begin

text \<open>
  The invariant of the socket table, that every operation keeps it, and what polling does: the
  entries given to \<open>poll(2)\<close> are exactly those of the live sockets, each in its socket's
  direction, and each reported event reaches the socket it belongs to. In particular the
  assertion of \<open>middfs_sockend_pollfd\<close> never fails.
\<close>

section \<open>Invariant of one socket\<close>

definition live_fds :: "middfs_sockinfo \<Rightarrow> bool" where
  "live_fds info \<longleftrightarrow>
     (case si_state info of
        MSS_LSTN \<Rightarrow> si_type info = MFD_LSTN \<and> 0 \<le> se_fd (si_in info)
      | MSS_REQRD \<Rightarrow> si_type info = MFD_PKT_IN \<and> 0 \<le> se_fd (si_in info)
      | MSS_RSPWR \<Rightarrow> si_type info = MFD_PKT_IN \<and> 0 \<le> se_fd (si_out info)
      | MSS_REQFWD \<Rightarrow>
          si_type info = MFD_PKT_IN \<and> 0 \<le> se_fd (si_in info) \<and> 0 \<le> se_fd (si_out info)
      | MSS_RSPFWD \<Rightarrow>
          si_type info = MFD_PKT_IN \<and> 0 \<le> se_fd (si_in info) \<and> 0 \<le> se_fd (si_out info)
      | _ \<Rightarrow> False)"

definition bufs_ok :: "middfs_sockinfo \<Rightarrow> bool" where
  "bufs_ok info \<longleftrightarrow> buffer_ok (se_buf (si_in info)) \<and> buffer_ok (se_buf (si_out info))"

definition sockinfo_live :: "middfs_sockinfo \<Rightarrow> bool" where
  "sockinfo_live info \<longleftrightarrow> bufs_ok info \<and> live_fds info"

definition sockinfo_dead :: "middfs_sockinfo \<Rightarrow> bool" where
  "sockinfo_dead info \<longleftrightarrow>
     si_type info = MFD_NONE \<and> se_fd (si_in info) < 0 \<and> se_fd (si_out info) < 0"

definition sockinfo_ok :: "middfs_sockinfo \<Rightarrow> bool" where
  "sockinfo_ok info \<longleftrightarrow> sockinfo_live info \<or> sockinfo_dead info"

declare sockinfo_ok_def [wf_simps] sockinfo_live_def [wf_simps] sockinfo_dead_def [wf_simps]
  bufs_ok_def [wf_simps] live_fds_def [wf_simps]

lemma live_not_none: "sockinfo_live info \<Longrightarrow> si_type info \<noteq> MFD_NONE"
  by (auto simp: sockinfo_live_def live_fds_def split: middfs_sockstate.splits)

lemma live_not_dead: "sockinfo_live info \<Longrightarrow> \<not> sockinfo_dead info"
  using live_not_none by (auto simp: sockinfo_dead_def)

lemma live_isopen: "sockinfo_live info \<Longrightarrow> middfs_sockinfo_isopen info"
  by (auto simp: sockinfo_live_def live_fds_def middfs_sockinfo_isopen_def
      middfs_sockend_isopen_def split: middfs_sockstate.splits)

lemma dead_not_open: "sockinfo_dead info \<Longrightarrow> \<not> middfs_sockinfo_isopen info"
  by (auto simp: sockinfo_dead_def middfs_sockinfo_isopen_def middfs_sockend_isopen_def)

lemma sockinfo_init_live:
  assumes "0 \<le> fd" "type = MFD_PKT_IN \<or> type = MFD_LSTN"
  shows "\<exists>info'. middfs_sockinfo_init type fd fd' info = Some info' \<and> sockinfo_live info' \<and>
           se_fd (si_in info') = fd \<and> contents (se_buf (si_in info')) = [] \<and>
           contents (se_buf (si_out info')) = [] \<and>
           si_state info' = (if type = MFD_PKT_IN then MSS_REQRD else MSS_LSTN)"
  using assms
  by (auto simp: middfs_sockinfo_init_def middfs_sockend_init_def
      sockinfo_live_def bufs_ok_def live_fds_def)

lemma sockinfo_delete_dead:
  assumes "bufs_ok info"
  obtains info' where "middfs_sockinfo_delete cl info = Some (0, info')" "sockinfo_dead info'"
proof -
  have "\<exists>b. buffer_delete buf = Some b" if "buffer_ok buf" for buf
    using that by (auto simp: buffer_delete_def buffer_ok_def split: block.splits)
  then obtain b1 b2 where "buffer_delete (se_buf (si_in info)) = Some b1"
    "buffer_delete (se_buf (si_out info)) = Some b2"
    using assms unfolding bufs_ok_def by blast
  then have "\<exists>info'. middfs_sockinfo_delete cl info = Some (0, info') \<and> sockinfo_dead info'"
    by (auto simp: middfs_sockinfo_delete_def middfs_sockend_delete_def sockinfo_dead_def Let_def)
  then show thesis using that by blast
qed

text \<open>Deleting the buffers a second time is a double free.\<close>

lemma sockinfo_delete_twice:
  assumes "middfs_sockinfo_delete cl info = Some (r, info')"
    "buf_begin (se_buf (si_in info)) \<noteq> Null \<or> buf_begin (se_buf (si_out info)) \<noteq> Null"
  shows "middfs_sockinfo_delete cl info' = None"
  using assms
  by (auto simp: middfs_sockinfo_delete_def middfs_sockend_delete_def buffer_delete_def
      bind_Some_iff Let_def split: block.splits if_splits)

section \<open>The table\<close>

definition infos :: "middfs_socks \<Rightarrow> middfs_sockinfo list" where
  "infos socks =
     (case block_mem (sk_sockinfos socks) of
        None \<Rightarrow> []
      | Some v \<Rightarrow> map the (take (nat (sk_count socks)) v))"

definition table_ok :: "middfs_socks \<Rightarrow> bool" where
  "table_ok socks \<longleftrightarrow>
     (case sk_sockinfos socks of
        Null \<Rightarrow> sk_len socks = 0
      | Live v \<Rightarrow> length v = nat (sk_len socks) \<and> None \<notin> set (take (nat (sk_count socks)) v)
      | Freed \<Rightarrow> False) \<and>
     0 \<le> sk_count socks \<and> sk_count socks \<le> sk_len socks \<and> sk_len socks \<le> INT_MAX"

definition socks_ok :: "middfs_socks \<Rightarrow> bool" where
  "socks_ok socks \<longleftrightarrow> table_ok socks \<and> list_all sockinfo_ok (infos socks)"

lemma table_okE:
  assumes "table_ok socks"
  obtains rest where "block_mem (sk_sockinfos socks) = Some (map Some (infos socks) @ rest)"
    "int (length (infos socks)) = sk_count socks"
    "int (length (infos socks) + length rest) = sk_len socks"
    "sk_len socks \<le> INT_MAX"
    "infos socks = [] \<and> rest = [] \<or> sk_sockinfos socks = Live (map Some (infos socks) @ rest)"
proof -
  obtain v where v: "block_mem (sk_sockinfos socks) = Some v" "length v = nat (sk_len socks)"
    "v = [] \<or> sk_sockinfos socks = Live v" "None \<notin> set (take (nat (sk_count socks)) v)"
    using assms by (auto simp: table_ok_def block_mem_def split: block.splits)
  let ?k = "nat (sk_count socks)"
  have c: "0 \<le> sk_count socks" "sk_count socks \<le> sk_len socks" "sk_len socks \<le> INT_MAX"
    using assms by (simp_all add: table_ok_def)
  have "map Some (infos socks) = map (Some \<circ> the) (take ?k v)" by (simp add: infos_def v(1))
  also have "\<dots> = take ?k v" using v(4) by (intro map_idI) (metis comp_apply option.exhaust_sel)
  finally have eq: "map Some (infos socks) = take ?k v" .
  then have "v = map Some (infos socks) @ drop ?k v" by simp
  moreover have "length (infos socks) = ?k"
    using arg_cong [OF eq, of length] v(2) c by simp
  ultimately show thesis
    using v c by (intro that [of "drop ?k v"]) auto
qed

lemma table_okI:
  assumes "sk_sockinfos socks = Live (map Some xs @ rest)" "int (length xs) = sk_count socks"
    "int (length xs + length rest) = sk_len socks" "sk_len socks \<le> INT_MAX"
  shows "table_ok socks" "infos socks = xs"
proof -
  have k: "nat (sk_count socks) = length xs" "nat (sk_len socks) = length xs + length rest"
    using assms(2,3) by linarith+
  then show "infos socks = xs" using assms(1) by (simp add: infos_def block_mem_def comp_def)
  show "table_ok socks" using assms k by (auto simp: table_ok_def)
qed

lemma socks_init_ok [simp]: "socks_ok middfs_socks_init" "infos middfs_socks_init = []"
  by (simp_all add: socks_ok_def table_ok_def infos_def middfs_socks_init_def block_mem_def INT_MAX_def)

text \<open>Reading and writing the slot of a socket in use.\<close>

lemma slot_get_info:
  assumes "table_ok socks" "i < length (infos socks)"
  shows "slot_get (sk_sockinfos socks) i = Some (infos socks ! i)"
  by (rule table_okE [OF assms(1)]) (use assms(2) in \<open>simp add: slot_get_def nth_append\<close>)

lemma slot_set_info:
  assumes "table_ok socks" "i < length (infos socks)"
  obtains b where "slot_set (sk_sockinfos socks) i (Some info) = Some b"
    "table_ok (socks\<lparr>sk_sockinfos := b\<rparr>)"
    "infos (socks\<lparr>sk_sockinfos := b\<rparr>) = (infos socks)[i := info]"
proof -
  obtain rest where v: "int (length (infos socks)) = sk_count socks"
    "int (length (infos socks) + length rest) = sk_len socks" "sk_len socks \<le> INT_MAX"
    "infos socks = [] \<and> rest = [] \<or> sk_sockinfos socks = Live (map Some (infos socks) @ rest)"
    by (rule table_okE [OF assms(1)]) blast
  let ?b = "Live (map Some ((infos socks)[i := info]) @ rest)"
  have "slot_set (sk_sockinfos socks) i (Some info) = Some ?b"
    using v assms(2) by (auto simp: slot_set_def block_mem_def block_set_def list_update_append map_update)
  moreover have "table_ok (socks\<lparr>sk_sockinfos := ?b\<rparr>)"
    "infos (socks\<lparr>sk_sockinfos := ?b\<rparr>) = (infos socks)[i := info]"
    using v by (auto intro!: table_okI [where rest = rest and xs = "(infos socks)[i := info]"])
  ultimately show thesis by (rule that)
qed

subsection \<open>Adding and removing\<close>

lemma socks_resize_cases:
  assumes ok: "table_ok socks" and n: "sk_len socks < n" "2 * sk_len socks \<le> INT_MAX"
    "n = max (2 * sk_len socks) 16"
  obtains (fail) "middfs_socks_resize E (word_of_int n) socks = Some (-1, socks)"
  | (grown) socks' rest where "middfs_socks_resize E (word_of_int n) socks = Some (0, socks')"
      "sk_sockinfos socks' = Live (map Some (infos socks) @ rest)" "sk_len socks' = n"
      "sk_count socks' = sk_count socks" "int (length (infos socks) + length rest) = n"
proof -
  obtain rest where v: "block_mem (sk_sockinfos socks) = Some (map Some (infos socks) @ rest)"
    "int (length (infos socks) + length rest) = sk_len socks"
    by (rule table_okE [OF ok]) blast
  have nb: "0 < n" "n \<le> INT_MAX" using n by (auto simp: INT_MAX_def)
  let ?w = "word_of_int n :: u64"
  have small: "nat n \<le> 2147483647" using nb by (simp add: INT_MAX_def)
  have "?w = word_of_nat (nat n)" using nb by simp
  then have w1: "unat ?w = nat n" using small by (simp only:) (intro unat_of_nat_u64, simp)
  then have w: "unat (?w * sizeof_sockinfo) = nat n * 96"
    using small by (simp add: sizeof_sockinfo_def unat_word_ariths)
  have nz: "?w * sizeof_sockinfo \<noteq> 0"
  proof
    assume "?w * sizeof_sockinfo = 0"
    then have "nat n * 96 = 0" using w by simp
    with nb(1) show False by simp
  qed
  have k: "unat (?w * sizeof_sockinfo) div unat sizeof_sockinfo = nat n"
    unfolding w by (simp add: sizeof_sockinfo_def)
  have s: "sint (ucast ?w :: u32) = n"
    using nb by (intro sint_narrow) (simp_all add: INT_MAX_def)
  show thesis
  proof (cases "?w * sizeof_sockinfo \<le> PTRDIFF_MAX \<and> can_alloc E (unat (?w * sizeof_sockinfo))")
    case True
    let ?rest = "rest @ replicate (nat n - (length (infos socks) + length rest)) None"
    have le: "length (infos socks) + length rest \<le> nat n" using v(2) n(1) by linarith
    have "realloc_slots E (sk_sockinfos socks) ?w sizeof_sockinfo
        = Some (Some (Live (map Some (infos socks) @ ?rest)))"
      using True nz v le by (simp add: realloc_slots_def k)
    then show thesis
      using s le nb by (intro grown [of "socks\<lparr>sk_sockinfos := Live (map Some (infos socks) @ ?rest), sk_len := n\<rparr>" ?rest])
        (auto simp: middfs_socks_resize_def)
  next
    case False
    then have "realloc_slots E (sk_sockinfos socks) ?w sizeof_sockinfo = Some None"
      using nz v by (auto simp: realloc_slots_def)
    then show thesis by (intro fail) (simp add: middfs_socks_resize_def)
  qed
qed

lemma socks_add_cases:
  assumes ok: "table_ok socks" and n: "2 * sk_len socks \<le> INT_MAX"
  obtains (fail) "middfs_socks_add E info socks = Some (-1, socks)"
  | (added) socks' where "middfs_socks_add E info socks = Some (0, socks')" "table_ok socks'"
      "infos socks' = infos socks @ [info]" "sk_len socks' \<le> max (2 * sk_len socks) 16"
proof -
  have put: thesis
    if r: "(if sk_count socks = sk_len socks
        then (if 2 * sk_len socks > INT_MAX then None
              else middfs_socks_resize E (word_of_int (max (2 * sk_len socks) 16)) socks)
        else Some (0, socks)) = Some (0, s1)"
      and s1: "sk_sockinfos s1 = Live (map Some (infos socks) @ z # rest)"
      "sk_count s1 = int (length (infos socks))"
      "sk_len s1 = int (length (infos socks) + Suc (length rest))" "sk_len s1 \<le> INT_MAX"
      "sk_len s1 \<le> max (2 * sk_len socks) 16" for s1 z rest
  proof -
    let ?b = "Live (map Some (infos socks @ [info]) @ rest)"
    let ?s = "s1\<lparr>sk_sockinfos := ?b, sk_count := sk_count s1 + 1\<rparr>"
    have "slot_set (sk_sockinfos s1) (nat (sk_count s1)) (Some info) = Some ?b"
      using s1 by (simp add: slot_set_def block_mem_def block_set_def list_update_append)
    with r have "middfs_socks_add E info socks = Some (0, ?s)" by (simp add: middfs_socks_add_def)
    moreover have "table_ok ?s" "infos ?s = infos socks @ [info]"
      using s1 by (auto intro!: table_okI [where xs = "infos socks @ [info]" and rest = rest])
    ultimately show thesis using s1(5) by (intro added [of ?s]) simp_all
  qed
  obtain rest where v: "int (length (infos socks)) = sk_count socks"
    "int (length (infos socks) + length rest) = sk_len socks" "sk_len socks \<le> INT_MAX"
    "infos socks = [] \<and> rest = [] \<or> sk_sockinfos socks = Live (map Some (infos socks) @ rest)"
    by (rule table_okE [OF ok]) blast
  show thesis
  proof (cases "sk_count socks = sk_len socks")
    case False
    with v obtain z rest' where "rest = z # rest'" by (cases rest) auto
    with False v show thesis by (intro put [of socks z rest']) auto
  next
    case True
    let ?n = "max (2 * sk_len socks) 16"
    have lt: "sk_len socks < ?n" using v by linarith
    show thesis
    proof (rule socks_resize_cases [OF ok lt n refl, of E])
      assume "middfs_socks_resize E (word_of_int ?n) socks = Some (-1, socks)"
      with True n show thesis by (intro fail) (simp add: middfs_socks_add_def)
    next
      fix s1 rest1 assume g: "middfs_socks_resize E (word_of_int ?n) socks = Some (0, s1)"
        "sk_sockinfos s1 = Live (map Some (infos socks) @ rest1)" "sk_len s1 = ?n"
        "sk_count s1 = sk_count socks" "int (length (infos socks) + length rest1) = ?n"
      have "int (length (infos socks)) < ?n" using v True by linarith
      with g(5) obtain z rest' where "rest1 = z # rest'" by (cases rest1) auto
      with g v True n show thesis
        by (intro put [of s1 z rest']) (auto simp: INT_MAX_def)
    qed
  qed
qed

text \<open>Only a table that is full is resized, so the bound matters only then.\<close>

lemma socks_add_cases':
  assumes ok: "table_ok socks" and n: "sk_count socks = sk_len socks \<longrightarrow> 2 * sk_len socks \<le> INT_MAX"
  shows "middfs_socks_add E info socks = Some (-1, socks) \<or>
    (\<exists>s'. middfs_socks_add E info socks = Some (0, s') \<and> table_ok s' \<and> infos s' = infos socks @ [info])"
proof (cases "sk_count socks = sk_len socks")
  case True
  then have "2 * sk_len socks \<le> INT_MAX" using n by blast
  then show ?thesis by (rule socks_add_cases [OF ok, of E info]) auto
next
  case False
  obtain rest where v: "int (length (infos socks)) = sk_count socks"
    "int (length (infos socks) + length rest) = sk_len socks" "sk_len socks \<le> INT_MAX"
    "infos socks = [] \<and> rest = [] \<or> sk_sockinfos socks = Live (map Some (infos socks) @ rest)"
    by (rule table_okE [OF ok]) blast
  with False obtain z rest' where rest: "rest = z # rest'" by (cases rest) auto
  let ?b = "Live (map Some (infos socks @ [info]) @ rest')"
  let ?s = "socks\<lparr>sk_sockinfos := ?b, sk_count := sk_count socks + 1\<rparr>"
  have c: "nat (sk_count socks) = length (infos socks)" using v(1) by linarith
  have "slot_set (sk_sockinfos socks) (nat (sk_count socks)) (Some info) = Some ?b"
    using v rest by (auto simp: c slot_set_def block_mem_def block_set_def list_update_append)
  with False have "middfs_socks_add E info socks = Some (0, ?s)" by (simp add: middfs_socks_add_def)
  moreover have "table_ok ?s" "infos ?s = infos socks @ [info]"
    using v rest by (auto intro!: table_okI [where xs = "infos socks @ [info]" and rest = rest'])
  ultimately show ?thesis by blast
qed

lemma socks_remove_result:
  assumes ok: "table_ok socks" and i: "i < length (infos socks)" and b: "bufs_ok (infos socks ! i)"
  obtains socks' info' where "middfs_socks_remove cl i socks = Some (0, socks')" "table_ok socks'"
    "infos socks' = (infos socks)[i := info']" "sockinfo_dead info'" "sk_len socks' = sk_len socks"
proof -
  obtain info' where d: "middfs_sockinfo_delete cl (infos socks ! i) = Some (0, info')"
    "sockinfo_dead info'"
    by (rule sockinfo_delete_dead [OF b])
  obtain bl where "slot_set (sk_sockinfos socks) i (Some info') = Some bl"
    "table_ok (socks\<lparr>sk_sockinfos := bl\<rparr>)"
    "infos (socks\<lparr>sk_sockinfos := bl\<rparr>) = (infos socks)[i := info']"
    by (rule slot_set_info [OF ok i])
  moreover have "int i < sk_count socks"
    using i by (rule_tac table_okE [OF ok]) linarith
  ultimately show thesis
    using d slot_get_info [OF ok i]
    by (intro that [of "socks\<lparr>sk_sockinfos := bl\<rparr>" info']) (simp_all add: middfs_socks_remove_def)
qed

section \<open>Polling\<close>

text \<open>
  The entry of a live socket in the array given to \<open>poll(2)\<close>, and the socket with the
  position of its entry noted in the end it polls.
\<close>

definition poll_entry :: "middfs_sockinfo \<Rightarrow> pollfd" where
  "poll_entry info =
     (if polls_in (si_state info) then \<lparr>pfd_fd = se_fd (si_in info), pfd_events = POLLIN\<rparr>
      else \<lparr>pfd_fd = se_fd (si_out info), pfd_events = POLLOUT\<rparr>)"

definition set_mark :: "nat \<Rightarrow> middfs_sockinfo \<Rightarrow> middfs_sockinfo" where
  "set_mark r info =
     (if polls_in (si_state info) then info\<lparr>si_in := (si_in info)\<lparr>se_revents := Some r\<rparr>\<rparr>
      else info\<lparr>si_out := (si_out info)\<lparr>se_revents := Some r\<rparr>\<rparr>)"

definition polled :: "middfs_sockinfo list \<Rightarrow> pollfd list" where
  "polled xs = map poll_entry (filter sockinfo_live xs)"

fun marked :: "nat \<Rightarrow> middfs_sockinfo list \<Rightarrow> middfs_sockinfo list" where
  "marked r [] = []"
| "marked r (x # xs) =
     (if sockinfo_live x then set_mark r x # marked (r + 1) xs else x # marked r xs)"

lemma length_marked [simp]: "length (marked r xs) = length xs"
  by (induction xs arbitrary: r) auto

lemma polled_simps [simp]:
  "polled [] = []" "polled (x # xs) = (if sockinfo_live x then poll_entry x # polled xs else polled xs)"
  by (simp_all add: polled_def)

lemma live_polls:
  "sockinfo_live info \<Longrightarrow> polls_out (si_state info) = (\<not> polls_in (si_state info))"
  "sockinfo_live info \<Longrightarrow> polls_in (si_state info) \<Longrightarrow> 0 \<le> se_fd (si_in info)"
  "sockinfo_live info \<Longrightarrow> \<not> polls_in (si_state info) \<Longrightarrow> 0 \<le> se_fd (si_out info)"
  by (auto simp: sockinfo_live_def live_fds_def polls_in_def polls_out_def
      split: middfs_sockstate.splits)

lemma poll_bits [simp]:
  "POLLIN AND (POLLIN OR POLLOUT) = POLLIN" "POLLOUT AND (POLLIN OR POLLOUT) = POLLOUT"
  by (simp_all add: POLLIN_def POLLOUT_def)

text \<open>One socket, when its entry is filled in and when entries are only counted.\<close>

lemma info_pollfds_dead:
  "sockinfo_dead info \<Longrightarrow> middfs_sockinfo_pollfds pfds pos nfds info 0 = Some (0, pfds, info)"
  by (simp add: middfs_sockinfo_pollfds_def sockinfo_dead_def)

lemma info_pollfds_count:
  "sockinfo_live info \<Longrightarrow> middfs_sockinfo_pollfds pfds pos 0 info 0 = Some (1, pfds, info)"
  using live_polls [of info] live_not_none [of info]
  by (auto simp: middfs_sockinfo_pollfds_def middfs_sockend_pollfd_def sizerem_def)

lemma info_pollfds_fill:
  assumes "sockinfo_live info" "pos < length pfds" "sint (ucast nfds :: u32) > 0"
  shows "middfs_sockinfo_pollfds pfds pos nfds info 0
    = Some (1, pfds[pos := poll_entry info], set_mark pos info)"
  using assms live_polls [of info] live_not_none [of info]
  by (auto simp: middfs_sockinfo_pollfds_def middfs_sockend_pollfd_def poll_entry_def set_mark_def)

lemma slot_append:
  "length ys = k \<Longrightarrow> slot_get (Live (map Some ys @ Some x # zs)) k = Some x"
  "length ys = k \<Longrightarrow> slot_set (Live (map Some ys @ Some x # zs)) k (Some x')
     = Some (Live (map Some (ys @ [x']) @ zs))"
  by (auto simp: slot_get_def slot_set_def block_mem_def block_set_def nth_append list_update_append)

lemma pollfds_loop_count:
  assumes "list_all sockinfo_ok xs"
  shows "socks_pollfds_loop [length ys..<length ys + length xs] pfds 0 u 0
      (Live (map Some (ys @ xs) @ rest))
    = Some (u + length (polled xs), pfds, Live (map Some (ys @ xs) @ rest))"
  using assms
proof (induction xs arbitrary: ys u)
  case Nil
  then show ?case by simp
next
  case (Cons x xs)
  have upt: "[length ys..<length ys + length (x # xs)]
      = length ys # [Suc (length ys)..<Suc (length ys + length xs)]"
    by (simp add: upt_conv_Cons del: upt_Suc)
  have IH: "socks_pollfds_loop [Suc (length ys)..<Suc (length ys + length xs)] pfds 0 u' 0
      (Live (map Some ys @ Some x # map Some xs @ rest))
    = Some (u' + length (polled xs), pfds, Live (map Some ys @ Some x # map Some xs @ rest))" for u'
    using Cons.IH [of "ys @ [x]" u'] Cons.prems by simp
  have "sockinfo_live x \<or> sockinfo_dead x" using Cons.prems by (simp add: sockinfo_ok_def)
  then show ?case
  proof
    assume "sockinfo_live x"
    then show ?thesis
      unfolding upt by (simp add: slot_append info_pollfds_count IH del: upt_Suc)
  next
    assume "sockinfo_dead x"
    with live_not_dead [of x] show ?thesis
      unfolding upt by (auto simp: slot_append info_pollfds_dead IH simp del: upt_Suc)
  qed
qed

lemma pollfds_loop_fill:
  assumes "list_all sockinfo_ok xs" "u + length (polled xs) \<le> length pfds" "length pfds < 2 ^ 31"
  shows "socks_pollfds_loop [length ys..<length ys + length xs] pfds (word_of_nat (length pfds)) u 0
      (Live (map Some (ys @ xs) @ rest))
    = Some (u + length (polled xs), take u pfds @ polled xs @ drop (u + length (polled xs)) pfds,
        Live (map Some (ys @ marked u xs) @ rest))"
  using assms
proof (induction xs arbitrary: ys u pfds)
  case Nil
  then show ?case by simp
next
  case (Cons x xs)
  let ?n = "word_of_nat (length pfds) :: u64"
  have upt: "[length ys..<length ys + length (x # xs)]
      = length ys # [Suc (length ys)..<Suc (length ys + length xs)]"
    by (simp add: upt_conv_Cons del: upt_Suc)
  have "sockinfo_live x \<or> sockinfo_dead x" using Cons.prems by (simp add: sockinfo_ok_def)
  then show ?case
  proof
    assume live: "sockinfo_live x"
    have u: "u < length pfds" using Cons.prems(2) live by simp
    then have uw: "unat (word_of_nat u :: u64) = u" "unat ?n = length pfds"
      using Cons.prems(3) by (auto intro!: unat_of_nat_u64)
    have "unat (sizerem ?n (word_of_nat u)) = length pfds - u" by (simp add: uw)
    then have "sizerem ?n (word_of_nat u) = word_of_nat (length pfds - u)"
      by (rule word_of_unat_eq)
    then have "sint (ucast (sizerem ?n (word_of_nat u)) :: u32) = int (length pfds - u)"
      using Cons.prems(3) sint_narrow [of "int (length pfds - u)"] by simp
    then have room: "sint (ucast (sizerem ?n (word_of_nat u)) :: u32) > 0" using u by simp
    let ?pfds = "pfds[u := poll_entry x]"
    have "u + 1 + length (polled xs) \<le> length ?pfds" "list_all sockinfo_ok xs"
      using Cons.prems live by simp_all
    from Cons.IH [OF this(2,1), of "ys @ [set_mark u x]"] Cons.prems(3)
    have IH: "socks_pollfds_loop [Suc (length ys)..<Suc (length ys + length xs)] ?pfds ?n (Suc u) 0
        (Live (map Some ys @ Some (set_mark u x) # map Some xs @ rest))
      = Some (Suc (u + length (polled xs)),
          take (Suc u) ?pfds @ polled xs @ drop (Suc (u + length (polled xs))) ?pfds,
          Live (map Some ys @ Some (set_mark u x) # map Some (marked (Suc u) xs) @ rest))"
      by simp
    have "take (Suc u) ?pfds = take u pfds @ [poll_entry x]"
      using u by (simp add: take_Suc_conv_app_nth)
    with live u room IH show ?thesis
      unfolding upt by (simp add: slot_append info_pollfds_fill del: upt_Suc)
  next
    assume dead: "sockinfo_dead x"
    then have nl: "\<not> sockinfo_live x" using live_not_dead by blast
    from Cons.IH [of u pfds "ys @ [x]"] Cons.prems nl dead show ?thesis
      unfolding upt by (simp add: slot_append info_pollfds_dead del: upt_Suc)
  qed
qed

subsection \<open>Delivering the events\<close>

text \<open>
  What one poll does to a socket, whose entry is number r of the array: nothing but clearing
  \<open>revents\<close> if it is closed; if it is live, the reported events are stored, and on an error
  or a hang-up the socket is deleted.
\<close>

definition bad_event :: "int \<Rightarrow> bool" where
  "bad_event e \<longleftrightarrow> e < 0 \<or> e AND POLLERR \<noteq> 0 \<or> e AND POLLHUP \<noteq> 0"

definition delivered :: "int list \<Rightarrow> nat \<Rightarrow> middfs_sockinfo \<Rightarrow> middfs_sockinfo \<Rightarrow> bool" where
  "delivered revs r info info' \<longleftrightarrow>
     (if sockinfo_live info
      then (if bad_event (revs ! r) then sockinfo_dead info'
            else info' = (set_mark r info)\<lparr>si_revents := revs ! r\<rparr>)
      else info' = info\<lparr>si_revents := 0\<rparr>)"

lemma set_mark_live [simp]: "sockinfo_live (set_mark r info) = sockinfo_live info"
  by (cases "si_state info") (auto simp: set_mark_def sockinfo_live_def bufs_ok_def live_fds_def)

lemma revents_fds [simp]: "live_fds (info\<lparr>si_revents := e\<rparr>) = live_fds info"
  by (cases "si_state info") (auto simp: live_fds_def)

lemma revents_live [simp]: "sockinfo_live (info\<lparr>si_revents := e\<rparr>) = sockinfo_live info"
  by (cases "si_state info") (auto simp: sockinfo_live_def bufs_ok_def live_fds_def)

lemma revents_dead [simp]: "sockinfo_dead (info\<lparr>si_revents := e\<rparr>) = sockinfo_dead info"
  by (simp add: sockinfo_dead_def)

lemma delivered_ok:
  "delivered revs r info info' \<Longrightarrow> sockinfo_ok info \<Longrightarrow> sockinfo_ok info'"
  by (auto simp: delivered_def sockinfo_ok_def split: if_splits)

lemma check_dead:
  assumes "sockinfo_dead info"
  shows "middfs_sockinfo_check revs info = Some (0, info\<lparr>si_revents := 0\<rparr>)"
  using assms
  by (auto simp: middfs_sockinfo_check_def middfs_sockend_check_def sockinfo_dead_def Let_def)

lemma check_live:
  assumes "sockinfo_live info" "r < length revs"
  shows "middfs_sockinfo_check revs (set_mark r info)
    = Some (if bad_event (revs ! r) then (-1, set_mark r info)
            else (revs ! r, (set_mark r info)\<lparr>si_revents := revs ! r\<rparr>))"
  using assms live_polls [OF assms(1)]
  by (auto simp: middfs_sockinfo_check_def middfs_sockend_check_def set_mark_def bad_event_def Let_def)

text \<open>The position of a socket's entry: the number of live sockets before it.\<close>

definition rank :: "middfs_sockinfo list \<Rightarrow> nat \<Rightarrow> nat" where
  "rank xs i = length (polled (take i xs))"

lemma polled_append: "polled (xs @ ys) = polled xs @ polled ys"
  by (simp add: polled_def)

lemma rank_less:
  assumes "i < length xs" "sockinfo_live (xs ! i)"
  shows "rank xs i < length (polled xs)"
proof -
  have "polled xs = polled (take i xs) @ poll_entry (xs ! i) # polled (drop (Suc i) xs)"
    using assms by (metis id_take_nth_drop polled_append polled_simps(2))
  then show ?thesis by (simp add: rank_def)
qed

lemma nth_marked:
  "i < length xs \<Longrightarrow> marked r xs ! i
    = (if sockinfo_live (xs ! i) then set_mark (r + rank xs i) (xs ! i) else xs ! i)"
proof (induction xs arbitrary: r i)
  case Nil
  then show ?case by simp
next
  case (Cons x xs)
  then show ?case by (cases i) (auto simp: rank_def)
qed

lemma check_loop:
  assumes ok: "list_all sockinfo_ok xs" and revs: "length (polled xs) \<le> length revs"
    and t: "table_ok socks" "length (infos socks) = length xs" "k \<le> length xs"
    and todo: "\<And>j. k \<le> j \<Longrightarrow> j < length xs \<Longrightarrow> infos socks ! j = marked 0 xs ! j"
    and finished: "\<And>j. j < k \<Longrightarrow> delivered revs (rank xs j) (xs ! j) (infos socks ! j)"
  shows "\<exists>n socks'. socks_check_loop cl revs [k..<length xs] nready socks = Some (n, socks') \<and>
    table_ok socks' \<and> length (infos socks') = length xs \<and> sk_len socks' = sk_len socks \<and>
    nready \<le> n \<and>
    (\<forall>j<length xs. delivered revs (rank xs j) (xs ! j) (infos socks' ! j))"
  using t todo finished
proof (induction "length xs - k" arbitrary: k nready socks)
  case 0
  then show ?case by simp
next
  case (Suc m)
  then have k: "k < length xs" and ki: "k < length (infos socks)" by simp_all
  have upt: "[k..<length xs] = k # [Suc k..<length xs]" using k by (simp add: upt_conv_Cons)
  have get: "slot_get (sk_sockinfos socks) k = Some (marked 0 xs ! k)"
    using slot_get_info [OF Suc.prems(1) ki] Suc.prems(4) [of k] k by simp
  have xk: "sockinfo_live (xs ! k) \<or> sockinfo_dead (xs ! k)"
    using ok k by (auto simp: list_all_length sockinfo_ok_def)
  have step: ?case
    if c: "socks_check_loop cl revs [k..<length xs] nready socks
        = socks_check_loop cl revs [Suc k..<length xs] n1 s1"
      and s1: "table_ok s1" "infos s1 = (infos socks)[k := info']" "sk_len s1 = sk_len socks"
        "nready \<le> n1" "delivered revs (rank xs k) (xs ! k) info'" for n1 s1 info'
  proof -
    have "\<exists>n socks'. socks_check_loop cl revs [Suc k..<length xs] n1 s1 = Some (n, socks') \<and>
      table_ok socks' \<and> length (infos socks') = length xs \<and> sk_len socks' = sk_len s1 \<and>
      n1 \<le> n \<and> (\<forall>j<length xs. delivered revs (rank xs j) (xs ! j) (infos socks' ! j))"
    proof (rule Suc.hyps(1))
      show "delivered revs (rank xs j) (xs ! j) (infos s1 ! j)" if "j < Suc k" for j
        using that s1 Suc.prems(5) k ki by (cases "j = k") auto
    qed (use Suc.hyps(2) Suc.prems s1 k in auto)
    with c s1 show ?thesis by fastforce
  qed
  show ?case
  proof (cases "sockinfo_live (xs ! k)")
    case False
    with xk have dead: "sockinfo_dead (xs ! k)" by blast
    let ?i = "(xs ! k)\<lparr>si_revents := 0\<rparr>"
    obtain b where b: "slot_set (sk_sockinfos socks) k (Some ?i) = Some b"
      "table_ok (socks\<lparr>sk_sockinfos := b\<rparr>)"
      "infos (socks\<lparr>sk_sockinfos := b\<rparr>) = (infos socks)[k := ?i]"
      by (rule slot_set_info [OF Suc.prems(1) ki])
    have "marked 0 xs ! k = xs ! k" using nth_marked [OF k] False by simp
    with False dead b get show ?thesis
      unfolding upt
      by (intro step [unfolded upt, of nready "socks\<lparr>sk_sockinfos := b\<rparr>" ?i])
        (auto simp: check_dead delivered_def)
  next
    case True
    let ?r = "rank xs k"
    have r: "?r < length revs" using rank_less [OF k True] revs by simp
    have m: "marked 0 xs ! k = set_mark ?r (xs ! k)" using nth_marked [OF k] True by simp
    note chk = check_live [OF True r]
    show ?thesis
    proof (cases "bad_event (revs ! ?r)")
      case False
      let ?i = "(set_mark ?r (xs ! k))\<lparr>si_revents := revs ! ?r\<rparr>"
      obtain b where b: "slot_set (sk_sockinfos socks) k (Some ?i) = Some b"
        "table_ok (socks\<lparr>sk_sockinfos := b\<rparr>)"
        "infos (socks\<lparr>sk_sockinfos := b\<rparr>) = (infos socks)[k := ?i]"
        by (rule slot_set_info [OF Suc.prems(1) ki])
      have pos: "\<not> revs ! ?r < 0" using False by (simp add: bad_event_def)
      let ?n = "if revs ! ?r > 0 then nready + 1 else nready"
      show ?thesis
        unfolding upt
        by (rule step [unfolded upt, of ?n "socks\<lparr>sk_sockinfos := b\<rparr>" ?i])
          (use True False b get chk m pos in \<open>auto simp: delivered_def\<close>)
    next
      case bad: True
      let ?i = "set_mark ?r (xs ! k)"
      obtain b where b: "slot_set (sk_sockinfos socks) k (Some ?i) = Some b"
        "table_ok (socks\<lparr>sk_sockinfos := b\<rparr>)"
        "infos (socks\<lparr>sk_sockinfos := b\<rparr>) = (infos socks)[k := ?i]"
        by (rule slot_set_info [OF Suc.prems(1) ki])
      have "bufs_ok ?i" using True by (simp add: sockinfo_live_def bufs_ok_def set_mark_def)
      then obtain s2 info' where s2: "middfs_socks_remove cl k (socks\<lparr>sk_sockinfos := b\<rparr>) = Some (0, s2)"
        "table_ok s2" "infos s2 = (infos (socks\<lparr>sk_sockinfos := b\<rparr>))[k := info']"
        "sockinfo_dead info'" "sk_len s2 = sk_len (socks\<lparr>sk_sockinfos := b\<rparr>)"
        by (rule_tac socks_remove_result [OF b(2), of k cl]) (use b(3) ki in auto)
      show ?thesis
        unfolding upt
        by (rule step [unfolded upt, of nready s2 info'])
          (use True bad b get chk m s2 in \<open>auto simp: delivered_def\<close>)
    qed
  qed
qed

text \<open>What the manual of \<open>poll\<close> promises: one set of events for each entry.\<close>

definition poll_ok :: "sys_poll \<Rightarrow> bool" where
  "poll_ok pol \<longleftrightarrow> (\<forall>pfds revs. pol pfds = Some revs \<longrightarrow> length revs = length pfds)"

lemma socks_pollfds_count:
  assumes "socks_ok socks"
  shows "middfs_socks_pollfds pfds 0 socks = Some (int (length (polled (infos socks))), pfds, socks)"
proof -
  let ?xs = "infos socks"
  have ok: "table_ok socks" "list_all sockinfo_ok ?xs" using assms by (simp_all add: socks_ok_def)
  obtain rest where v: "int (length ?xs) = sk_count socks"
    "?xs = [] \<and> rest = [] \<or> sk_sockinfos socks = Live (map Some ?xs @ rest)"
    by (rule table_okE [OF ok(1)]) blast
  then have n: "nat (sk_count socks) = length ?xs" by linarith
  from v(2) show ?thesis
  proof
    assume "?xs = [] \<and> rest = []"
    with n show ?thesis by (simp add: middfs_socks_pollfds_def)
  next
    assume l: "sk_sockinfos socks = Live (map Some ?xs @ rest)"
    then have "socks\<lparr>sk_sockinfos := Live (map Some ?xs @ rest)\<rparr> = socks" by simp
    with pollfds_loop_count [OF ok(2), of "[]" pfds 0 rest] n l show ?thesis
      by (simp add: middfs_socks_pollfds_def)
  qed
qed

lemma socks_pollfds_fill:
  assumes "socks_ok socks" "length pfds = length (polled (infos socks))" "length pfds < 2 ^ 31"
  obtains socks' where "middfs_socks_pollfds pfds (word_of_nat (length pfds)) socks
      = Some (int (length pfds), polled (infos socks), socks')"
    "table_ok socks'" "infos socks' = marked 0 (infos socks)" "sk_len socks' = sk_len socks"
    "sk_count socks' = sk_count socks"
proof -
  let ?xs = "infos socks"
  have ok: "table_ok socks" "list_all sockinfo_ok ?xs" using assms(1) by (simp_all add: socks_ok_def)
  obtain rest where v: "int (length ?xs) = sk_count socks"
    "int (length ?xs + length rest) = sk_len socks" "sk_len socks \<le> INT_MAX"
    "?xs = [] \<and> rest = [] \<or> sk_sockinfos socks = Live (map Some ?xs @ rest)"
    by (rule table_okE [OF ok(1)]) blast
  then have n: "nat (sk_count socks) = length ?xs" by linarith
  from v(4) show thesis
  proof
    assume "?xs = [] \<and> rest = []"
    with n ok(1) assms(2) show thesis by (intro that [of socks]) (simp_all add: middfs_socks_pollfds_def)
  next
    assume l: "sk_sockinfos socks = Live (map Some ?xs @ rest)"
    let ?s = "socks\<lparr>sk_sockinfos := Live (map Some (marked 0 ?xs) @ rest)\<rparr>"
    have "middfs_socks_pollfds pfds (word_of_nat (length pfds)) socks
        = Some (int (length pfds), polled ?xs, ?s)"
      using pollfds_loop_fill [OF ok(2), of 0 pfds "[]" rest] assms(2,3) n l
      by (simp add: middfs_socks_pollfds_def)
    moreover have "table_ok ?s" "infos ?s = marked 0 ?xs"
      using v by (auto intro!: table_okI [where rest = rest and xs = "marked 0 ?xs"])
    ultimately show thesis by (intro that [of ?s]) simp_all
  qed
qed

lemma marked_ok: "list_all sockinfo_ok (marked r xs) = list_all sockinfo_ok xs"
proof -
  have dead: "sockinfo_live x \<Longrightarrow> sockinfo_ok x" for x by (simp add: sockinfo_ok_def)
  show ?thesis
    by (induction xs arbitrary: r) (simp_all add: dead)
qed

lemma length_polled_less:
  assumes "table_ok socks"
  shows "length (polled (infos socks)) < 2 ^ 31"
proof -
  obtain rest :: "middfs_sockinfo option list"
    where v: "int (length (infos socks) + length rest) = sk_len socks" "sk_len socks \<le> INT_MAX"
    by (rule table_okE [OF assms]) blast
  have "length (polled (infos socks)) \<le> length (infos socks)" by (simp add: polled_def)
  with v show ?thesis by (simp add: INT_MAX_def)
qed

lemma socks_poll_cases:
  assumes ok: "socks_ok socks" and pol: "poll_ok pol"
  obtains (fail) socks' where "middfs_socks_poll E cl pol socks = Some (-1, socks')" "socks_ok socks'"
      "length (infos socks') = length (infos socks)" "sk_len socks' = sk_len socks"
      "\<not> calloc_ok E (word_of_nat (length (polled (infos socks)))) 8 \<or> pol (polled (infos socks)) = None"
  | (events) n socks' revs where "middfs_socks_poll E cl pol socks = Some (n, socks')" "0 \<le> n"
      "socks_ok socks'" "sk_len socks' = sk_len socks" "length (infos socks') = length (infos socks)"
      "pol (polled (infos socks)) = Some revs" "length revs = length (polled (infos socks))"
      "\<And>i. i < length (infos socks) \<Longrightarrow>
         delivered revs (rank (infos socks) i) (infos socks ! i) (infos socks' ! i)"
proof -
  let ?xs = "infos socks" and ?n = "length (polled (infos socks))"
  have t: "table_ok socks" "list_all sockinfo_ok ?xs" using ok by (simp_all add: socks_ok_def)
  note count = socks_pollfds_count [OF ok, of "[]"]
  show thesis
  proof (cases "calloc_ok E (word_of_int (int ?n)) 8")
    case False
    with count ok show thesis by (intro fail [of socks]) (simp_all add: middfs_socks_poll_def)
  next
    case True
    let ?pfds = "replicate ?n \<lparr>pfd_fd = 0, pfd_events = 0\<rparr>"
    obtain s2 where s2: "middfs_socks_pollfds ?pfds (word_of_nat ?n) socks
        = Some (int ?n, polled ?xs, s2)"
      "table_ok s2" "infos s2 = marked 0 ?xs" "sk_len s2 = sk_len socks"
      "sk_count s2 = sk_count socks"
      by (rule socks_pollfds_fill [OF ok, of ?pfds]) (use length_polled_less [OF t(1)] in simp_all)
    have poll: "middfs_socks_poll E cl pol socks
        = (case pol (polled ?xs) of None \<Rightarrow> Some (-1, s2) | Some revs \<Rightarrow> middfs_socks_check cl revs s2)"
      using count True s2(1) by (simp add: middfs_socks_poll_def)
    show thesis
    proof (cases "pol (polled ?xs)")
      case None
      with poll s2 t(2) show thesis
        by (intro fail [of s2]) (simp_all add: socks_ok_def marked_ok)
    next
      case (Some revs)
      have len: "length revs = ?n" using pol Some by (simp add: poll_ok_def)
      have "nat (sk_count socks) = length ?xs" by (rule table_okE [OF t(1)]) linarith
      then obtain n s' where s': "middfs_socks_check cl revs s2 = Some (n, s')" "table_ok s'"
        "length (infos s') = length ?xs" "sk_len s' = sk_len socks" "0 \<le> n"
        "\<forall>j<length ?xs. delivered revs (rank ?xs j) (?xs ! j) (infos s' ! j)"
        using check_loop [OF t(2), of revs s2 0 cl 0] len s2
        by (auto simp: middfs_socks_check_def)
      have "list_all sockinfo_ok (infos s')"
        using s'(3,6) t(2) delivered_ok by (metis list_all_length)
      with s' Some poll len show thesis
        by (intro events [of n s' revs]) (simp_all add: socks_ok_def)
    qed
  qed
qed

end
