(* ===== verification/Conn_Laws.thy ===== *)
theory Conn_Laws
  imports Middfs_Conn Sock_Laws
begin

text \<open>
  What the connection manager relies on in a packet handler, as a locale, and what it then
  keeps: the socket table stays well-formed and the handler's own state valid through every
  event of every socket, whatever bytes the peers send.

  The reading of a packet in \<open>handle_pkt_rd\<close> is shown to be \<open>buffer_read\<close> followed by
  \<open>buffer_deserialize\<close>, a function the file could have called.
\<close>

section \<open>Reading a packet\<close>

text \<open>\<open>handle_pkt_rd\<close> with its inlined deserialisation replaced by \<open>buffer_deserialize\<close>.\<close>

definition handle_pkt_rd_ref ::
    "cenv \<Rightarrow> 'g handler_info \<Rightarrow> io \<Rightarrow> middfs_sockinfo \<times> 'g \<Rightarrow>
     (handler_e \<times> middfs_sockinfo \<times> 'g) option" where
  "handle_pkt_rd_ref E hi io s = do {
     let (info, g) = s;
     (n, buf) \<leftarrow> buffer_read E (io_read io) (se_buf (si_in info));
     if n \<le> 0 then Some (HS_DEL, set_in_buf buf info, g)
     else do {
       (r, pkt, buf') \<leftarrow> buffer_deserialize (deserialize_pkt E) zero_packet buf;
       if r < 0 then Some (HS_DEL, set_in_buf buf info, g)
       else if r > 0 then Some (HS_SUC, set_in_buf buf info, g)
       else rd_fin hi io pkt (set_in_buf buf' info, g)
     }
   }"

lemma set_in_buf_twice [simp]: "set_in_buf b (set_in_buf b' info) = set_in_buf b info"
  by (simp add: set_in_buf_def)

lemma rd_eq_ref:
  assumes "si_revents info AND POLLIN \<noteq> 0"
  shows "handle_pkt_rd E hi io (info, g) = handle_pkt_rd_ref E hi io (info, g)"
proof -
  have tail: "(if n < 0 \<or> n = 0 then Some (HS_DEL, set_in_buf buf info, g)
       else do {
         mem \<leftarrow> block_mem (buf_begin buf);
         (req, pkt, errp) \<leftarrow> deserialize_pkt E mem (buffer_used buf) zero_packet 0;
         if errp \<noteq> 0 then Some (HS_DEL, set_in_buf buf info, g)
         else if req > buffer_used buf then Some (HS_SUC, set_in_buf buf info, g)
         else do { buf2 \<leftarrow> buffer_shift buf req; rd_fin hi io pkt (set_in_buf buf2 (set_in_buf buf info), g) }
       })
     = (if n \<le> 0 then Some (HS_DEL, set_in_buf buf info, g)
        else do {
          (r, pkt, buf') \<leftarrow> buffer_deserialize (deserialize_pkt E) zero_packet buf;
          if r < 0 then Some (HS_DEL, set_in_buf buf info, g)
          else if r > 0 then Some (HS_SUC, set_in_buf buf info, g)
          else rd_fin hi io pkt (set_in_buf buf' info, g)
        })" for n :: int and buf
  proof (cases "block_mem (buf_begin buf)")
    case (Some mem)
    show ?thesis
    proof (cases "deserialize_pkt E mem (buffer_used buf) zero_packet 0")
      case (Some res)
      with \<open>block_mem (buf_begin buf) = Some mem\<close> show ?thesis
        by (cases res, cases "buffer_shift buf (fst res)") (auto simp: buffer_deserialize_def Let_def)
    qed (simp add: buffer_deserialize_def Some)
  qed (simp add: buffer_deserialize_def)
  show ?thesis
  proof (cases "buffer_read E (io_read io) (se_buf (si_in info))")
    case (Some z)
    obtain n buf where "z = (n, buf)" by (cases z)
    with Some assms tail [of n buf] show ?thesis
      by (cases "n \<le> 0") (auto simp: handle_pkt_rd_def handle_pkt_rd_ref_def Let_def)
  qed (use assms in \<open>simp add: handle_pkt_rd_def handle_pkt_rd_ref_def\<close>)
qed

section \<open>The contract of a packet handler\<close>

lemma set_buf_live [simp]:
  "live_fds (set_in_buf b info) = live_fds info" "live_fds (set_out_buf b info) = live_fds info"
  by (cases "si_state info"; simp add: live_fds_def set_in_buf_def set_out_buf_def)+

lemma set_buf_ok:
  "bufs_ok info \<Longrightarrow> buffer_ok b \<Longrightarrow> bufs_ok (set_in_buf b info) \<and> bufs_ok (set_out_buf b info)"
  by (simp add: bufs_ok_def set_in_buf_def set_out_buf_def)

text \<open>
  After a packet was read, or everything was written, the handler may keep the socket
  (HS_SUC), which must then be in a state that can be polled, or have it removed (HS_DEL).
\<close>

definition outcome_ok :: "('g \<Rightarrow> bool) \<Rightarrow> handler_e \<times> middfs_sockinfo \<times> 'g \<Rightarrow> bool" where
  "outcome_ok ginv res \<longleftrightarrow>
     (case res of (st, info, g) \<Rightarrow>
        (st = HS_SUC \<and> sockinfo_live info \<or> st = HS_DEL \<and> bufs_ok info) \<and> ginv g)"

locale packet_handler =
  fixes E :: cenv and hi :: "'g handler_info" and ginv :: "'g \<Rightarrow> bool"
  assumes rd_law: "sockinfo_live info \<Longrightarrow> si_state info = MSS_REQRD \<or> si_state info = MSS_RSPFWD \<Longrightarrow>
      ginv g \<Longrightarrow> rd_fin hi io pkt (info, g) = Some res \<Longrightarrow> outcome_ok ginv res"
    and wr_law: "sockinfo_live info \<Longrightarrow> si_state info = MSS_RSPWR \<or> si_state info = MSS_REQFWD \<Longrightarrow>
      ginv g \<Longrightarrow> wr_fin hi io (info, g) = Some res \<Longrightarrow> outcome_ok ginv res"
begin

lemma pkt_rd:
  assumes live: "sockinfo_live info" "si_state info = MSS_REQRD \<or> si_state info = MSS_RSPFWD"
    and g: "ginv g" and rd: "read_ok (io_read io)"
    and run: "handle_pkt_rd E hi io (info, g) = Some res"
  shows "outcome_ok ginv res"
proof -
  have b: "bufs_ok info" "buffer_ok (se_buf (si_in info))" "live_fds info"
    using live by (simp_all add: sockinfo_live_def bufs_ok_def)
  have "si_revents info AND POLLIN \<noteq> 0" using run by (auto simp: handle_pkt_rd_def split: if_splits)
  then have ref: "handle_pkt_rd_ref E hi io (info, g) = Some res" using run by (simp add: rd_eq_ref)
  obtain n buf where n: "buffer_read E (io_read io) (se_buf (si_in info)) = Some (n, buf)"
    "buffer_ok buf"
    by (rule read_cases [OF b(2) rd, of E])
  then have b1: "bufs_ok (set_in_buf buf info)" using set_buf_ok b by blast
  show ?thesis
  proof (cases "n \<le> 0")
    case True
    with ref n b1 g show ?thesis by (auto simp: handle_pkt_rd_ref_def outcome_ok_def)
  next
    case False
    with ref n obtain r pkt buf' where d: "buffer_deserialize (deserialize_pkt E) zero_packet buf = Some (r, pkt, buf')"
      and res: "(if r < 0 then Some (HS_DEL, set_in_buf buf info, g)
        else if r > 0 then Some (HS_SUC, set_in_buf buf info, g)
        else rd_fin hi io pkt (set_in_buf buf' info, g)) = Some res"
      by (auto simp: handle_pkt_rd_ref_def bind_Some_iff)
    consider "r < 0" | "r > 0" | "r = 0" by linarith
    then show ?thesis
    proof cases
      case 3
      then have "\<exists>k. buffer_shift buf k = Some buf'"
        using d by (auto simp: buffer_deserialize_def bind_Some_iff Let_def split: if_splits)
      then obtain k where "buffer_shift buf k = Some buf'" by blast
      then have "buffer_ok buf'" using shift_result [OF n(2), of k] by force
      then have "sockinfo_live (set_in_buf buf' info)"
        using set_buf_ok [OF b(1)] b(3) by (simp add: sockinfo_live_def)
      moreover have "si_state (set_in_buf buf' info) = si_state info" by (simp add: set_in_buf_def)
      ultimately show ?thesis using rd_law [of "set_in_buf buf' info" g io pkt res] live(2) g res 3 by simp
    qed (use res b b1 g in \<open>auto simp: outcome_ok_def sockinfo_live_def\<close>)
  qed
qed

lemma pkt_wr:
  assumes live: "sockinfo_live info" "si_state info = MSS_RSPWR \<or> si_state info = MSS_REQFWD"
    and g: "ginv g" and run: "handle_pkt_wr E hi io (info, g) = Some res"
  shows "outcome_ok ginv res"
proof -
  have b: "bufs_ok info" "buffer_ok (se_buf (si_out info))" "live_fds info"
    using live by (simp_all add: sockinfo_live_def bufs_ok_def)
  obtain n buf where n: "buffer_write (io_write io) (se_buf (si_out info)) = Some (n, buf)"
    "buffer_ok buf"
    by (rule write_cases [OF b(2), of "io_write io"]) (use b in auto)
  have live1: "sockinfo_live (set_out_buf buf info)"
    using set_buf_ok [OF b(1) n(2)] b(3) by (simp add: sockinfo_live_def)
  have res: "(if n < 0 then Some (HS_DEL, set_out_buf buf info, g)
      else if n > 0 then Some (HS_SUC, set_out_buf buf info, g)
      else wr_fin hi io (set_out_buf buf info, g)) = Some res"
    using run n by (auto simp: handle_pkt_wr_def Let_def split: if_splits)
  consider "n < 0" | "n > 0" | "n = 0" by linarith
  then show ?thesis
  proof cases
    case 3
    have "si_state (set_out_buf buf info) = si_state info" by (simp add: set_out_buf_def)
    with 3 wr_law [OF live1 _ g, of io res] live(2) res show ?thesis by simp
  qed (use res live1 g in \<open>auto simp: outcome_ok_def sockinfo_live_def\<close>)
qed

lemma pkt_event:
  assumes "sockinfo_live info" "ginv g" "read_ok (io_read io)"
    "handle_pkt_event E hi io (info, g) = Some res"
  shows "outcome_ok ginv res"
proof (cases "si_revents info = 0")
  case True
  with assms show ?thesis by (auto simp: handle_pkt_event_def outcome_ok_def)
next
  case False
  with assms pkt_rd [OF assms(1) _ assms(2,3)] pkt_wr [OF assms(1) _ assms(2)] show ?thesis
    by (cases "si_state info") (simp_all add: handle_pkt_event_def)
qed

end

section \<open>The server loop\<close>

lemma lstn_event:
  assumes "handle_lstn_event io info junk = Some (st, info', new)"
  shows "info' = info \<and> (st = HS_SUC \<or> st = HS_DEL \<or> st = HS_NEW \<and> sockinfo_live new)"
proof (cases "si_revents info AND POLLIN \<noteq> 0 \<and> 0 \<le> server_accept io (se_fd (si_in info))")
  case True
  let ?fd = "server_accept io (se_fd (si_in info))"
  obtain new1 where "middfs_sockinfo_init MFD_PKT_IN ?fd (-1) junk = Some new1" "sockinfo_live new1"
  proof -
    have "0 \<le> ?fd" using True by blast
    from sockinfo_init_live [OF this, of MFD_PKT_IN "-1" junk] show thesis using that by blast
  qed
  with True assms show ?thesis by (auto simp: handle_lstn_event_def Let_def)
next
  case False
  with assms show ?thesis by (auto simp: handle_lstn_event_def Let_def split: if_splits)
qed

lemma live_cases:
  "sockinfo_live info \<Longrightarrow>
   si_type info = MFD_PKT_IN \<or> si_type info = MFD_LSTN \<and> si_state info = MSS_LSTN"
  by (cases "si_state info") (auto simp: sockinfo_live_def live_fds_def)

lemma list_all_update:
  "list_all P xs \<Longrightarrow> P x \<Longrightarrow> list_all P (xs[i := x])"
  by (auto simp: list_all_iff dest!: set_update_subset_insert [THEN subsetD])

lemma apply_status_keeps:
  assumes t: "table_ok socks" and i: "i < length (infos socks)"
    and others: "\<And>j. j < length (infos socks) \<Longrightarrow> j \<noteq> i \<Longrightarrow> sockinfo_ok (infos socks ! j)"
    and st: "st = HS_SUC \<and> sockinfo_ok (infos socks ! i)
      \<or> st = HS_NEW \<and> sockinfo_ok (infos socks ! i) \<and> sockinfo_live new
      \<or> st = HS_DEL \<and> bufs_ok (infos socks ! i)"
    and run: "apply_status E io i st new socks = Some (go, socks')"
  shows "socks_ok socks' \<and> length (infos socks) \<le> length (infos socks') \<and>
    (\<forall>j < length (infos socks). j \<noteq> i \<longrightarrow> infos socks' ! j = infos socks ! j) \<and>
    (if st = HS_DEL then sockinfo_dead (infos socks' ! i) else infos socks' ! i = infos socks ! i) \<and>
    (st = HS_NEW \<and> go \<longrightarrow> infos socks' = infos socks @ [new])"
proof -
  have all: "socks_ok socks" if "sockinfo_ok (infos socks ! i)"
    using t others that by (auto simp: socks_ok_def list_all_length)
  consider (suc) "st = HS_SUC" "sockinfo_ok (infos socks ! i)"
    | (new) "st = HS_NEW" "sockinfo_ok (infos socks ! i)" "sockinfo_live new"
    | (del) "st = HS_DEL" "bufs_ok (infos socks ! i)" using st by blast
  then show ?thesis
  proof cases
    case suc
    with run all show ?thesis by (simp add: apply_status_def)
  next
    case new
    then have "sk_count socks = sk_len socks \<longrightarrow> 2 * sk_len socks \<le> INT_MAX"
      using run by (auto simp: apply_status_def middfs_socks_add_def split: if_splits)
    then have add: "middfs_socks_add E new socks = Some (-1, socks) \<or>
        (\<exists>s'. middfs_socks_add E new socks = Some (0, s') \<and> table_ok s' \<and> infos s' = infos socks @ [new])"
      using socks_add_cases' [OF t, of E new] by blast
    with run new all i show ?thesis
      by (auto simp: apply_status_def socks_ok_def sockinfo_ok_def bind_Some_iff nth_append)
  next
    case del
    obtain s' info' where r: "middfs_socks_remove (io_close io) i socks = Some (0, s')" "table_ok s'"
      "infos s' = (infos socks)[i := info']" "sockinfo_dead info'"
      by (rule socks_remove_result [OF t i del(2)])
    have "sockinfo_ok ((infos socks)[i := info'] ! j)" if "j < length (infos socks)" for j
      using others [OF that] r(4) that by (cases "j = i") (simp_all add: sockinfo_ok_def)
    with run del r i show ?thesis by (simp add: apply_status_def socks_ok_def list_all_length)
  qed
qed

context packet_handler
begin

lemma socket_event:
  assumes "sockinfo_ok info" "ginv g" "read_ok (io_read io)"
    "handle_socket_event E hi io (info, g) junk = Some (st, info', new, g')"
  shows "ginv g' \<and>
    (st = HS_SUC \<and> sockinfo_ok info' \<or> st = HS_NEW \<and> sockinfo_ok info' \<and> sockinfo_live new
     \<or> st = HS_DEL \<and> bufs_ok info')"
proof (cases "sockinfo_live info")
  case False
  then have "\<not> middfs_sockinfo_isopen info"
    using assms(1) dead_not_open by (auto simp: sockinfo_ok_def)
  with assms show ?thesis by (auto simp: handle_socket_event_def)
next
  case True
  have open_info: "middfs_sockinfo_isopen info" using True by (rule live_isopen)
  have b: "bufs_ok info" using True by (simp add: sockinfo_live_def)
  from live_cases [OF True] show ?thesis
  proof
    assume "si_type info = MFD_PKT_IN"
    then obtain r where "handle_pkt_event E hi io (info, g) = Some (st, info', g')"
      using assms(4) open_info by (auto simp: handle_socket_event_def bind_Some_iff)
    from pkt_event [OF True assms(2,3) this] show ?thesis
      by (auto simp: outcome_ok_def sockinfo_ok_def)
  next
    assume "si_type info = MFD_LSTN \<and> si_state info = MSS_LSTN"
    then have "handle_lstn_event io info junk = Some (st, info', new) \<and> g' = g"
      using assms(4) open_info by (auto simp: handle_socket_event_def bind_Some_iff)
    with lstn_event [of io info junk st info' new] assms(1,2) b show ?thesis by auto
  qed
qed

lemma event_step:
  assumes run: "handle_events E hi ios (i # js) (socks, g) = Some (r, socks', g')"
    and ok: "socks_ok socks" "ginv g" "read_ok (io_read (ios i))" and i: "i < length (infos socks)"
  obtains st info1 new g1 go s2 where
    "handle_socket_event E hi (ios i) (infos socks ! i, g) (io_junk (ios i)) = Some (st, info1, new, g1)"
    "ginv g1" "socks_ok s2" "length (infos socks) \<le> length (infos s2)"
    "\<And>j. j < length (infos socks) \<Longrightarrow> j \<noteq> i \<Longrightarrow> infos s2 ! j = infos socks ! j"
    "if st = HS_DEL then sockinfo_dead (infos s2 ! i) else infos s2 ! i = info1"
    "st = HS_NEW \<Longrightarrow> go \<Longrightarrow> infos s2 = (infos socks)[i := info1] @ [new]"
    "(if go then handle_events E hi ios js (s2, g1) else Some (-1, s2, g1)) = Some (r, socks', g')"
proof -
  let ?xs = "infos socks"
  have t: "table_ok socks" and xs: "list_all sockinfo_ok ?xs" using ok(1) by (simp_all add: socks_ok_def)
  have ok_i: "sockinfo_ok (?xs ! i)" using xs i by (simp add: list_all_length)
  from run slot_get_info [OF t i] obtain st info1 new g1 b go s2 where
    ev: "handle_socket_event E hi (ios i) (?xs ! i, g) (io_junk (ios i)) = Some (st, info1, new, g1)"
    and put: "slot_set (sk_sockinfos socks) i (Some info1) = Some b"
    and ap: "apply_status E (ios i) i st new (socks\<lparr>sk_sockinfos := b\<rparr>) = Some (go, s2)"
    and rest: "(if go then handle_events E hi ios js (s2, g1) else Some (-1, s2, g1)) = Some (r, socks', g')"
    by (auto simp: bind_Some_iff)
  note post = socket_event [OF ok_i ok(2,3) ev]
  obtain b' where b': "slot_set (sk_sockinfos socks) i (Some info1) = Some b'"
    "table_ok (socks\<lparr>sk_sockinfos := b'\<rparr>)" "infos (socks\<lparr>sk_sockinfos := b'\<rparr>) = ?xs[i := info1]"
    by (rule slot_set_info [OF t i])
  with put have "b' = b" by simp
  note b' = b' [unfolded this]
  have s2: "socks_ok s2 \<and> length ?xs \<le> length (infos s2) \<and>
      (\<forall>j < length ?xs. j \<noteq> i \<longrightarrow> infos s2 ! j = ?xs ! j) \<and>
      (if st = HS_DEL then sockinfo_dead (infos s2 ! i) else infos s2 ! i = info1) \<and>
      (st = HS_NEW \<and> go \<longrightarrow> infos s2 = ?xs[i := info1] @ [new])"
    using apply_status_keeps [OF b'(2) _ _ _ ap] b'(3) i xs post by (simp add: list_all_length)
  show thesis by (rule that [OF ev _ _ _ _ _ _ rest]) (use s2 post in auto)
qed

lemma events_keep:
  assumes "handle_events E hi ios js (socks, g) = Some (r, socks', g')"
    "socks_ok socks" "ginv g" "\<And>i. read_ok (io_read (ios i))" "\<forall>j \<in> set js. j < length (infos socks)"
  shows "socks_ok socks' \<and> ginv g' \<and> length (infos socks) \<le> length (infos socks') \<and>
    (\<forall>j < length (infos socks). j \<notin> set js \<longrightarrow> infos socks' ! j = infos socks ! j)"
  using assms
proof (induction js arbitrary: socks g)
  case Nil
  then show ?case by simp
next
  case (Cons i js)
  have i: "i < length (infos socks)" using Cons.prems(5) by simp
  show ?case
  proof (rule event_step [OF Cons.prems(1-4) i])
    fix st info1 new g1 go s2
    assume s2: "ginv g1" "socks_ok s2" "length (infos socks) \<le> length (infos s2)"
      "\<And>j. j < length (infos socks) \<Longrightarrow> j \<noteq> i \<Longrightarrow> infos s2 ! j = infos socks ! j"
      and rest: "(if go then handle_events E hi ios js (s2, g1) else Some (-1, s2, g1)) = Some (r, socks', g')"
    show ?case
    proof (cases go)
      case True
      have "socks_ok socks' \<and> ginv g' \<and> length (infos s2) \<le> length (infos socks') \<and>
          (\<forall>j < length (infos s2). j \<notin> set js \<longrightarrow> infos socks' ! j = infos s2 ! j)"
        using rest True s2 Cons.prems(4,5) by (intro Cons.IH [of s2 g1]) auto
      with s2 show ?thesis by auto
    next
      case False
      with rest s2 show ?thesis by auto
    qed
  qed
qed

text \<open>One round of the server keeps the table well-formed and the handler's state valid.\<close>

lemma server_loop_keeps:
  assumes "socks_ok socks" "ginv g" "poll_ok pol" "\<And>i. read_ok (io_read (ios i))"
    "server_loop E hi pol cl ios (socks, g) = Some (r, socks', g')"
  shows "socks_ok socks' \<and> ginv g' \<and> length (infos socks) \<le> length (infos socks')"
proof (rule socks_poll_cases [OF assms(1,3), of E cl])
  fix s1 assume "middfs_socks_poll E cl pol socks = Some (-1, s1)" "socks_ok s1"
    "length (infos s1) = length (infos socks)"
  with assms(2,5) show ?thesis by (simp add: server_loop_def)
next
  fix n s1 revs assume p: "middfs_socks_poll E cl pol socks = Some (n, s1)" "0 \<le> n" "socks_ok s1"
    "length (infos s1) = length (infos socks)"
  have t: "table_ok s1" using p(3) by (simp add: socks_ok_def)
  have "nat (sk_count s1) = length (infos s1)" by (rule table_okE [OF t]) linarith
  then have "handle_events E hi ios [0..<length (infos s1)] (s1, g) = Some (r, socks', g')"
    using assms(5) p(1,2) by (simp add: server_loop_def)
  from events_keep [OF this p(3) assms(2,4)] p(4) show ?thesis by simp
qed

end

end
