(* ===== verification/Middfs_Serve.thy ===== *)
theory Middfs_Serve
  imports Middfs_Conn
begin

text \<open>
  The loop \<open>while (server_loop(...) >= 0) {}\<close> that \<open>server/middfs-server.c\<close> and
  \<open>client/middfs-client-responder.c\<close> both end in.
\<close>

text \<open>
  The endless loop of a server, over the rounds the network gives it: what \<open>poll\<close> reports and
  what the calls of the events return. It ends when a round fails; a loop that goes on for
  ever is None, like one that is stopped.
\<close>

record round =
  rn_poll :: sys_poll
  rn_ios :: "nat \<Rightarrow> io"

partial_function (option) serve_rounds ::
    "cenv \<Rightarrow> 'g handler_info \<Rightarrow> (int \<Rightarrow> bool) \<Rightarrow> (nat \<Rightarrow> round) \<Rightarrow> nat \<Rightarrow> middfs_socks \<times> 'g \<Rightarrow>
     (middfs_socks \<times> 'g) option" where
  "serve_rounds E hi cl rounds k s = do {
     (r, s1) \<leftarrow> server_loop E hi (rn_poll (rounds k)) cl (rn_ios (rounds k)) s;
     if r \<ge> 0 then serve_rounds E hi cl rounds (k + 1) s1 else Some s1
   }"

declare serve_rounds.simps [code]

end
