(* ===== verification/Serve_Laws.thy ===== *)
theory Serve_Laws
  imports Conn_Laws Middfs_Serve
begin

text \<open>
  The life of a server as the states it reaches, round by round, and what a packet handler that
  meets its contract keeps through all of them.
\<close>

text \<open>Rounds in which \<open>poll\<close> and \<open>read\<close> do what they promise.\<close>

definition round_ok :: "round \<Rightarrow> bool" where
  "round_ok rd \<longleftrightarrow> poll_ok (rn_poll rd) \<and> (\<forall>i. read_ok (io_read (rn_ios rd i)))"

inductive serves ::
    "cenv \<Rightarrow> 'g handler_info \<Rightarrow> (int \<Rightarrow> bool) \<Rightarrow> middfs_socks \<times> 'g \<Rightarrow> middfs_socks \<times> 'g \<Rightarrow> bool"
  for E hi cl s0 where
  begins: "serves E hi cl s0 s0"
| one_round: "serves E hi cl s0 s \<Longrightarrow> round_ok rd \<Longrightarrow>
    server_loop E hi (rn_poll rd) cl (rn_ios rd) s = Some (r, s') \<Longrightarrow> serves E hi cl s0 s'"

lemma serves_trans: "serves E hi cl s1 s2 \<Longrightarrow> serves E hi cl s0 s1 \<Longrightarrow> serves E hi cl s0 s2"
  by (induction rule: serves.induct) (auto intro: serves.intros)

text \<open>The loop of the program goes through these states.\<close>

lemma serve_rounds_serves:
  assumes "serve_rounds E hi cl rounds k s = Some s'" "\<forall>k. round_ok (rounds k)"
  shows "serves E hi cl s s'"
  using assms(2)
proof (rule serve_rounds.raw_induct [OF _ assms(1),
      where P = "\<lambda>E hi cl rounds k s s'. (\<forall>k. round_ok (rounds k)) \<longrightarrow> serves E hi cl s s'",
      THEN mp, rotated])
  fix loop E hi cl rounds k s s'
  assume IH: "\<And>E hi cl rounds k s s'. loop E hi cl rounds k s = Some s' \<Longrightarrow>
      (\<forall>k. round_ok (rounds k)) \<longrightarrow> serves E hi cl s s'"
    and body: "do {
      (r, s1) \<leftarrow> server_loop E hi (rn_poll (rounds k)) cl (rn_ios (rounds k)) s;
      if r \<ge> 0 then loop E hi cl rounds (k + 1) s1 else Some s1
    } = Some s'"
  from body obtain r s1 where run: "server_loop E hi (rn_poll (rounds k)) cl (rn_ios (rounds k)) s = Some (r, s1)"
    and rest: "(if r \<ge> 0 then loop E hi cl rounds (k + 1) s1 else Some s1) = Some s'"
    by (auto simp: bind_Some_iff)
  show "(\<forall>k. round_ok (rounds k)) \<longrightarrow> serves E hi cl s s'"
  proof
    assume ok: "\<forall>k. round_ok (rounds k)"
    then have one: "serves E hi cl s s1" using run by (blast intro: serves.intros)
    show "serves E hi cl s s'"
    proof (cases "r \<ge> 0")
      case True
      with rest IH [of E hi cl rounds "k + 1" s1 s'] ok one show ?thesis by (auto intro: serves_trans)
    next
      case False
      with rest one show ?thesis by simp
    qed
  qed
qed

text \<open>The start: one listening socket.\<close>

lemma server_start_ok:
  assumes "server_start E io middfs_socks_init = Some (0, socks)"
  shows "socks_ok socks"
proof -
  have fd: "0 \<le> st_socket io" using assms by (simp add: server_start_def split: if_splits)
  obtain info where info: "middfs_sockinfo_init MFD_LSTN (st_socket io) (-1) (st_junk io) = Some info"
    "sockinfo_live info"
    using sockinfo_init_live [OF fd, of MFD_LSTN "-1" "st_junk io"] by auto
  have t: "table_ok middfs_socks_init" using socks_init_ok(1) by (simp add: socks_ok_def)
  have "middfs_socks_add E info middfs_socks_init = Some (-1, middfs_socks_init) \<or>
      (\<exists>s'. middfs_socks_add E info middfs_socks_init = Some (0, s') \<and> table_ok s' \<and> infos s' = [info])"
  proof -
    have "2 * sk_len middfs_socks_init \<le> INT_MAX" by (simp add: middfs_socks_init_def INT_MAX_def)
    with socks_add_cases' [OF t, of E info] show ?thesis by simp
  qed
  with assms info show ?thesis
    by (auto simp: server_start_def bind_Some_iff socks_ok_def sockinfo_ok_def split: if_splits)
qed

context packet_handler
begin

lemma serves_keep:
  assumes "serves E hi cl s0 s" "socks_ok (fst s0)" "ginv (snd s0)"
  shows "socks_ok (fst s) \<and> ginv (snd s) \<and> length (infos (fst s0)) \<le> length (infos (fst s))"
  using assms
proof (induction rule: serves.induct)
  case (one_round s rd r s')
  then show ?case
    using server_loop_keeps [of "fst s" "snd s" "rn_poll rd" "rn_ios rd" cl r "fst s'" "snd s'"]
    by (auto simp: round_ok_def)
qed simp

end

end
