(* ===== verification/Handler_Laws.thy ===== *)
theory Handler_Laws
  imports Server_Handler Serve_Laws
begin

text \<open>
  The server's handlers meet the contract of a packet handler: whatever packet a peer sends,
  the socket they leave is in a state that can be polled, or is removed, and the client list
  stays well-formed.
\<close>

section \<open>Each handler\<close>

lemma client_create_named:
  assumes "client_create E conn peer = Some (r, c)"
  shows "r = -1 \<and> c = None \<or> r = 0 \<and> (\<exists>cl. c = Some cl \<and> named cl \<and> cl_username cl = conn_name conn)"
  using assms
  by (auto simp: client_create_def strdup_def named_def bind_Some_iff split: option.splits if_splits)

lemma connect_ok_outcome:
  assumes "bufs_ok info" "clients_ok cs" "handle_connect E io pkt (info, cs) = Some res"
  shows "outcome_ok clients_ok res"
proof -
  obtain conn r c where cc: "client_create E conn (io_peer io) = Some (r, c)"
    and res: "(if r < 0 then Some (HS_DEL, info, cs)
      else do {
        c \<leftarrow> c;
        (r', cs1) \<leftarrow> clients_add E c cs;
        if r' < 0 then Some (HS_DEL, info, cs1)
        else do {
          _ \<leftarrow> client_print c;
          Some (HS_DEL, info, cs1)
        }
      }) = Some res"
    using assms(3) by (auto simp: handle_connect_def bind_Some_iff)
  from client_create_named [OF cc] show ?thesis
  proof
    assume "r = -1 \<and> c = None"
    with res assms show ?thesis by (auto simp: outcome_ok_def)
  next
    assume "r = 0 \<and> (\<exists>cl. c = Some cl \<and> named cl \<and> cl_username cl = conn_name conn)"
    then obtain cl where cl: "r = 0" "c = Some cl" "named cl" by blast
    with res obtain r' cs1 where add: "clients_add E cl cs = Some (r', cs1)"
      and "res = (HS_DEL, info, cs1)"
      by (auto simp: bind_Some_iff split: if_splits)
    moreover have "clients_ok cs1" using directory.add_law [OF assms(2) cl(3), of E] add by auto
    ultimately show ?thesis using assms(1) by (simp add: outcome_ok_def)
  qed
qed

lemma answer_client_live:
  assumes "sockinfo_live info" "polls_in (si_state info)" "si_type info = MFD_PKT_IN"
  shows "sockinfo_live (answer_client info)"
  using assms live_polls(2) [OF assms(1,2)]
  by (simp add: sockinfo_live_def bufs_ok_def live_fds_def answer_client_def)

lemma reading_type:
  "sockinfo_live info \<Longrightarrow> si_state info = MSS_REQRD \<or> si_state info = MSS_RSPFWD \<Longrightarrow>
   polls_in (si_state info) \<and> si_type info = MFD_PKT_IN \<and> 0 \<le> se_fd (si_in info)"
  by (auto simp: sockinfo_live_def live_fds_def polls_in_def)

text \<open>Where the request goes: the socket that \<open>handle_req_rd_fin\<close> then writes to.\<close>

lemma peer_outcome:
  assumes "sockinfo_live info" "si_state info = MSS_REQRD \<or> si_state info = MSS_RSPFWD"
    "handle_req_rd_fin_peer E io pkt out (info, cs) = Some (st, out', info')"
  shows "st = HS_SUC \<and> sockinfo_live info' \<or> st = HS_DEL \<and> bufs_ok info'"
proof -
  note r = reading_type [OF assms(1,2)]
  have a: "sockinfo_live (answer_client info)" using r assms(1) by (intro answer_client_live) auto
  show ?thesis
    using assms(1,3) r a
    by (auto simp: handle_req_rd_fin_peer_def bind_Some_iff sockinfo_live_def bufs_ok_def live_fds_def
        Let_def split: option.splits if_splits)
qed

lemma serialized_outcome:
  assumes "bufs_ok info" "buffer_serialize E (serialize_pkt pkt) (se_buf (si_out info)) = Some (r, buf)"
  shows "bufs_ok (set_out_buf buf info)"
proof -
  have "buffer_ok (se_buf (si_out info))" using assms(1) by (simp add: bufs_ok_def)
  from buffer_serialize_ok [OF framed_pkt this assms(2)] show ?thesis
    using set_buf_ok [OF assms(1)] by blast
qed

lemma req_rd_outcome:
  assumes "sockinfo_live info" "si_state info = MSS_REQRD \<or> si_state info = MSS_RSPFWD"
    "clients_ok cs" "handle_req_rd_fin E io pkt (info, cs) = Some res"
  shows "outcome_ok clients_ok res"
proof -
  note rd = reading_type [OF assms(1,2)]
  obtain st out info1 where st: "st = HS_SUC \<and> sockinfo_live info1 \<or> st = HS_DEL \<and> bufs_ok info1"
    and res: "(if st = HS_DEL then Some (st, info1, cs)
       else do {
         (r, buf) \<leftarrow> buffer_serialize E (serialize_pkt out) (se_buf (si_out info1));
         Some (if r < 0 then HS_DEL else HS_SUC, set_out_buf buf info1, cs)
       }) = Some res"
  proof -
    obtain req where req: "get_request (mpkt_un pkt) = Some req"
      using assms(4) by (auto simp: handle_req_rd_fin_def bind_Some_iff)
    let ?root = "mr_path (mreq_rsrc req) = None \<or> mr_path (mreq_rsrc req) = Some []"
    show thesis
    proof (cases ?root)
      case True
      have "sockinfo_live (answer_client info)" using rd assms(1) by (intro answer_client_live) auto
      moreover obtain rsp where "(let out = (packet_init zero_packet MPKT_RESPONSE)\<lparr>mpkt_un := Pkt_response rsp\<rparr>
          in buffer_serialize E (serialize_pkt out) (se_buf (si_out (answer_client info))) \<bind>
             (\<lambda>(r, buf). Some (if r < 0 then HS_DEL else HS_SUC, set_out_buf buf (answer_client info), cs)))
          = Some res"
        using True assms(4) req
        by (auto simp: handle_req_rd_fin_def handle_req_rd_fin_root_def bind_Some_iff Let_def)
      ultimately show thesis
        by (intro that [of HS_SUC "answer_client info"
              "(packet_init zero_packet MPKT_RESPONSE)\<lparr>mpkt_un := Pkt_response rsp\<rparr>"])
          (simp_all add: Let_def)
    next
      case False
      then obtain st out info1 where "handle_req_rd_fin_peer E io pkt zero_packet (info, cs) = Some (st, out, info1)"
        and "(if st = HS_DEL then Some (st, info1, cs)
           else do {
             (r, buf) \<leftarrow> buffer_serialize E (serialize_pkt out) (se_buf (si_out info1));
             Some (if r < 0 then HS_DEL else HS_SUC, set_out_buf buf info1, cs)
           }) = Some res"
        using assms(4) req
        by (auto simp: handle_req_rd_fin_def bind_Some_iff Let_def cong: if_cong)
      with peer_outcome [OF assms(1,2)] that show thesis by blast
    qed
  qed
  show ?thesis
  proof (cases "st = HS_DEL")
    case True
    with res st assms(3) show ?thesis by (auto simp: outcome_ok_def sockinfo_live_def)
  next
    case False
    then have live: "sockinfo_live info1" using st by blast
    with False res obtain r buf where
      s: "buffer_serialize E (serialize_pkt out) (se_buf (si_out info1)) = Some (r, buf)"
      and "res = (if r < 0 then HS_DEL else HS_SUC, set_out_buf buf info1, cs)"
      by (auto simp: bind_Some_iff)
    moreover have "bufs_ok (set_out_buf buf info1)"
      using serialized_outcome [OF _ s] live by (simp add: sockinfo_live_def)
    ultimately show ?thesis using live assms(3) by (auto simp: outcome_ok_def sockinfo_live_def)
  qed
qed

lemma rsp_rd_outcome:
  assumes "sockinfo_live info" "clients_ok cs" "handle_rsp_rd_fin E pkt (info, cs) = Some res"
  shows "outcome_ok clients_ok res"
proof -
  let ?info1 = "info\<lparr>si_state := MSS_RSPWR\<rparr>"
  have live1: "sockinfo_live ?info1"
    using assms(1,3) by (auto simp: handle_rsp_rd_fin_def sockinfo_live_def bufs_ok_def live_fds_def split: if_splits)
  obtain r buf where
    s: "buffer_serialize E (serialize_pkt pkt) (se_buf (si_out ?info1)) = Some (r, buf)"
    and "res = (if r < 0 then HS_DEL else HS_SUC, set_out_buf buf ?info1, cs)"
    using assms(3) by (auto simp: handle_rsp_rd_fin_def bind_Some_iff Let_def split: if_splits)
  moreover have "bufs_ok (set_out_buf buf ?info1)"
    using serialized_outcome [OF _ s] live1 by (simp add: sockinfo_live_def)
  ultimately show ?thesis using live1 assms(2) by (auto simp: outcome_ok_def sockinfo_live_def)
qed

section \<open>The list only grows\<close>

text \<open>No handler takes a client out of the list, whatever comes or is closed.\<close>

definition knows :: "client set \<Rightarrow> clients \<Rightarrow> bool" where
  "knows U cs \<longleftrightarrow> clients_ok cs \<and> U \<subseteq> set (users cs)"

lemma req_rd_clients:
  "handle_req_rd_fin E io pkt (info, cs) = Some (st, info', cs') \<Longrightarrow> cs' = cs"
  by (auto simp: handle_req_rd_fin_def bind_Some_iff Let_def split: if_splits)

lemma connect_clients:
  assumes "handle_connect E io pkt (info, cs) = Some (st, info', cs')" "clients_ok cs"
  shows "set (users cs) \<subseteq> set (users cs')"
proof -
  obtain conn r c where cc: "client_create E conn (io_peer io) = Some (r, c)"
    and res: "cs' = cs \<or> (\<exists>cl r'. c = Some cl \<and> 0 \<le> r \<and> clients_add E cl cs = Some (r', cs'))"
    using assms(1) by (auto simp: handle_connect_def bind_Some_iff split: if_splits)
  from res show ?thesis
  proof
    assume "\<exists>cl r'. c = Some cl \<and> 0 \<le> r \<and> clients_add E cl cs = Some (r', cs')"
    then obtain cl r' where cl: "c = Some cl" "clients_add E cl cs = Some (r', cs')" by blast
    with client_create_named [OF cc] have "named cl" by auto
    from directory.add_grows [OF assms(2) this cl(2)] show ?thesis .
  qed simp
qed

lemma rd_fin_grows:
  assumes "handle_pkt_rd_fin E io pkt (info, cs) = Some (st, info', cs')" "clients_ok cs"
  shows "set (users cs) \<subseteq> set (users cs')"
proof (cases "mpkt_type pkt")
  case MPKT_CONNECT
  with assms connect_clients [OF _ assms(2)] show ?thesis by (simp add: handle_pkt_rd_fin_def)
next
  case MPKT_REQUEST
  with assms(1) req_rd_clients show ?thesis by (fastforce simp: handle_pkt_rd_fin_def)
next
  case MPKT_RESPONSE
  with assms(1) show ?thesis
    by (auto simp: handle_pkt_rd_fin_def handle_rsp_rd_fin_def bind_Some_iff Let_def split: if_splits)
qed (use assms(1) in \<open>auto simp: handle_pkt_rd_fin_def\<close>)

section \<open>The interface\<close>

interpretation server: packet_handler E "server_hi E" clients_ok
proof (unfold_locales, goal_cases)
  case (1 info g io pkt res)
  then have b: "bufs_ok info" by (simp add: sockinfo_live_def)
  from 1(4) have run: "handle_pkt_rd_fin E io pkt (info, g) = Some res" by (simp add: server_hi_def)
  show ?case
  proof (cases "mpkt_type pkt")
    case MPKT_CONNECT
    with run connect_ok_outcome [OF b 1(3)] show ?thesis by (simp add: handle_pkt_rd_fin_def)
  next
    case MPKT_REQUEST
    with run req_rd_outcome [OF 1(1,2,3)] show ?thesis by (simp add: handle_pkt_rd_fin_def)
  next
    case MPKT_RESPONSE
    with run rsp_rd_outcome [OF 1(1,3)] show ?thesis by (simp add: handle_pkt_rd_fin_def)
  qed (use run b 1(3) in \<open>auto simp: handle_pkt_rd_fin_def outcome_ok_def\<close>)
next
  case (2 info g io res)
  then show ?case
    by (auto simp: server_hi_def handle_pkt_wr_fin_def handle_req_wr_fin_def handle_rsp_wr_fin_def
        outcome_ok_def sockinfo_live_def bufs_ok_def live_fds_def Let_def)
qed

text \<open>The same interface once more, with the clients that are known kept.\<close>

interpretation register: packet_handler E "server_hi E" "knows U"
proof (unfold_locales, goal_cases)
  case (1 info g io pkt res)
  obtain st info' g' where res: "res = (st, info', g')" by (cases res)
  from 1(3) have g: "clients_ok g" by (simp add: knows_def)
  from 1(4) have run: "handle_pkt_rd_fin E io pkt (info, g) = Some (st, info', g')"
    by (simp add: server_hi_def res)
  from server.rd_law [OF 1(1,2) g 1(4)] rd_fin_grows [OF run g] 1(3) show ?case
    by (auto simp: outcome_ok_def knows_def res)
next
  case (2 info g io res)
  from 2(3) have g: "clients_ok g" by (simp add: knows_def)
  from 2(4) have "snd (snd res) = g"
    by (auto simp: server_hi_def handle_pkt_wr_fin_def handle_req_wr_fin_def handle_rsp_wr_fin_def
        Let_def split: middfs_sockstate.splits if_splits)
  with server.wr_law [OF 2(1,2) g 2(4)] 2(3) show ?case
    by (auto simp: outcome_ok_def knows_def)
qed

end
