(* ===== verification/Relay.thy ===== *)
theory Relay
  imports Handler_Laws Serial_Canon Serial_Properties "HOL-Library.Sublist"
begin

text \<open>
  A whole request through the server, from the connection of the client that asks to the
  response it gets from the client that owns the resource. The events of the one socket are
  steps; what has gone over each descriptor is kept as a ghost history, and the theorems are
  about these bytes: the peer is sent exactly the request, the client exactly the response,
  in whatever pieces the network delivers them.
\<close>

section \<open>Sessions\<close>

text \<open>
  The environment of one session: the descriptor of the client that asks and of the connection
  to the owner, the request sent by the one and the response by the other. The client list is
  the server's, and changes during the session as others connect.
\<close>

record session =
  ss_env :: cenv
  ss_client :: int
  ss_peer :: int
  ss_req :: middfs_packet
  ss_rsp :: middfs_packet

definition request_of :: "session \<Rightarrow> middfs_request" where
  "request_of S = old_request (mpkt_un (ss_req S))"

text \<open>The resource is not the root; its owner is in the list.\<close>

definition forwarded :: "session \<Rightarrow> bool" where
  "forwarded S \<longleftrightarrow> mr_path (mreq_rsrc (request_of S)) \<noteq> Some []"

definition online :: "session \<Rightarrow> clients \<Rightarrow> bool" where
  "online S cs \<longleftrightarrow>
     clients_ok cs \<and> mr_owner (mreq_rsrc (request_of S)) \<in> cl_username ` set (users cs)"

definition session_ok :: "session \<Rightarrow> bool" where
  "session_ok S \<longleftrightarrow>
     0 \<le> ss_client S \<and> 0 \<le> ss_peer S \<and> ss_client S \<noteq> ss_peer S \<and>
     pkt_ok (ss_req S) \<and> mpkt_type (ss_req S) = MPKT_REQUEST \<and> alloc_for (ss_env S) (ss_req S) \<and>
     pkt_ok (ss_rsp S) \<and> mpkt_type (ss_rsp S) = MPKT_RESPONSE \<and> alloc_for (ss_env S) (ss_rsp S)"

text \<open>An address that is registered for the owner: where a connection to it has to go.\<close>

definition registered :: "session \<Rightarrow> clients \<Rightarrow> cstr \<Rightarrow> u32 \<Rightarrow> bool" where
  "registered S cs ip port \<longleftrightarrow>
     (\<exists>u \<in> set (users cs). cl_username u = mr_owner (mreq_rsrc (request_of S)) \<and>
        cl_IP u = ip \<and> cl_port u = port)"

abbreviation req_bytes :: "session \<Rightarrow> byte list" where
  "req_bytes S \<equiv> enc_pkt (ss_req S)"

abbreviation rsp_bytes :: "session \<Rightarrow> byte list" where
  "rsp_bytes S \<equiv> enc_pkt (ss_rsp S)"

section \<open>Events and their history\<close>

record net =
  rcvd :: "int \<Rightarrow> byte list"
  sent :: "int \<Rightarrow> byte list"

definition no_bytes :: net where
  "no_bytes = \<lparr>rcvd = \<lambda>_. [], sent = \<lambda>_. []\<rparr>"

text \<open>What one event on the socket takes from, or gives to, the descriptor it is about.\<close>

definition observe :: "cenv \<Rightarrow> io \<Rightarrow> middfs_sockinfo \<Rightarrow> net \<Rightarrow> net" where
  "observe E io info h =
     (if polls_in (si_state info)
      then (let fd = se_fd (si_in info) in
            h\<lparr>rcvd := (rcvd h)(fd := rcvd h fd @ read_result E (io_read io) (se_buf (si_in info)))\<rparr>)
      else (let fd = se_fd (si_out info); bs = contents (se_buf (si_out info)) in
            h\<lparr>sent := (sent h)(fd := sent h fd @
                (case io_write io bs of None \<Rightarrow> [] | Some n \<Rightarrow> take (unat n) bs))\<rparr>))"

text \<open>
  The event the socket waits for, reported by \<open>poll\<close> in e: e has the polled bit.
\<close>

definition awaited :: "middfs_sockinfo \<Rightarrow> int" where
  "awaited info = (if polls_in (si_state info) then POLLIN else POLLOUT)"

definition relay_event ::
    "session \<Rightarrow> clients \<Rightarrow> int \<Rightarrow> io \<Rightarrow> middfs_sockinfo \<Rightarrow> (handler_e \<times> middfs_sockinfo \<times> clients) option" where
  "relay_event S cs e io info =
     handle_pkt_event (ss_env S) (server_hi (ss_env S)) io
       (info\<lparr>si_revents := e\<rparr>, cs)"

text \<open>
  What the kernel and the two clients promise: the calls behave as documented, a write takes
  at least one byte if it is given any, and over their descriptors the clients send the request
  and the response. A connection to an address that is registered for the owner, if it can be made, gets
  the session's second descriptor; of a connection to any other address nothing is known.
\<close>

definition honest :: "session \<Rightarrow> clients \<Rightarrow> io \<Rightarrow> net \<Rightarrow> bool" where
  "honest S cs io h \<longleftrightarrow>
     read_ok (io_read io) \<and> write_ok (io_write io) \<and>
     (\<forall>bs. io_write io bs = Some 0 \<longrightarrow> bs = []) \<and>
     (\<forall>ip port. registered S cs ip port \<longrightarrow>
        io_connect io ip port < 0 \<or> io_connect io ip port = ss_peer S) \<and>
     prefix (rcvd h (ss_client S)) (req_bytes S) \<and> prefix (rcvd h (ss_peer S)) (rsp_bytes S)"

lemma honest_fewer: "honest S cs' io h \<Longrightarrow> set (users cs) \<subseteq> set (users cs') \<Longrightarrow> honest S cs io h"
proof -
  assume h: "honest S cs' io h" and "set (users cs) \<subseteq> set (users cs')"
  then have "registered S cs' ip port" if "registered S cs ip port" for ip port
    using that unfolding registered_def by blast
  with h show ?thesis unfolding honest_def by blast
qed

text \<open>
  The configurations a session reaches: the status of the last event, the number of events,
  the socket and the history. It starts with the socket that \<open>handle_lstn_event\<close> makes of an
  accepted connection, and goes on while the status is HS_SUC: \<open>poll\<close> leaves its marks in the
  socket, and an event is handled with the client list of its moment, in which the owner has
  to be when the request is forwarded.
\<close>

inductive relay :: "session \<Rightarrow> handler_e \<Rightarrow> nat \<Rightarrow> middfs_sockinfo \<Rightarrow> net \<Rightarrow> bool" for S where
  accepted: "middfs_sockinfo_init MFD_PKT_IN (ss_client S) (-1) junk = Some info \<Longrightarrow>
    relay S HS_SUC 0 info no_bytes"
| marks: "relay S HS_SUC n info h \<Longrightarrow>
    relay S HS_SUC n ((set_mark r info)\<lparr>si_revents := e\<rparr>) h"
| event: "relay S HS_SUC n info h \<Longrightarrow> e AND awaited info \<noteq> 0 \<Longrightarrow>
    si_state info = MSS_REQRD \<longrightarrow> online S cs \<Longrightarrow>
    relay_event S cs e io info = Some (st, info', cs') \<Longrightarrow>
    h' = observe (ss_env S) io info h \<Longrightarrow> honest S cs io h' \<Longrightarrow>
    relay S st (Suc n) info' h'"

inductive_cases relayE: "relay S st n info h"

section \<open>Reading and writing one packet\<close>

text \<open>
  A socket end that reads the packet p and has the first bytes of it. One event reads some
  more, and the handler is called when the packet is complete, with exactly this packet and
  an empty buffer.
\<close>

lemma read_packet:
  assumes p: "pkt_ok p" "alloc_for E p" and b: "buffer_ok (se_buf (si_in info))"
    and rd: "read_ok (io_read io)" and e: "si_revents info AND POLLIN \<noteq> 0"
    and short: "length (contents (se_buf (si_in info))) < length (enc_pkt p)"
    and pre: "prefix (contents (se_buf (si_in info)) @ read_result E (io_read io) (se_buf (si_in info)))
      (enc_pkt p)"
  obtains (gone) buf where "handle_pkt_rd E hi io (info, g) = Some (HS_DEL, set_in_buf buf info, g)"
      "buffer_ok buf" "read_result E (io_read io) (se_buf (si_in info)) = []"
  | (some) buf where "handle_pkt_rd E hi io (info, g) = Some (HS_SUC, set_in_buf buf info, g)"
      "buffer_ok buf" "read_result E (io_read io) (se_buf (si_in info)) \<noteq> []"
      "contents buf = contents (se_buf (si_in info)) @ read_result E (io_read io) (se_buf (si_in info))"
      "length (contents buf) < length (enc_pkt p)"
  | (whole) buf where
      "handle_pkt_rd E hi io (info, g) = rd_fin hi io (canon_pkt p) (set_in_buf buf info, g)"
      "buffer_ok buf" "contents buf = []" "read_result E (io_read io) (se_buf (si_in info)) \<noteq> []"
      "contents (se_buf (si_in info)) @ read_result E (io_read io) (se_buf (si_in info)) = enc_pkt p"
proof (rule read_cases [OF b rd, of E])
  fix buf assume "buffer_read E (io_read io) (se_buf (si_in info)) = Some (-1, buf)" "buffer_ok buf"
    "read_result E (io_read io) (se_buf (si_in info)) = []"
  then show thesis
    by (intro gone [of buf]) (simp_all add: rd_eq_ref [OF e] handle_pkt_rd_ref_def)
next
  let ?c = "contents (se_buf (si_in info))" and ?bs = "read_result E (io_read io) (se_buf (si_in info))"
  fix buf n bs assume r: "buffer_read E (io_read io) (se_buf (si_in info)) = Some (int (length bs), buf)"
    "buffer_ok buf" "contents buf = ?c @ bs" "?bs = bs"
  show thesis
  proof (cases "bs = []")
    case True
    with r show thesis
      by (intro gone [of buf]) (simp_all add: rd_eq_ref [OF e] handle_pkt_rd_ref_def)
  next
    case False
    then have pos: "\<not> int (length bs) \<le> 0" by simp
    obtain rest where rest: "enc_pkt p = contents buf @ rest" using pre r(3,4) by (auto elim: prefixE)
    show thesis
    proof (cases "rest = []")
      case True
      obtain buf' where d: "buffer_deserialize (deserialize_pkt E) zero_packet buf
          = Some (0, canon_pkt p, buf')" "buffer_ok buf'" "contents buf' = []"
        by (rule pkt.buffer_deserialize_complete [OF p zero_packet_fresh r(2), of "[]"])
          (use True rest in simp)
      show thesis
        using d r False True rest pos
        by (intro whole [of buf']) (simp_all add: rd_eq_ref [OF e] handle_pkt_rd_ref_def)
    next
      case cut: False
      obtain v' where d: "buffer_deserialize (deserialize_pkt E) zero_packet buf = Some (1, v', buf)"
        by (rule pkt.buffer_deserialize_partial [OF p zero_packet_fresh r(2) rest cut])
      show thesis
        using d r False cut rest pos
        by (intro some [of buf]) (simp_all add: rd_eq_ref [OF e] handle_pkt_rd_ref_def)
    qed
  qed
qed

lemma write_packet:
  assumes b: "buffer_ok (se_buf (si_out info))" and wr: "write_ok (io_write io)"
    and live: "\<And>bs. io_write io bs = Some 0 \<Longrightarrow> bs = []"
    and e: "si_revents info AND POLLOUT \<noteq> 0"
  obtains (gone) "handle_pkt_wr E hi io (info, g)
        = Some (HS_DEL, info, g)" "io_write io (contents (se_buf (si_out info))) = None"
  | (some) buf n where "handle_pkt_wr E hi io (info, g) = Some (HS_SUC, set_out_buf buf info, g)"
      "buffer_ok buf" "io_write io (contents (se_buf (si_out info))) = Some n" "0 < unat n"
      "unat n \<le> length (contents (se_buf (si_out info)))"
      "contents buf = drop (unat n) (contents (se_buf (si_out info)))"
  | (whole) buf where "handle_pkt_wr E hi io (info, g) = wr_fin hi io (set_out_buf buf info, g)"
      "buffer_ok buf" "contents (se_buf (si_out info)) = []" "contents buf = []"
      "io_write io [] = Some 0"
proof (rule write_cases [OF b, of "io_write io"])
  assume "io_write io (contents (se_buf (si_out info))) = None"
    "buffer_write (io_write io) (se_buf (si_out info)) = Some (-1, se_buf (si_out info))"
  with e show thesis
    by (intro gone) (simp_all add: handle_pkt_wr_def set_out_buf_def)
next
  let ?c = "contents (se_buf (si_out info))"
  fix buf n assume w: "io_write io ?c = Some n" "buffer_ok buf" "contents buf = drop (unat n) ?c"
    "buffer_write (io_write io) (se_buf (si_out info)) = Some (sint n, buf)"
  have le: "unat n \<le> length ?c" using wr w(1) by (simp add: write_ok_def)
  have "length ?c < 2 ^ 63"
    using buffer_ok_mem [OF b] buffer_ok_end [OF b] by (metis length_take min.strict_coboundedI2 min.commute)
  then have s: "sint n = int (unat n)"
    using le by (simp add: sint_unat_small)
  show thesis
  proof (cases "unat n = 0")
    case True
    then have "n = 0" by (simp add: unat_eq_0)
    then have "?c = []" using w(1) live by simp
    with w e s True \<open>n = 0\<close> show thesis
      by (intro whole [of buf]) (auto simp: handle_pkt_wr_def)
  next
    case False
    then have "0 < int (unat n)" by (simp only: of_nat_0_less_iff)
    then have "0 < sint n" using s by (simp only:)
    with w e le False show thesis
      by (intro some [of buf n]) (simp_all add: handle_pkt_wr_def Let_def)
  qed
qed

section \<open>The invariant of a session\<close>

text \<open>How far the session is, for each state of its socket.\<close>

definition stage_ok :: "session \<Rightarrow> middfs_sockinfo \<Rightarrow> net \<Rightarrow> bool" where
  "stage_ok S info h \<longleftrightarrow>
     (let c = ss_client S; p = ss_peer S; ein = si_in info; eout = si_out info in
      case si_state info of
        MSS_REQRD \<Rightarrow>
          se_fd ein = c \<and> contents (se_buf ein) = rcvd h c \<and> length (rcvd h c) < length (req_bytes S) \<and>
          contents (se_buf eout) = [] \<and> sent h p = [] \<and> rcvd h p = [] \<and> sent h c = []
      | MSS_REQFWD \<Rightarrow>
          se_fd ein = c \<and> se_fd eout = p \<and> contents (se_buf ein) = [] \<and> rcvd h c = req_bytes S \<and>
          sent h p @ contents (se_buf eout) = req_bytes S \<and> rcvd h p = [] \<and> sent h c = []
      | MSS_RSPFWD \<Rightarrow>
          se_fd ein = p \<and> se_fd eout = c \<and> contents (se_buf ein) = rcvd h p \<and>
          length (rcvd h p) < length (rsp_bytes S) \<and> contents (se_buf eout) = [] \<and>
          rcvd h c = req_bytes S \<and> sent h p = req_bytes S \<and> sent h c = []
      | MSS_RSPWR \<Rightarrow>
          se_fd eout = c \<and> rcvd h c = req_bytes S \<and> sent h p = req_bytes S \<and>
          rcvd h p = rsp_bytes S \<and> sent h c @ contents (se_buf eout) = rsp_bytes S
      | _ \<Rightarrow> False)"

definition in_order :: "session \<Rightarrow> middfs_sockinfo \<Rightarrow> net \<Rightarrow> bool" where
  "in_order S info h \<longleftrightarrow>
     prefix (sent h (ss_peer S)) (rcvd h (ss_client S)) \<and>
     prefix (sent h (ss_client S)) (rcvd h (ss_peer S)) \<and>
     (sent h (ss_client S) \<noteq> [] \<longrightarrow> sent h (ss_peer S) = req_bytes S \<and> rcvd h (ss_peer S) = rsp_bytes S) \<and>
     (si_state info = MSS_CLOSED \<longrightarrow>
        rcvd h (ss_client S) = req_bytes S \<and> sent h (ss_peer S) = req_bytes S \<and>
        rcvd h (ss_peer S) = rsp_bytes S \<and> sent h (ss_client S) = rsp_bytes S)"

text \<open>What bounds the number of events: the bytes moved, and the turn of the socket.\<close>

definition work :: "session \<Rightarrow> middfs_sockinfo \<Rightarrow> net \<Rightarrow> nat" where
  "work S info h =
     length (rcvd h (ss_client S)) + length (sent h (ss_peer S)) +
     length (rcvd h (ss_peer S)) + length (sent h (ss_client S)) +
     (if si_state info = MSS_RSPFWD \<or> si_state info = MSS_RSPWR then 1 else 0)"

definition good_step :: "session \<Rightarrow> nat \<Rightarrow> handler_e \<Rightarrow> middfs_sockinfo \<Rightarrow> net \<Rightarrow> bool" where
  "good_step S n st info h \<longleftrightarrow>
     (st = HS_SUC \<and> sockinfo_live info \<and> stage_ok S info h \<and> n < work S info h) \<or>
     (st = HS_DEL \<and> in_order S info h \<and> n \<le> work S info h + 1)"

lemma stage_in_order: "stage_ok S info h \<Longrightarrow> in_order S info h"
  by (cases "si_state info") (auto simp: stage_ok_def in_order_def Let_def intro: prefixI [OF sym])

text \<open>The reasons to drop a session before its response is delivered.\<close>

definition trouble :: "session \<Rightarrow> clients \<Rightarrow> io \<Rightarrow> middfs_sockinfo \<Rightarrow> bool" where
  "trouble S cs io info \<longleftrightarrow>
     \<not> alloc_upto (ss_env S) (length (req_bytes S) + length (rsp_bytes S)) \<or>
     (si_state info = MSS_REQRD \<and> (\<exists>ip port. registered S cs ip port \<and> io_connect io ip port < 0)) \<or>
     (if polls_in (si_state info) then read_result (ss_env S) (io_read io) (se_buf (si_in info)) = []
      else io_write io (contents (se_buf (si_out info))) = None)"

lemma session_facts:
  assumes "session_ok S"
  shows "pkt_ok (canon_pkt (ss_req S))" "enc_pkt (canon_pkt (ss_req S)) = req_bytes S"
    "pkt_ok (canon_pkt (ss_rsp S))" "enc_pkt (canon_pkt (ss_rsp S)) = rsp_bytes S"
    "get_request (mpkt_un (canon_pkt (ss_req S))) = Some (canon_request (request_of S))"
    "request_ok (request_of S)"
    "mpkt_type (canon_pkt (ss_req S)) = MPKT_REQUEST" "mpkt_type (canon_pkt (ss_rsp S)) = MPKT_RESPONSE"
    "length (req_bytes S) < 2 ^ 63" "length (rsp_bytes S) < 2 ^ 63"
proof -
  have p: "pkt_ok (ss_req S)" "pkt_ok (ss_rsp S)" "mpkt_type (ss_req S) = MPKT_REQUEST"
    "mpkt_type (ss_rsp S) = MPKT_RESPONSE"
    using assms by (simp_all add: session_ok_def)
  show "pkt_ok (canon_pkt (ss_req S))" "enc_pkt (canon_pkt (ss_req S)) = req_bytes S"
    "pkt_ok (canon_pkt (ss_rsp S))" "enc_pkt (canon_pkt (ss_rsp S)) = rsp_bytes S"
    "mpkt_type (canon_pkt (ss_req S)) = MPKT_REQUEST" "mpkt_type (canon_pkt (ss_rsp S)) = MPKT_RESPONSE"
    using p by (simp_all add: canon_pkt_ok enc_canon_pkt)
  show "request_ok (request_of S)" using p(1,3) by (simp add: pkt_ok_def request_of_def)
  show "get_request (mpkt_un (canon_pkt (ss_req S))) = Some (canon_request (request_of S))"
    using p(3) by (simp add: canon_pkt_def request_of_def get_request_def)
  show "length (req_bytes S) < 2 ^ 63" "length (rsp_bytes S) < 2 ^ 63"
    using p(1,2) by (simp_all add: pkt_ok_def)
qed

subsection \<open>Forwarding the request\<close>

lemma forward_request:
  assumes S: "session_ok S" "forwarded S" and cs: "online S cs"
    and info: "sockinfo_live info" "si_state info = MSS_REQRD" "contents (se_buf (si_out info)) = []"
    and io: "\<And>ip port. registered S cs ip port \<Longrightarrow>
      io_connect io ip port < 0 \<or> io_connect io ip port = ss_peer S"
  obtains (gone) info' where "handle_pkt_rd_fin (ss_env S) io (canon_pkt (ss_req S)) (info, cs)
        = Some (HS_DEL, info', cs)" "si_state info' = MSS_REQFWD"
      "\<not> alloc_upto (ss_env S) (length (req_bytes S)) \<or>
        (\<exists>ip port. registered S cs ip port \<and> io_connect io ip port < 0)"
  | (sent) info' where "handle_pkt_rd_fin (ss_env S) io (canon_pkt (ss_req S)) (info, cs)
        = Some (HS_SUC, info', cs)" "si_state info' = MSS_REQFWD" "si_in info' = si_in info"
      "se_fd (si_out info') = ss_peer S" "contents (se_buf (si_out info')) = req_bytes S"
      "sockinfo_live info'"
proof -
  let ?E = "ss_env S" and ?q = "canon_pkt (ss_req S)"
  note facts = session_facts [OF S(1)]
  let ?r = "canon_request (request_of S)"
  have res: "mreq_rsrc ?r = mreq_rsrc (request_of S)" by (simp add: canon_request_def Let_def)
  obtain path owner where po: "mr_path (mreq_rsrc ?r) = Some path" "mr_owner (mreq_rsrc ?r) = Some owner"
    using facts(6) by (auto simp: res request_ok_def rsrc_ok_def cstr_ok_def Let_def split: option.splits)
  have path: "path \<noteq> []" using S(2) po(1) by (simp add: forwarded_def res)
  obtain i u where found: "client_find (Some owner) cs = Some (Some i)" "slot_get (cl_vec cs) i = Some u"
    "registered S cs (cl_IP u) (cl_port u)"
  proof (rule find_result [of cs owner])
    show "clients_ok cs" using cs by (simp add: online_def)
    fix r assume r: "client_find (Some owner) cs = Some r"
      "r = None \<Longrightarrow> Some owner \<notin> cl_username ` set (users cs)"
      "\<And>i. r = Some i \<Longrightarrow> i < length (users cs) \<and> cl_username (users cs ! i) = Some owner \<and>
         slot_get (cl_vec cs) i = Some (users cs ! i)"
    have "Some owner \<in> cl_username ` set (users cs)" using cs po(2) by (simp add: online_def res)
    with r obtain i where i: "r = Some i" "i < length (users cs)" "cl_username (users cs ! i) = Some owner"
      "slot_get (cl_vec cs) i = Some (users cs ! i)" by (cases r) auto
    moreover have "registered S cs (cl_IP (users cs ! i)) (cl_port (users cs ! i))"
      using i po(2) by (auto simp: registered_def res)
    ultimately show thesis using r(1) by (intro that [of i "users cs ! i"]) simp_all
  qed
  let ?fd = "io_connect io (cl_IP u) (cl_port u)"
  let ?info1 = "info\<lparr>si_state := MSS_REQFWD\<rparr>"
  let ?info2 = "?info1\<lparr>si_out := (si_out ?info1)\<lparr>se_fd := ?fd\<rparr>\<rparr>"
  have peer: "handle_req_rd_fin_peer ?E io ?q zero_packet (info, cs)
      = Some (if ?fd < 0 then (HS_DEL, ?q, ?info1) else (HS_SUC, ?q, ?info2))"
    using facts(5) po found by (simp add: handle_req_rd_fin_peer_def Let_def)
  have run: "handle_pkt_rd_fin ?E io ?q (info, cs) = handle_req_rd_fin ?E io ?q (info, cs)"
    using facts(7) by (simp add: handle_pkt_rd_fin_def)
  show thesis
  proof (cases "?fd < 0")
    case True
    with peer run facts(5) po path found(3) show thesis
      by (intro gone [of ?info1]) (auto simp: handle_req_rd_fin_def)
  next
    case False
    then have fd: "?fd = ss_peer S" using io [OF found(3)] by blast
    have ok2: "buffer_ok (se_buf (si_out ?info2))" "contents (se_buf (si_out ?info2)) = []"
      using info by (simp_all add: sockinfo_live_def bufs_ok_def)
    have live2: "bufs_ok ?info2" "live_fds ?info2"
      using info False by (auto simp: sockinfo_live_def bufs_ok_def live_fds_def)
    have len: "length (contents (se_buf (si_out ?info2))) + length (enc_pkt ?q) < 2 ^ 63"
      using ok2(2) facts(2,9) by simp
    show thesis
    proof (rule pkt.buffer_serialize_cases [OF facts(1) ok2(1) len, of ?E])
      fix buf assume "buffer_serialize ?E (serialize_pkt ?q) (se_buf (si_out ?info2)) = Some (-1, buf)"
        "\<not> alloc_upto ?E (length (contents (se_buf (si_out ?info2))) + length (enc_pkt ?q))"
      with False peer run facts(2,5) po path ok2(2) show thesis
        by (intro gone [of "set_out_buf buf ?info2"]) (simp_all add: handle_req_rd_fin_def set_out_buf_def)
    next
      fix buf assume b: "buffer_serialize ?E (serialize_pkt ?q) (se_buf (si_out ?info2))
          = Some (int (length (enc_pkt ?q)), buf)" "buffer_ok buf"
        "contents buf = contents (se_buf (si_out ?info2)) @ enc_pkt ?q"
      have "sockinfo_live (set_out_buf buf ?info2)"
        using live2 set_buf_ok [OF live2(1) b(2)] by (simp add: sockinfo_live_def)
      with False peer run facts(2,5) po path b ok2(2) fd show thesis
        by (intro sent [of "set_out_buf buf ?info2"]) (simp_all add: handle_req_rd_fin_def set_out_buf_def)
    qed
  qed
qed

text \<open>The response is queued for the client.\<close>

lemma forward_response:
  assumes S: "session_ok S" and info: "sockinfo_live info" "si_state info = MSS_RSPFWD"
    "contents (se_buf (si_out info)) = []"
  obtains (gone) info' where "handle_pkt_rd_fin (ss_env S) io (canon_pkt (ss_rsp S)) (info, cs)
        = Some (HS_DEL, info', cs)" "si_state info' = MSS_RSPWR"
      "\<not> alloc_upto (ss_env S) (length (rsp_bytes S))"
  | (sent) info' where "handle_pkt_rd_fin (ss_env S) io (canon_pkt (ss_rsp S)) (info, cs)
        = Some (HS_SUC, info', cs)" "si_state info' = MSS_RSPWR"
      "se_fd (si_out info') = se_fd (si_out info)" "contents (se_buf (si_out info')) = rsp_bytes S"
      "sockinfo_live info'"
proof -
  let ?E = "ss_env S" and ?r = "canon_pkt (ss_rsp S)" and ?info1 = "info\<lparr>si_state := MSS_RSPWR\<rparr>"
  note facts = session_facts [OF S]
  have ok: "buffer_ok (se_buf (si_out info))" using info(1) by (simp add: sockinfo_live_def bufs_ok_def)
  have live1: "bufs_ok ?info1" "live_fds ?info1"
    using info by (auto simp: sockinfo_live_def bufs_ok_def live_fds_def)
  have len: "length (contents (se_buf (si_out info))) + length (enc_pkt ?r) < 2 ^ 63"
    using info(3) facts(4,10) by simp
  show thesis
  proof (rule pkt.buffer_serialize_cases [OF facts(3) ok len, of ?E])
    fix buf assume "buffer_serialize ?E (serialize_pkt ?r) (se_buf (si_out info)) = Some (-1, buf)"
      "\<not> alloc_upto ?E (length (contents (se_buf (si_out info))) + length (enc_pkt ?r))"
    with info facts(4,8) show thesis
      by (intro gone [of "set_out_buf buf ?info1"])
        (simp_all add: handle_pkt_rd_fin_def handle_rsp_rd_fin_def set_out_buf_def)
  next
    fix buf assume b: "buffer_serialize ?E (serialize_pkt ?r) (se_buf (si_out info))
        = Some (int (length (enc_pkt ?r)), buf)" "buffer_ok buf"
      "contents buf = contents (se_buf (si_out info)) @ enc_pkt ?r"
    have "sockinfo_live (set_out_buf buf ?info1)"
      using live1 set_buf_ok [OF live1(1) b(2)] by (simp add: sockinfo_live_def)
    with b info facts(4,8) show thesis
      by (intro sent [of "set_out_buf buf ?info1"])
        (simp_all add: handle_pkt_rd_fin_def handle_rsp_rd_fin_def set_out_buf_def)
  qed
qed

section \<open>One event\<close>

text \<open>
  Each event of an honest session is defined (nothing asserts or aborts), and either keeps the
  invariant with one more unit of work done, or closes the socket with the bytes in order.
\<close>

lemma awaited_event:
  assumes "e AND awaited info \<noteq> 0"
  shows "relay_event S cs e io info =
    (case si_state info of
       MSS_REQRD \<Rightarrow> handle_pkt_rd (ss_env S) (server_hi (ss_env S)) io (info\<lparr>si_revents := e\<rparr>, cs)
     | MSS_RSPFWD \<Rightarrow> handle_pkt_rd (ss_env S) (server_hi (ss_env S)) io (info\<lparr>si_revents := e\<rparr>, cs)
     | MSS_RSPWR \<Rightarrow> handle_pkt_wr (ss_env S) (server_hi (ss_env S)) io (info\<lparr>si_revents := e\<rparr>, cs)
     | MSS_REQFWD \<Rightarrow> handle_pkt_wr (ss_env S) (server_hi (ss_env S)) io (info\<lparr>si_revents := e\<rparr>, cs)
     | _ \<Rightarrow> None)"
  using assms by (auto simp: relay_event_def handle_pkt_event_def)

definition event_good :: "session \<Rightarrow> clients \<Rightarrow> int \<Rightarrow> io \<Rightarrow> middfs_sockinfo \<Rightarrow> net \<Rightarrow> nat \<Rightarrow> bool" where
  "event_good S cs e io info h n \<longleftrightarrow>
     (\<exists>st info'. relay_event S cs e io info = Some (st, info', cs) \<and>
        good_step S n st info' (observe (ss_env S) io info h) \<and>
        (st = HS_DEL \<longrightarrow> si_state info' = MSS_CLOSED \<or> trouble S cs io info))"

lemma event_goodI:
  "relay_event S cs e io info = Some (HS_SUC, info', cs) \<Longrightarrow>
   sockinfo_live info' \<Longrightarrow> stage_ok S info' (observe (ss_env S) io info h) \<Longrightarrow>
   n < work S info' (observe (ss_env S) io info h) \<Longrightarrow> event_good S cs e io info h n"
  "relay_event S cs e io info = Some (HS_DEL, info', cs) \<Longrightarrow>
   in_order S info' (observe (ss_env S) io info h) \<Longrightarrow>
   n \<le> work S info' (observe (ss_env S) io info h) + 1 \<Longrightarrow>
   si_state info' = MSS_CLOSED \<or> trouble S cs io info \<Longrightarrow> event_good S cs e io info h n"
  by (auto simp: event_good_def good_step_def)

lemma trouble_alloc:
  "\<not> alloc_upto (ss_env S) (length (req_bytes S)) \<Longrightarrow> trouble S cs io info"
  "\<not> alloc_upto (ss_env S) (length (rsp_bytes S)) \<Longrightarrow> trouble S cs io info"
  using alloc_upto_mono [of "ss_env S" "length (req_bytes S) + length (rsp_bytes S)"]
  by (auto simp: trouble_def)

lemma live_revents: "sockinfo_live info \<Longrightarrow> sockinfo_live (info\<lparr>si_revents := e\<rparr>)"
  by simp

lemma reqrd_event:
  assumes S: "session_ok S" "forwarded S" and cs: "online S cs" and live: "sockinfo_live info" and stage: "stage_ok S info h"
    and e: "e AND awaited info \<noteq> 0" and net: "honest S cs io (observe (ss_env S) io info h)"
    and st: "si_state info = MSS_REQRD" and n: "n \<le> work S info h"
  shows "event_good S cs e io info h n"
proof -
  let ?E = "ss_env S" and ?i = "info\<lparr>si_revents := e\<rparr>" and ?c = "ss_client S" and ?p = "ss_peer S"
  let ?bs = "read_result ?E (io_read io) (se_buf (si_in info))"
  define h' where "h' = observe ?E io info h"
  have pq: "?c \<noteq> ?p" "pkt_ok (ss_req S)" "alloc_for ?E (ss_req S)" using S by (simp_all add: session_ok_def)
  have s: "se_fd (si_in info) = ?c" "contents (se_buf (si_in info)) = rcvd h ?c"
    "length (rcvd h ?c) < length (req_bytes S)" "contents (se_buf (si_out info)) = []"
    "sent h ?p = []" "rcvd h ?p = []" "sent h ?c = []"
    using stage st by (simp_all add: stage_ok_def Let_def)
  have h': "rcvd h' ?c = rcvd h ?c @ ?bs" "rcvd h' ?p = []" "sent h' = sent h"
    using st s(1,6) pq(1) by (simp_all add: h'_def observe_def polls_in_def Let_def)
  have run: "relay_event S cs e io info
      = handle_pkt_rd ?E (server_hi ?E) io (?i, cs)"
    using awaited_event [OF e] st by simp
  have b: "buffer_ok (se_buf (si_in ?i))" "bufs_ok ?i" using live by (simp_all add: sockinfo_live_def bufs_ok_def)
  have ev: "si_revents ?i AND POLLIN \<noteq> 0" using e st by (simp add: awaited_def polls_in_def)
  have pre: "prefix (contents (se_buf (si_in ?i)) @ read_result ?E (io_read io) (se_buf (si_in ?i))) (req_bytes S)"
    using net h'(1) s(2) by (simp add: honest_def h'_def)
  have rd: "read_ok (io_read io)" using net by (simp add: honest_def)
  have short: "length (contents (se_buf (si_in ?i))) < length (req_bytes S)" using s(2,3) by simp
  have closed: "in_order S j h'" if "si_state j \<noteq> MSS_CLOSED" for j
    using h' s that by (simp add: in_order_def)
  have w: "n \<le> work S j h' + 1" for j using n h' s st by (simp add: work_def)
  show ?thesis
  proof (rule read_packet [OF pq(2,3) b(1) rd ev short pre, of "server_hi ?E" "cs"])
    fix buf assume "handle_pkt_rd ?E (server_hi ?E) io (?i, cs) = Some (HS_DEL, set_in_buf buf ?i, cs)"
      "read_result ?E (io_read io) (se_buf (si_in ?i)) = []"
    then show ?thesis
      using run closed [of "set_in_buf buf ?i"] w [of "set_in_buf buf ?i"] st
      by (intro event_goodI(2)) (simp_all add: set_in_buf_def h'_def trouble_def polls_in_def)
  next
    fix buf assume r: "handle_pkt_rd ?E (server_hi ?E) io (?i, cs) = Some (HS_SUC, set_in_buf buf ?i, cs)"
      "buffer_ok buf" "read_result ?E (io_read io) (se_buf (si_in ?i)) \<noteq> []"
      "contents buf = contents (se_buf (si_in ?i)) @ read_result ?E (io_read io) (se_buf (si_in ?i))"
      "length (contents buf) < length (req_bytes S)"
    have live': "sockinfo_live (set_in_buf buf ?i)"
      using live set_buf_ok [OF b(2) r(2)] by (simp add: sockinfo_live_def)
    have "stage_ok S (set_in_buf buf ?i) h'"
      using r(4,5) s h' st by (simp add: stage_ok_def Let_def set_in_buf_def)
    moreover have "n < work S (set_in_buf buf ?i) h'"
      using n r(3) s h' st by (cases ?bs) (simp_all add: work_def set_in_buf_def)
    ultimately show ?thesis
      using run r(1) n live' by (intro event_goodI(1)) (simp_all add: h'_def)
  next
    fix buf assume r: "handle_pkt_rd ?E (server_hi ?E) io (?i, cs)
        = rd_fin (server_hi ?E) io (canon_pkt (ss_req S)) (set_in_buf buf ?i, cs)"
      "buffer_ok buf" "contents buf = []" "read_result ?E (io_read io) (se_buf (si_in ?i)) \<noteq> []"
      "contents (se_buf (si_in ?i)) @ read_result ?E (io_read io) (se_buf (si_in ?i)) = req_bytes S"
    let ?j = "set_in_buf buf ?i"
    have j: "sockinfo_live ?j" "si_state ?j = MSS_REQRD" "contents (se_buf (si_out ?j)) = []"
      "se_fd (si_in ?j) = ?c" "contents (se_buf (si_in ?j)) = []"
      using live set_buf_ok [OF b(2) r(2)] st s r(3)
      by (simp_all add: sockinfo_live_def) (simp_all add: set_in_buf_def)
    have full: "rcvd h' ?c = req_bytes S" using r(5) h'(1) s(2) by simp
    have grow: "n < work S k h'" for k
      using n r(4) h' s st by (cases ?bs) (simp_all add: work_def)
    have run': "relay_event S cs e io info
        = handle_pkt_rd_fin ?E io (canon_pkt (ss_req S)) (?j, cs)"
      using run r(1) by (simp add: server_hi_def)
    show ?thesis
    proof (rule forward_request [OF S cs j(1-3), of io])
      show "io_connect io ip port < 0 \<or> io_connect io ip port = ss_peer S" if "registered S cs ip port" for ip port
        using net that by (simp add: honest_def)
    next
      fix k assume "handle_pkt_rd_fin ?E io (canon_pkt (ss_req S)) (?j, cs) = Some (HS_DEL, k, cs)"
        "si_state k = MSS_REQFWD"
        "\<not> alloc_upto ?E (length (req_bytes S)) \<or>
          (\<exists>ip port. registered S cs ip port \<and> io_connect io ip port < 0)"
      moreover from this(3) have "trouble S cs io info"
        using st by (elim disjE trouble_alloc(1)) (simp add: trouble_def)
      ultimately show ?thesis
        using run' closed [of k] w [of k] by (intro event_goodI(2)) (simp_all add: h'_def)
    next
      fix k assume k: "handle_pkt_rd_fin ?E io (canon_pkt (ss_req S)) (?j, cs) = Some (HS_SUC, k, cs)"
        "si_state k = MSS_REQFWD" "si_in k = si_in ?j" "se_fd (si_out k) = ?p"
        "contents (se_buf (si_out k)) = req_bytes S" "sockinfo_live k"
      have "stage_ok S k h'" using k j full h' s by (simp add: stage_ok_def Let_def)
      with run' k n grow [of k] show ?thesis
        by (intro event_goodI(1)) (simp_all add: h'_def)
    qed
  qed
qed

lemma rspfwd_event:
  assumes S: "session_ok S" and live: "sockinfo_live info" and stage: "stage_ok S info h"
    and e: "e AND awaited info \<noteq> 0" and net: "honest S cs io (observe (ss_env S) io info h)"
    and st: "si_state info = MSS_RSPFWD" and n: "n \<le> work S info h"
  shows "event_good S cs e io info h n"
proof -
  let ?E = "ss_env S" and ?i = "info\<lparr>si_revents := e\<rparr>" and ?c = "ss_client S" and ?p = "ss_peer S"
  let ?bs = "read_result ?E (io_read io) (se_buf (si_in info))"
  define h' where "h' = observe ?E io info h"
  have pr: "?c \<noteq> ?p" "pkt_ok (ss_rsp S)" "alloc_for ?E (ss_rsp S)" using S by (simp_all add: session_ok_def)
  have s: "se_fd (si_in info) = ?p" "se_fd (si_out info) = ?c" "contents (se_buf (si_in info)) = rcvd h ?p"
    "length (rcvd h ?p) < length (rsp_bytes S)" "contents (se_buf (si_out info)) = []"
    "rcvd h ?c = req_bytes S" "sent h ?p = req_bytes S" "sent h ?c = []"
    using stage st by (simp_all add: stage_ok_def Let_def)
  have h': "rcvd h' ?p = rcvd h ?p @ ?bs" "rcvd h' ?c = req_bytes S" "sent h' = sent h"
    using st s(1,6) pr(1) by (simp_all add: h'_def observe_def polls_in_def Let_def)
  have run: "relay_event S cs e io info
      = handle_pkt_rd ?E (server_hi ?E) io (?i, cs)"
    using awaited_event [OF e] st by simp
  have b: "buffer_ok (se_buf (si_in ?i))" "bufs_ok ?i" using live by (simp_all add: sockinfo_live_def bufs_ok_def)
  have ev: "si_revents ?i AND POLLIN \<noteq> 0" using e st by (simp add: awaited_def polls_in_def)
  have pre: "prefix (contents (se_buf (si_in ?i)) @ read_result ?E (io_read io) (se_buf (si_in ?i))) (rsp_bytes S)"
    using net h'(1) s(3) by (simp add: honest_def h'_def)
  have rd: "read_ok (io_read io)" using net by (simp add: honest_def)
  have short: "length (contents (se_buf (si_in ?i))) < length (rsp_bytes S)" using s(3,4) by simp
  have closed: "in_order S j h'" if "si_state j \<noteq> MSS_CLOSED" for j
    using h' s that by (simp add: in_order_def)
  have w: "n \<le> work S j h' + 1" for j using n h' s st by (simp add: work_def)
  show ?thesis
  proof (rule read_packet [OF pr(2,3) b(1) rd ev short pre, of "server_hi ?E" "cs"])
    fix buf assume "handle_pkt_rd ?E (server_hi ?E) io (?i, cs) = Some (HS_DEL, set_in_buf buf ?i, cs)"
      "read_result ?E (io_read io) (se_buf (si_in ?i)) = []"
    then show ?thesis
      using run closed [of "set_in_buf buf ?i"] w [of "set_in_buf buf ?i"] st
      by (intro event_goodI(2)) (simp_all add: set_in_buf_def h'_def trouble_def polls_in_def)
  next
    fix buf assume r: "handle_pkt_rd ?E (server_hi ?E) io (?i, cs) = Some (HS_SUC, set_in_buf buf ?i, cs)"
      "buffer_ok buf" "read_result ?E (io_read io) (se_buf (si_in ?i)) \<noteq> []"
      "contents buf = contents (se_buf (si_in ?i)) @ read_result ?E (io_read io) (se_buf (si_in ?i))"
      "length (contents buf) < length (rsp_bytes S)"
    have live': "sockinfo_live (set_in_buf buf ?i)"
      using live set_buf_ok [OF b(2) r(2)] by (simp add: sockinfo_live_def)
    have "stage_ok S (set_in_buf buf ?i) h'"
      using r(4,5) s h' st by (simp add: stage_ok_def Let_def set_in_buf_def)
    moreover have "n < work S (set_in_buf buf ?i) h'"
      using n r(3) s h' st by (cases ?bs) (simp_all add: work_def set_in_buf_def)
    ultimately show ?thesis
      using run r(1) n live' by (intro event_goodI(1)) (simp_all add: h'_def)
  next
    fix buf assume r: "handle_pkt_rd ?E (server_hi ?E) io (?i, cs)
        = rd_fin (server_hi ?E) io (canon_pkt (ss_rsp S)) (set_in_buf buf ?i, cs)"
      "buffer_ok buf" "contents buf = []" "read_result ?E (io_read io) (se_buf (si_in ?i)) \<noteq> []"
      "contents (se_buf (si_in ?i)) @ read_result ?E (io_read io) (se_buf (si_in ?i)) = rsp_bytes S"
    let ?j = "set_in_buf buf ?i"
    have j: "sockinfo_live ?j" "si_state ?j = MSS_RSPFWD" "contents (se_buf (si_out ?j)) = []"
      "se_fd (si_out ?j) = ?c"
      using live set_buf_ok [OF b(2) r(2)] st s r(3)
      by (simp_all add: sockinfo_live_def) (simp_all add: set_in_buf_def)
    have full: "rcvd h' ?p = rsp_bytes S" using r(5) h'(1) s(3) by simp
    have run': "relay_event S cs e io info
        = handle_pkt_rd_fin ?E io (canon_pkt (ss_rsp S)) (?j, cs)"
      using run r(1) by (simp add: server_hi_def)
    show ?thesis
    proof (rule forward_response [OF S j(1-3), of io "cs"])
      fix k assume "handle_pkt_rd_fin ?E io (canon_pkt (ss_rsp S)) (?j, cs) = Some (HS_DEL, k, cs)"
        "si_state k = MSS_RSPWR" "\<not> alloc_upto ?E (length (rsp_bytes S))"
      with run' closed [of k] w [of k] trouble_alloc(2) show ?thesis
        by (intro event_goodI(2)) (simp_all add: h'_def)
    next
      fix k assume k: "handle_pkt_rd_fin ?E io (canon_pkt (ss_rsp S)) (?j, cs) = Some (HS_SUC, k, cs)"
        "si_state k = MSS_RSPWR" "se_fd (si_out k) = se_fd (si_out ?j)"
        "contents (se_buf (si_out k)) = rsp_bytes S" "sockinfo_live k"
      have "stage_ok S k h'" using k j full h' s by (simp add: stage_ok_def Let_def)
      moreover have "n < work S k h'"
        using n r(4) h' s st k(2) by (cases ?bs) (simp_all add: work_def)
      ultimately show ?thesis
        using run' k n by (intro event_goodI(1)) (simp_all add: h'_def)
    qed
  qed
qed

text \<open>The two states that write.\<close>

lemma write_event:
  assumes S: "session_ok S" and live: "sockinfo_live info" and stage: "stage_ok S info h"
    and e: "e AND awaited info \<noteq> 0" and net: "honest S cs io (observe (ss_env S) io info h)"
    and st: "si_state info = MSS_REQFWD \<or> si_state info = MSS_RSPWR" and n: "n \<le> work S info h"
  shows "event_good S cs e io info h n"
proof -
  let ?E = "ss_env S" and ?i = "info\<lparr>si_revents := e\<rparr>" and ?c = "ss_client S" and ?p = "ss_peer S"
  let ?out = "contents (se_buf (si_out info))" and ?fd = "se_fd (si_out info)"
  define h' where "h' = observe ?E io info h"
  have ne: "?c \<noteq> ?p" "0 \<le> ?c" "0 \<le> ?p" using S by (simp_all add: session_ok_def)
  have out: "\<not> polls_in (si_state info)" using st by (auto simp: polls_in_def)
  have run: "relay_event S cs e io info
      = handle_pkt_wr ?E (server_hi ?E) io (?i, cs)"
    using awaited_event [OF e] st by auto
  have b: "buffer_ok (se_buf (si_out ?i))" "bufs_ok ?i" using live by (simp_all add: sockinfo_live_def bufs_ok_def)
  have ev: "si_revents ?i AND POLLOUT \<noteq> 0" using e out by (simp add: awaited_def)
  have wr: "write_ok (io_write io)" "\<And>bs. io_write io bs = Some 0 \<Longrightarrow> bs = []"
    using net by (simp_all add: honest_def)
  have ord: "in_order S info h" by (rule stage_in_order [OF stage])
  show ?thesis
  proof (rule write_packet [OF b(1) wr ev, where E = ?E and hi = "server_hi ?E" and g = "cs"])
    assume r: "handle_pkt_wr ?E (server_hi ?E) io (?i, cs) = Some (HS_DEL, ?i, cs)"
      "io_write io (contents (se_buf (si_out ?i))) = None"
    then have "h' = h" using out by (simp add: h'_def observe_def Let_def)
    moreover have "in_order S ?i h" "n \<le> work S ?i h + 1"
      using ord n by (simp_all add: in_order_def work_def)
    ultimately show ?thesis
      using run r out by (intro event_goodI(2)) (simp_all add: h'_def trouble_def)
  next
    fix buf k assume r: "handle_pkt_wr ?E (server_hi ?E) io (?i, cs)
        = Some (HS_SUC, set_out_buf buf ?i, cs)" "buffer_ok buf"
      "io_write io (contents (se_buf (si_out ?i))) = Some k" "0 < unat k"
      "unat k \<le> length (contents (se_buf (si_out ?i)))"
      "contents buf = drop (unat k) (contents (se_buf (si_out ?i)))"
    then have h': "h' = h\<lparr>sent := (sent h)(?fd := sent h ?fd @ take (unat k) ?out)\<rparr>"
      using out by (simp add: h'_def observe_def Let_def)
    have "sockinfo_live (set_out_buf buf ?i)"
      using live set_buf_ok [OF b(2) r(2)] by (simp add: sockinfo_live_def)
    moreover have "stage_ok S (set_out_buf buf ?i) h'"
      using stage st h' r(6) ne(1) by (auto simp: stage_ok_def Let_def set_out_buf_def)
    moreover have "n < work S (set_out_buf buf ?i) h'"
      using n stage st h' r(4,5) ne(1) by (auto simp: stage_ok_def Let_def set_out_buf_def work_def)
    ultimately show ?thesis
      using run r(1) n by (intro event_goodI(1)) (simp_all add: h'_def)
  next
    fix buf assume r: "handle_pkt_wr ?E (server_hi ?E) io (?i, cs)
        = wr_fin (server_hi ?E) io (set_out_buf buf ?i, cs)" "buffer_ok buf"
      "contents (se_buf (si_out ?i)) = []" "contents buf = []" "io_write io [] = Some 0"
    then have same: "h' = h" using out by (simp add: h'_def observe_def Let_def)
    let ?j = "set_out_buf buf ?i"
    have j: "si_state ?j = si_state info" "si_in ?j = si_in info" "se_fd (si_out ?j) = ?fd"
      "bufs_ok ?j" "contents (se_buf (si_out ?j)) = []" "si_type ?j = si_type info"
      using set_buf_ok [OF b(2) r(2)] r(4) by (simp_all add: set_out_buf_def)
    have run': "relay_event S cs e io info = handle_pkt_wr_fin (?j, cs)"
      using run r(1) by (simp add: server_hi_def)
    have ty: "si_type info = MFD_PKT_IN" using live st by (auto simp: sockinfo_live_def live_fds_def)
    from st show ?thesis
    proof
      assume fwd: "si_state info = MSS_REQFWD"
      let ?k = "?j\<lparr>si_state := MSS_RSPFWD, si_out := (si_out ?j)\<lparr>se_fd := se_fd (si_in ?j)\<rparr>,
        si_in := (si_in ?j)\<lparr>se_fd := ?fd\<rparr>\<rparr>"
      have "handle_pkt_wr_fin (?j, cs) = Some (HS_SUC, ?k, cs)"
        using fwd j(1,3) by (simp add: handle_pkt_wr_fin_def handle_req_wr_fin_def Let_def)
      moreover have "0 < length (rsp_bytes S)" by (simp add: enc_pkt_def)
      then have "stage_ok S ?k h" using stage fwd r(3) j by (simp add: stage_ok_def Let_def)
      moreover have "sockinfo_live ?k"
        using stage fwd ne j ty by (simp add: sockinfo_live_def bufs_ok_def live_fds_def stage_ok_def Let_def)
      moreover have "n < work S ?k h" using n fwd by (simp add: work_def)
      ultimately show ?thesis
        using run' n same by (intro event_goodI(1)) (simp_all add: h'_def)
    next
      assume rsp: "si_state info = MSS_RSPWR"
      let ?k = "?j\<lparr>si_state := MSS_CLOSED\<rparr>"
      have "handle_pkt_wr_fin (?j, cs) = Some (HS_DEL, ?k, cs)"
        using rsp j(1) by (simp add: handle_pkt_wr_fin_def handle_rsp_wr_fin_def Let_def)
      moreover have "in_order S ?k h" using stage rsp r(3) by (simp add: stage_ok_def in_order_def Let_def)
      moreover have "n \<le> work S ?k h + 1" using n by (simp add: work_def split: if_splits)
      ultimately show ?thesis
        using run' same by (intro event_goodI(2) disjI1) (simp_all add: h'_def, simp add: set_out_buf_def)
    qed
  qed
qed

lemma session_event:
  assumes "session_ok S" "forwarded S" "sockinfo_live info" "stage_ok S info h"
    "e AND awaited info \<noteq> 0" "honest S cs io (observe (ss_env S) io info h)" "n \<le> work S info h"
    "si_state info = MSS_REQRD \<longrightarrow> online S cs"
  shows "event_good S cs e io info h n"
proof -
  have "si_state info \<in> {MSS_REQRD, MSS_RSPFWD, MSS_REQFWD, MSS_RSPWR}"
    using assms(4) by (cases "si_state info") (simp_all add: stage_ok_def)
  then show ?thesis
    using reqrd_event [OF assms(1,2) _ assms(3-6) _ assms(7)] assms(8) rspfwd_event [OF assms(1,3-6) _ assms(7)]
      write_event [OF assms(1,3-6) _ assms(7)] by blast
qed

section \<open>All events of a session\<close>

lemma set_mark_session [simp]:
  "si_state (set_mark r info) = si_state info" "se_fd (si_in (set_mark r info)) = se_fd (si_in info)"
  "se_fd (si_out (set_mark r info)) = se_fd (si_out info)"
  "se_buf (si_in (set_mark r info)) = se_buf (si_in info)"
  "se_buf (si_out (set_mark r info)) = se_buf (si_out info)"
  by (simp_all add: set_mark_def)

lemma set_mark_stage [simp]:
  "stage_ok S ((set_mark r info)\<lparr>si_revents := e\<rparr>) h = stage_ok S info h"
  "work S ((set_mark r info)\<lparr>si_revents := e\<rparr>) h = work S info h"
  "awaited ((set_mark r info)\<lparr>si_revents := e\<rparr>) = awaited info"
  by (cases "si_state info"; simp add: stage_ok_def Let_def work_def awaited_def)+

lemma relay_status:
  assumes "session_ok S" "forwarded S" "relay S st n info h"
  shows "st = HS_SUC \<and> sockinfo_live info \<and> stage_ok S info h \<and> n \<le> work S info h \<or>
    st = HS_DEL \<and> in_order S info h \<and> n \<le> work S info h + 2"
  using assms(3)
proof (induction rule: relay.induct)
  case (accepted junk info)
  have fd: "0 \<le> ss_client S" using assms(1) by (simp add: session_ok_def)
  have "0 < length (req_bytes S)" by (simp add: enc_pkt_def)
  moreover obtain info' where "middfs_sockinfo_init MFD_PKT_IN (ss_client S) (-1) junk = Some info'"
    "sockinfo_live info'" "se_fd (si_in info') = ss_client S" "contents (se_buf (si_in info')) = []"
    "contents (se_buf (si_out info')) = []" "si_state info' = MSS_REQRD"
    using sockinfo_init_live [OF fd, of MFD_PKT_IN "-1" junk] by auto
  ultimately show ?case using accepted by (simp add: stage_ok_def Let_def no_bytes_def)
next
  case (marks n info h)
  then show ?case by simp
next
  case (event n info h e cs io st info' cs' h')
  then have "sockinfo_live info" "stage_ok S info h" "n \<le> work S info h" by auto
  then have "event_good S cs e io info h n"
    using event(2,3,5,6) by (intro session_event [OF assms(1,2)]) simp_all
  then have "good_step S n st info' h'" using event(4,5) by (auto simp: event_good_def)
  then show ?case by (auto simp: good_step_def)
qed

section \<open>A session can always be finished\<close>

text \<open>A network that moves one byte at a time and connects at once.\<close>

definition byte_io :: "session \<Rightarrow> byte \<Rightarrow> io \<Rightarrow> io" where
  "byte_io S b io =
     io\<lparr>io_read := \<lambda>n. if n = 0 then Some [] else Some [b],
        io_write := \<lambda>bs. Some (if bs = [] then 0 else 1),
        io_connect := \<lambda>_ _. ss_peer S\<rparr>"

lemma byte_io_ok:
  "read_ok (io_read (byte_io S b io))" "write_ok (io_write (byte_io S b io))"
  "io_write (byte_io S b io) bs = Some 0 \<Longrightarrow> bs = []"
  "io_connect (byte_io S b io) = (\<lambda>_ _. ss_peer S)"
  by (auto simp: byte_io_def read_ok_def write_ok_def Suc_le_eq unat_gt_0 split: if_splits)

lemma byte_read:
  assumes "buffer_ok buf" "alloc_upto E (max 1 (2 * length (contents buf)))"
    "2 * length (contents buf) < 2 ^ 63"
  shows "read_result E (io_read (byte_io S b io)) buf = [b]"
proof (rule increase_cases [OF assms(1), of E])
  fix buf' assume "buffer_increase E buf = Some (0, buf')" "0 < unat (buffer_rem buf')"
  then show ?thesis by (auto simp: read_result_def byte_io_def unat_gt_0)
qed (use assms in auto)

lemma prefix_next:
  "prefix xs ys \<Longrightarrow> length xs < length ys \<Longrightarrow> prefix (xs @ [ys ! length xs]) ys"
  by (auto simp: prefix_def nth_append neq_Nil_conv)

lemma smooth_event:
  assumes S: "session_ok S" and al: "alloc_upto (ss_env S) (2 * (length (req_bytes S) + length (rsp_bytes S)))"
    and live: "sockinfo_live info" and stage: "stage_ok S info h"
    and pre: "prefix (rcvd h (ss_client S)) (req_bytes S)" "prefix (rcvd h (ss_peer S)) (rsp_bytes S)"
  shows "\<exists>io. honest S cs io (observe (ss_env S) io info h) \<and> \<not> trouble S cs io info"
proof -
  let ?E = "ss_env S" and ?c = "ss_client S" and ?p = "ss_peer S"
  have ne: "?c \<noteq> ?p" "0 \<le> ?p" using S by (simp_all add: session_ok_def)
  have small: "length (req_bytes S) < 2 ^ 59" "length (rsp_bytes S) < 2 ^ 59"
    using S by (simp_all add: session_ok_def pkt_ok_def)
  have al1: "alloc_upto ?E (length (req_bytes S) + length (rsp_bytes S))"
    using al by (rule alloc_upto_mono) simp
  have b: "buffer_ok (se_buf (si_in info))" using live by (simp add: sockinfo_live_def bufs_ok_def)
  have rd: "read_result ?E (io_read (byte_io S x quiet)) (se_buf (si_in info)) = [x]"
    if "length (contents (se_buf (si_in info))) < length (req_bytes S) + length (rsp_bytes S)" for x quiet
    using that small by (intro byte_read [OF b] alloc_upto_mono [OF al]) simp_all
  have trouble: "\<not> trouble S cs (byte_io S x quiet) info"
    if "polls_in (si_state info) \<Longrightarrow> read_result ?E (io_read (byte_io S x quiet)) (se_buf (si_in info)) \<noteq> []"
    for x quiet
    using that al1 ne(2) by (auto simp: trouble_def byte_io_def)
  have honest: "honest S cs (byte_io S x quiet) h'"
    if "prefix (rcvd h' ?c) (req_bytes S)" "prefix (rcvd h' ?p) (rsp_bytes S)" for x quiet h'
    using that by (auto simp: honest_def byte_io_ok(1,2,4) dest: byte_io_ok(3))
  fix quiet :: io
  show ?thesis
  proof (cases "polls_in (si_state info)")
    case False
    then have "rcvd (observe ?E (byte_io S 0 quiet) info h) = rcvd h" by (simp add: observe_def Let_def)
    with False pre show ?thesis
      by (intro exI [of _ "byte_io S 0 quiet"] conjI honest trouble) simp_all
  next
    case True
    with stage have "si_state info = MSS_REQRD \<or> si_state info = MSS_RSPFWD"
      by (cases "si_state info") (simp_all add: stage_ok_def polls_in_def)
    then show ?thesis
    proof
      assume st: "si_state info = MSS_REQRD"
      let ?x = "req_bytes S ! length (rcvd h ?c)"
      have s: "se_fd (si_in info) = ?c" "contents (se_buf (si_in info)) = rcvd h ?c"
        "length (rcvd h ?c) < length (req_bytes S)" "rcvd h ?p = []"
        using stage st by (simp_all add: stage_ok_def Let_def)
      have r: "read_result ?E (io_read (byte_io S ?x quiet)) (se_buf (si_in info)) = [?x]"
        using s(2,3) by (intro rd) simp
      with True s ne prefix_next [OF pre(1) s(3)] show ?thesis
        by (intro exI [of _ "byte_io S ?x quiet"] conjI honest trouble) (simp_all add: observe_def Let_def)
    next
      assume st: "si_state info = MSS_RSPFWD"
      let ?x = "rsp_bytes S ! length (rcvd h ?p)"
      have s: "se_fd (si_in info) = ?p" "contents (se_buf (si_in info)) = rcvd h ?p"
        "length (rcvd h ?p) < length (rsp_bytes S)"
        using stage st by (simp_all add: stage_ok_def Let_def)
      have r: "read_result ?E (io_read (byte_io S ?x quiet)) (se_buf (si_in info)) = [?x]"
        using s(2,3) by (intro rd) simp
      with True s ne pre(1) prefix_next [OF pre(2) s(3)] show ?thesis
        by (intro exI [of _ "byte_io S ?x quiet"] conjI honest trouble) (simp_all add: observe_def Let_def)
    qed
  qed
qed

lemma relay_prefixes:
  "relay S st n info h \<Longrightarrow>
   prefix (rcvd h (ss_client S)) (req_bytes S) \<and> prefix (rcvd h (ss_peer S)) (rsp_bytes S)"
  by (induction rule: relay.induct) (auto simp: no_bytes_def honest_def)

lemma work_bound:
  assumes "in_order S info h" "prefix (rcvd h (ss_client S)) (req_bytes S)"
    "prefix (rcvd h (ss_peer S)) (rsp_bytes S)"
  shows "work S info h \<le> 2 * length (req_bytes S) + 2 * length (rsp_bytes S) + 1"
proof -
  have "length (sent h (ss_peer S)) \<le> length (rcvd h (ss_client S))"
    "length (sent h (ss_client S)) \<le> length (rcvd h (ss_peer S))"
    using assms(1) by (auto simp: in_order_def dest: prefix_length_le)
  moreover note prefix_length_le [OF assms(2)] prefix_length_le [OF assms(3)]
  ultimately show ?thesis by (simp add: work_def)
qed

lemma relay_completes:
  assumes S: "session_ok S" "forwarded S" and cs: "online S cs"
    and al: "alloc_upto (ss_env S) (2 * (length (req_bytes S) + length (rsp_bytes S)))"
    and run: "relay S HS_SUC n info h"
  shows "\<exists>m info' h'. relay S HS_DEL m info' h' \<and> si_state info' = MSS_CLOSED"
  using run
proof (induction "2 * length (req_bytes S) + 2 * length (rsp_bytes S) + 2 - n" arbitrary: n info h
    rule: less_induct)
  case less
  from relay_status [OF S less.prems] have st: "sockinfo_live info" "stage_ok S info h" "n \<le> work S info h"
    by auto
  note pre = relay_prefixes [OF less.prems]
  have n: "n < 2 * length (req_bytes S) + 2 * length (rsp_bytes S) + 2"
    using work_bound [OF stage_in_order [OF st(2)]] pre st(3) by auto
  obtain io where io: "honest S cs io (observe (ss_env S) io info h)" "\<not> trouble S cs io info"
    using smooth_event [OF S(1) al st(1,2)] pre by blast
  let ?e = "awaited info"
  have e: "?e AND awaited info \<noteq> 0" by (simp add: awaited_def POLLIN_def POLLOUT_def)
  from session_event [OF S st(1,2) e io(1) st(3)] cs obtain st' info' where
    ev: "relay_event S cs ?e io info = Some (st', info', cs)"
    and good: "good_step S n st' info' (observe (ss_env S) io info h)"
    and del: "st' = HS_DEL \<longrightarrow> si_state info' = MSS_CLOSED \<or> trouble S cs io info"
    by (auto simp: event_good_def)
  have next_step: "relay S st' (Suc n) info' (observe (ss_env S) io info h)"
    by (rule relay.event [OF less.prems e _ ev refl io(1)]) (simp add: cs)
  from good have "st' = HS_SUC \<or> st' = HS_DEL" by (auto simp: good_step_def)
  then show ?case
  proof
    assume "st' = HS_SUC"
    with next_step n show ?thesis by (intro less.hyps) auto
  next
    assume "st' = HS_DEL"
    with next_step del io(2) show ?thesis by blast
  qed
qed

text \<open>What the two clients have got when a session is finished.\<close>

lemma relay_in_order: "session_ok S \<Longrightarrow> forwarded S \<Longrightarrow> relay S st n info h \<Longrightarrow> in_order S info h"
  using relay_status stage_in_order by blast

lemma relay_finished:
  assumes "session_ok S" "forwarded S" "relay S st n info h" "si_state info = MSS_CLOSED"
  shows "sent h (ss_peer S) = req_bytes S" "sent h (ss_client S) = rsp_bytes S"
  using relay_in_order [OF assms(1-3)] assms(4) by (simp_all add: in_order_def)

end
