(* ===== verification/Clients_Properties.thy ===== *)
theory Clients_Properties
  imports Clients_Laws Serial_Properties
begin

text \<open>
  The properties of the server's client list, \<open>server/middfs-client.c\<close>, each with a witness on
  a list of two users.
\<close>

section \<open>A list to try things on\<close>

definition amy :: client where
  "amy = \<lparr>cl_username = Some ''amy'', cl_IP = Some ''10.0.0.1'', cl_port = 4322\<rparr>"

definition bob :: client where
  "bob = \<lparr>cl_username = Some ''bob'', cl_IP = Some ''10.0.0.2'', cl_port = 4323\<rparr>"

definition two_clients :: clients where
  "two_clients = \<lparr>cl_vec = Live [Some amy, Some bob], cl_len = 2, cl_cnt = 2\<rparr>"

lemma keys [simp]: "cl_key amy = ''amy''" "cl_key bob = ''bob''" "named amy" "named bob"
  "cl_username amy = Some ''amy''" "cl_username bob = Some ''bob''"
  by (simp_all add: amy_def bob_def cl_key_def named_def)

lemma two_clients_ok [simp]: "clients_ok two_clients" "users two_clients = [amy, bob]"
  "cl_cnt two_clients = 2"
proof -
  have "''amy'' \<le> ''bob''" by (simp add: less_eq_char_def)
  then show "clients_ok two_clients" "users two_clients = [amy, bob]" "cl_cnt two_clients = 2"
    using clients_okI [of two_clients "[amy, bob]" "[]"] by (simp_all add: two_clients_def)
qed

text \<open>Its array is full, and can be doubled.\<close>

lemma two_clients_room: "clients_room good_env two_clients"
  by (simp add: clients_room_def two_clients_def good_env_def Let_def)

section \<open>Properties\<close>

text \<open>C18: Adding a client keeps the list sorted by name with every slot in use filled, and
  either adds exactly this client or, when the array cannot grow, reports -1 and changes
  nothing.\<close>

theorem clients_add_invariant:
  assumes "clients_ok cs" "cl_username c \<noteq> None"
  shows "\<exists>r cs'. clients_add E c cs = Some (r, cs') \<and> clients_ok cs' \<and>
    sorted (map cl_key (users cs')) \<and>
    (if clients_room E cs then r = 0 \<and> mset (users cs') = add_mset c (mset (users cs))
     else r = -1 \<and> cs' = cs)"
proof -
  have "named c" using assms(2) by (simp add: named_def)
  moreover have "sorted (map cl_key (users cs'))" if "clients_ok cs'" for cs'
    using that by (auto simp: clients_ok_def users_def split: option.splits)
  ultimately show ?thesis using directory.add_law [OF assms(1), of c E] by blast
qed

theorem clients_add_invariant_witness:
  "\<exists>r cs'. clients_add good_env amy two_clients = Some (r, cs') \<and> clients_ok cs' \<and>
    sorted (map cl_key (users cs')) \<and>
    r = 0 \<and> mset (users cs') = {#amy, amy, bob#}"
  using clients_add_invariant [of two_clients amy good_env] two_clients_room by auto

text \<open>Removing the client at an index in use takes exactly that client out and keeps the
  list well-formed and sorted.\<close>

theorem clients_remove_one:
  assumes "clients_ok cs" "i < cl_cnt cs"
  shows "\<exists>cs'. clients_remove i cs = Some cs' \<and> clients_ok cs' \<and>
    mset (users cs') = mset (users cs) - {#users cs ! unat i#} \<and>
    Suc (length (users cs')) = length (users cs)"
proof -
  have i: "unat i < length (users cs)" using assms by (simp add: length_users word_less_nat_alt)
  with directory.remove_law [OF assms(1)] obtain cs' where cs': "clients_remove i cs = Some cs'"
    "clients_ok cs'" "mset (users cs') = mset (users cs) - {#users cs ! unat i#}" by blast
  have "Suc (length (users cs')) = length (users cs)"
    using arg_cong [OF cs'(3), of size] i by (simp add: size_Diff_singleton)
  with cs' show ?thesis by blast
qed

theorem clients_remove_one_witness:
  "\<exists>cs'. clients_remove 0 two_clients = Some cs' \<and> clients_ok cs' \<and>
    mset (users cs') = {#bob#} \<and> Suc (length (users cs')) = 2"
  using clients_remove_one [of two_clients 0] by simp

text \<open>C17: The binary search of \<open>client_find\<close> agrees with looking at every client: it returns a
  client of the given name if the list has one, and NULL exactly if it has none. It reads only
  slots in use.\<close>

theorem client_find_complete:
  assumes "clients_ok cs"
  shows "\<exists>r. client_find (Some n) cs = Some r \<and>
    (case r of
       None \<Rightarrow> List.find (\<lambda>c. cl_username c = Some n) (users cs) = None
     | Some i \<Rightarrow> i < length (users cs) \<and> cl_username (users cs ! i) = Some n)"
proof -
  obtain r where r: "client_find (Some n) cs = Some r"
    "case r of
       None \<Rightarrow> Some n \<notin> cl_username ` set (users cs)
     | Some i \<Rightarrow> i < length (users cs) \<and> cl_username (users cs ! i) = Some n"
    using directory.find_law [OF assms, of n] by blast
  then show ?thesis by (cases r) (auto simp: find_None_iff image_iff)
qed

theorem client_find_complete_witness:
  "\<exists>i. client_find (Some ''bob'') two_clients = Some (Some i) \<and> i < 2 \<and>
    cl_username ([amy, bob] ! i) = Some ''bob''"
proof -
  obtain r where "client_find (Some ''bob'') two_clients = Some r"
    "case r of
       None \<Rightarrow> List.find (\<lambda>c. cl_username c = Some ''bob'') (users two_clients) = None
     | Some i \<Rightarrow> i < length (users two_clients) \<and> cl_username (users two_clients ! i) = Some ''bob''"
    using client_find_complete [OF two_clients_ok(1), of "''bob''"] by blast
  then show ?thesis by (cases r) simp_all
qed

text \<open>A client that was added is online: looking its name up finds a client of that name,
  whatever was in the list before.\<close>

theorem client_find_added:
  assumes "clients_ok cs" "cl_username c = Some n" "clients_add E c cs = Some (0, cs')"
  shows "\<exists>i. client_find (Some n) cs' = Some (Some i) \<and>
    slot_get (cl_vec cs') i = Some (users cs' ! i) \<and> cl_username (users cs' ! i) = Some n"
proof -
  obtain i where i: "client_find (Some n) cs' = Some (Some i)" "i < length (users cs')"
    "cl_username (users cs' ! i) = Some n"
    using directory.find_added [OF assms] by blast
  have ok: "clients_ok cs'"
    using directory.add_law [OF assms(1), of c E] assms(2,3) by (auto simp: named_def split: if_splits)
  show ?thesis
    by (rule find_result [OF ok, of n]) (use i in auto)
qed

theorem client_find_added_witness:
  "\<exists>cs' i. clients_add good_env amy clients_init = Some (0, cs') \<and>
    client_find (Some ''amy'') cs' = Some (Some i) \<and> cl_username (users cs' ! i) = Some ''amy''"
proof -
  let ?cs = "\<lparr>cl_vec = Live [Some amy], cl_len = 1, cl_cnt = 1\<rparr>"
  have "clients_truncate 1 clients_init = Some clients_init"
    by (subst clients_truncate.simps) (simp add: clients_init_def)
  then have "clients_add good_env amy clients_init = Some (0, ?cs)"
    by (simp add: clients_add_def clients_resize_def clients_init_def smax_def realloc_slots_def
        block_mem_def sizeof_client_def PTRDIFF_MAX_def good_env_def slot_set_def block_set_def
        clients_sort_def used_slots_def)
  with client_find_added [OF clients_init_ok(1), of amy "''amy''" good_env ?cs] show ?thesis
    unfolding keys(5) by blast
qed

text \<open>The root directory the server reports has one entry for each connected client, in the
  order of the list, each a directory; an entry lacks its name only if copying the name ran out
  of memory.\<close>

theorem clients_readdir_lists_users:
  assumes "clients_ok cs" "calloc_ok E (cl_cnt cs) 16"
  shows "\<exists>des d'. clients_readdir E cs d = Some (0, d') \<and> mdir_ents d' = Some des \<and>
    mdir_count d' = cl_cnt cs \<and> length des = unat (cl_cnt cs) \<and>
    (\<forall>i < length des. mde_mode (des ! i) = client_dir_mode \<and>
       mde_name (des ! i) = (if can_alloc E (length (cl_key (users cs ! i)) + 1)
                             then cl_username (users cs ! i) else None))"
proof -
  have us: "used_slots cs = Some (users cs)" "list_all named (users cs)"
    using clients_used_slots [OF assms(1)] by simp_all
  obtain des where des: "dirents_of E (users cs) = Some des" "length des = length (users cs)"
    "\<forall>i < length (users cs). mde_mode (des ! i) = client_dir_mode \<and>
       mde_name (des ! i) = (if can_alloc E (length (cl_key (users cs ! i)) + 1)
                             then cl_username (users cs ! i) else None)"
    using dirents_of_all [OF us(2), of E] by blast
  then show ?thesis
    using us(1) assms length_users [OF assms(1)] by (simp add: clients_readdir_def)
qed

theorem clients_readdir_lists_users_witness:
  "\<exists>des d'. clients_readdir good_env two_clients \<lparr>mdir_count = 0, mdir_ents = None\<rparr> = Some (0, d') \<and>
    mdir_ents d' = Some des \<and> mdir_count d' = 2 \<and> map mde_name des = [Some ''amy'', Some ''bob'']"
proof -
  have "calloc_ok good_env (cl_cnt two_clients) 16" by (simp add: calloc_ok_def good_env_def)
  with clients_readdir_lists_users [OF two_clients_ok(1) this, of "\<lparr>mdir_count = 0, mdir_ents = None\<rparr>"]
  obtain des d' where d: "clients_readdir good_env two_clients \<lparr>mdir_count = 0, mdir_ents = None\<rparr> = Some (0, d')"
    "mdir_ents d' = Some des" "mdir_count d' = cl_cnt two_clients" "length des = unat (cl_cnt two_clients)"
    "\<forall>i < length des. mde_mode (des ! i) = client_dir_mode \<and>
       mde_name (des ! i) = (if can_alloc good_env (length (cl_key (users two_clients ! i)) + 1)
                             then cl_username (users two_clients ! i) else None)"
    by blast
  have l: "length des = 2" using d(4) by simp
  have "can_alloc good_env k" for k by (simp add: good_env_def)
  then have nm: "i < 2 \<Longrightarrow> mde_name (des ! i) = cl_username ([amy, bob] ! i)" for i
    using d(4,5) by simp
  have "map mde_name des = [Some ''amy'', Some ''bob'']"
    using l nm [of 0] nm [of 1] by (intro nth_equalityI) (auto simp: less_2_cases_iff)
  with d(1-3) show ?thesis by simp
qed

end
