(* ===== verification/Sock_Properties.thy ===== *)
theory Sock_Properties
  imports Sock_Laws Serial_Properties
begin

text \<open>
  The properties of the socket table, \<open>lib/middfs-sock.c\<close>, each with a witness on a table that
  holds a listening socket and a client's connection.
\<close>

section \<open>A table to try things on\<close>

definition listener :: middfs_sockinfo where
  "listener =
     \<lparr>si_type = MFD_LSTN, si_state = MSS_LSTN, si_in = middfs_sockend_init 3,
      si_out = middfs_sockend_init (-1), si_revents = 0\<rparr>"

definition talker :: middfs_sockinfo where
  "talker =
     \<lparr>si_type = MFD_PKT_IN, si_state = MSS_REQRD,
      si_in = \<lparr>se_fd = 4, se_buf = \<lparr>buf_begin = Live [1], buf_ptr = 1, buf_end = 1\<rparr>, se_revents = None\<rparr>,
      si_out = middfs_sockend_init (-1), si_revents = 0\<rparr>"

definition closed_info :: middfs_sockinfo where
  "closed_info =
     \<lparr>si_type = MFD_NONE, si_state = MSS_REQRD, si_in = middfs_sockend_init (-1),
      si_out = middfs_sockend_init (-1), si_revents = 0\<rparr>"

definition table :: "middfs_sockinfo list \<Rightarrow> middfs_socks" where
  "table xs = \<lparr>sk_sockinfos = Live (map Some xs), sk_count = int (length xs), sk_len = int (length xs)\<rparr>"

lemma table_infos [simp]:
  assumes "length xs < 2 ^ 31"
  shows "table_ok (table xs)" "infos (table xs) = xs"
proof -
  have l: "int (length xs) \<le> INT_MAX" using assms by (simp add: INT_MAX_def)
  show "table_ok (table xs)" "infos (table xs) = xs"
    by (rule table_okI [of "table xs" xs "[]"]; use l in \<open>simp add: table_def\<close>)+
qed

lemma samples_live [simp]:
  "sockinfo_live listener" "sockinfo_live talker" "sockinfo_dead closed_info"
  "bufs_ok listener" "bufs_ok talker" "\<not> sockinfo_live closed_info"
proof -
  show "sockinfo_live listener" "sockinfo_live talker" "sockinfo_dead closed_info"
    "bufs_ok listener" "bufs_ok talker"
    by (simp_all add: sockinfo_live_def sockinfo_dead_def bufs_ok_def live_fds_def listener_def
        talker_def closed_info_def middfs_sockend_init_def buffer_ok_def PTRDIFF_MAX_def
        buffer_init_def)
  then show "\<not> sockinfo_live closed_info" using live_not_dead by blast
qed

lemma table_socks_ok [simp]: "socks_ok (table [listener, talker])"
  by (simp add: socks_ok_def sockinfo_ok_def)

section \<open>Properties\<close>

text \<open>Adding a socket keeps the table well-formed: the new socket comes last and the others
  keep their places, or the table cannot grow, -1 is reported and nothing changes. (The bound
  is the one past which doubling the length overflows an \<open>int\<close>.)\<close>

theorem socks_add_invariant:
  assumes "socks_ok socks" "sockinfo_live info" "2 * sk_len socks \<le> INT_MAX"
  shows "\<exists>r socks'. middfs_socks_add E info socks = Some (r, socks') \<and> socks_ok socks' \<and>
    (r = 0 \<and> infos socks' = infos socks @ [info] \<or> r = -1 \<and> socks' = socks)"
proof -
  have ok: "table_ok socks" "list_all sockinfo_ok (infos socks)"
    using assms(1) by (simp_all add: socks_ok_def)
  show ?thesis
    by (rule socks_add_cases [OF ok(1) assms(3), of E info])
      (use assms ok in \<open>auto simp: socks_ok_def sockinfo_ok_def\<close>)
qed

theorem socks_add_invariant_witness:
  "\<exists>r socks'. middfs_socks_add good_env talker middfs_socks_init = Some (r, socks') \<and> socks_ok socks' \<and>
    (r = 0 \<and> infos socks' = [talker] \<or> r = -1 \<and> socks' = middfs_socks_init)"
proof -
  have "2 * sk_len middfs_socks_init \<le> INT_MAX" by (simp add: middfs_socks_init_def INT_MAX_def)
  with socks_add_invariant [of middfs_socks_init talker good_env] show ?thesis by simp
qed

text \<open>Removing a live socket closes both of its ends, keeps the other sockets and their
  indices, and leaves the table well-formed, whether or not \<open>close\<close> reports an error.\<close>

theorem socks_remove_closes:
  assumes "socks_ok socks" "i < length (infos socks)" "sockinfo_live (infos socks ! i)"
  shows "\<exists>socks' info'. middfs_socks_remove cl i socks = Some (0, socks') \<and> socks_ok socks' \<and>
    infos socks' = (infos socks)[i := info'] \<and> \<not> middfs_sockinfo_isopen info' \<and>
    si_type info' = MFD_NONE"
proof -
  have ok: "table_ok socks" "list_all sockinfo_ok (infos socks)"
    using assms(1) by (simp_all add: socks_ok_def)
  have b: "bufs_ok (infos socks ! i)" using assms(3) by (simp add: sockinfo_live_def)
  obtain socks' info' where r: "middfs_socks_remove cl i socks = Some (0, socks')" "table_ok socks'"
    "infos socks' = (infos socks)[i := info']" "sockinfo_dead info'"
    by (rule socks_remove_result [OF ok(1) assms(2) b])
  moreover have "sockinfo_ok ((infos socks)[i := info'] ! n)" if "n < length (infos socks)" for n
    using ok(2) r(4) that by (cases "n = i") (auto simp: list_all_length sockinfo_ok_def)
  then have "list_all sockinfo_ok (infos socks')" using r(3) by (simp add: list_all_length)
  ultimately show ?thesis
    using dead_not_open [OF r(4)] by (auto simp: socks_ok_def sockinfo_dead_def)
qed

theorem socks_remove_closes_witness:
  "\<exists>socks' info'. middfs_socks_remove (\<lambda>_. False) 1 (table [listener, talker]) = Some (0, socks') \<and>
    socks_ok socks' \<and> infos socks' = [listener, info'] \<and> \<not> middfs_sockinfo_isopen info'"
  using socks_remove_closes [of "table [listener, talker]" 1 "\<lambda>_. False"] by force

text \<open>C16: Polling. On a well-formed table \<open>middfs_socks_poll\<close> never fails its assertion and
  never follows a dangling \<open>revents\<close> pointer. \<open>poll(2)\<close> is given one entry for each live
  socket, in table order, for the descriptor and direction its state waits on; afterwards
  every live socket holds the events reported for its own entry, or was deleted when they
  include an error or a hang-up, and closed sockets have no events.\<close>

theorem socks_poll_delivers:
  assumes "socks_ok socks" "poll_ok pol"
  shows "\<exists>n socks'. middfs_socks_poll E cl pol socks = Some (n, socks') \<and> socks_ok socks' \<and>
    length (infos socks') = length (infos socks) \<and>
    (n = -1 \<or>
     0 \<le> n \<and>
     (\<exists>revs. pol (map poll_entry (filter sockinfo_live (infos socks))) = Some revs \<and>
        (\<forall>i < length (infos socks).
           delivered revs (length (filter sockinfo_live (take i (infos socks))))
             (infos socks ! i) (infos socks' ! i))))"
  by (rule socks_poll_cases [OF assms, of E cl]) (auto simp: polled_def rank_def)

theorem socks_poll_delivers_witness:
  "\<exists>n socks'. middfs_socks_poll good_env (\<lambda>_. True) (\<lambda>pfds. Some (replicate (length pfds) 1))
       (table [listener, talker]) = Some (n, socks') \<and> socks_ok socks' \<and>
     (n = -1 \<or> 0 \<le> n \<and>
        infos socks' ! 1 = (set_mark 1 talker)\<lparr>si_revents := 1\<rparr>)"
proof -
  have "poll_ok (\<lambda>pfds. Some (replicate (length pfds) 1))" by (simp add: poll_ok_def)
  from socks_poll_delivers [OF table_socks_ok this, of good_env "\<lambda>_. True"]
  show ?thesis
    by (fastforce simp: delivered_def bad_event_def POLLERR_def POLLHUP_def)
qed

text \<open>\<open>middfs_socks_pack\<close> miscounts. A closed socket followed by an open one is packed to a
  table with the open one moved first, but the count it returns, and the one it stores, is 0:
  a socket moved forward is never counted, so the open socket is lost.\<close>

theorem socks_pack_miscounts:
  assumes "table_ok socks" "infos socks = [d, x]" "\<not> middfs_sockinfo_isopen d"
    "middfs_sockinfo_isopen x"
  shows "\<exists>socks'. middfs_socks_pack socks = Some (0, socks') \<and> infos socks' = [] \<and>
    slot_get (sk_sockinfos socks') 0 = Some x"
proof -
  obtain rest where v: "int (length (infos socks)) = sk_count socks"
    "infos socks = [] \<and> rest = [] \<or> sk_sockinfos socks = Live (map Some (infos socks) @ rest)"
    by (rule table_okE [OF assms(1)]) blast
  define c where "c = x\<lparr>si_type := MFD_NONE, si_state := MSS_NONE,
    si_in := middfs_sockend_init (-1), si_out := middfs_sockend_init (-1)\<rparr>"
  have c: "\<not> middfs_sockinfo_isopen c"
    by (simp add: c_def middfs_sockinfo_isopen_def middfs_sockend_isopen_def middfs_sockend_init_def)
  have l: "sk_sockinfos socks = Live (Some d # Some x # rest)" "nat (sk_count socks) = 2"
    "sk_count socks = 2"
    using v assms(2) by simp_all
  have init: "middfs_sockinfo_init MFD_NONE (-1) (-1) x = Some c"
    by (simp add: middfs_sockinfo_init_def c_def)
  have upt: "[Suc 0..<2] = [Suc 0]" "[0..<2] = [0, 1 :: nat]" by (simp_all add: upt_rec)
  have "pack_outer 2 [0, 1] 0 (Live (Some d # Some x # rest)) = Some (0, Live (Some x # Some c # rest))"
    using assms(3,4) c
    by (simp add: upt slot_get_def slot_set_def block_mem_def block_set_def middfs_sockinfo_move_def init)
  then show ?thesis
    using l by (simp add: middfs_socks_pack_def upt infos_def block_mem_def slot_get_def)
qed

theorem socks_pack_miscounts_witness:
  "\<exists>socks'. middfs_socks_pack (table [closed_info, talker]) = Some (0, socks') \<and> infos socks' = []"
proof -
  have "\<not> middfs_sockinfo_isopen closed_info" "middfs_sockinfo_isopen talker"
    using dead_not_open [of closed_info] live_isopen [of talker] by simp_all
  with socks_pack_miscounts [of "table [closed_info, talker]" closed_info talker] show ?thesis by auto
qed

text \<open>Deleting the table removes the sockets one by one.\<close>

lemma remove_other:
  assumes "table_ok socks" "j < length (infos socks)" "middfs_socks_remove cl j socks = Some (r, socks1)"
  shows "table_ok socks1" "length (infos socks1) = length (infos socks)"
    "i \<noteq> j \<Longrightarrow> infos socks1 ! i = infos socks ! i"
proof -
  obtain info1 where d: "middfs_sockinfo_delete cl (infos socks ! j) = Some (0, info1)"
    "slot_set (sk_sockinfos socks) j (Some info1) = Some (sk_sockinfos socks1)"
    "socks1 = socks\<lparr>sk_sockinfos := sk_sockinfos socks1\<rparr>"
    using assms(3) slot_get_info [OF assms(1,2)]
    by (auto simp: middfs_socks_remove_def bind_Some_iff middfs_sockinfo_delete_def split: if_splits)
  obtain b where b: "slot_set (sk_sockinfos socks) j (Some info1) = Some b"
    "table_ok (socks\<lparr>sk_sockinfos := b\<rparr>)" "infos (socks\<lparr>sk_sockinfos := b\<rparr>) = (infos socks)[j := info1]"
    by (rule slot_set_info [OF assms(1,2)])
  then have s1: "socks1 = socks\<lparr>sk_sockinfos := b\<rparr>" using d by simp
  with b show "table_ok socks1" "length (infos socks1) = length (infos socks)"
    "i \<noteq> j \<Longrightarrow> infos socks1 ! i = infos socks ! i" by simp_all
qed

lemma remove_all_stops:
  assumes "table_ok socks" "\<forall>j \<in> set js. j < length (infos socks)" "i \<in> set js"
    "middfs_sockinfo_delete cl (infos socks ! i) = None"
  shows "socks_remove_all cl js retv socks = None"
  using assms
proof (induction js arbitrary: retv socks)
  case Nil
  then show ?case by simp
next
  case (Cons j js)
  have get: "slot_get (sk_sockinfos socks) j = Some (infos socks ! j)"
    using Cons.prems by (intro slot_get_info) simp_all
  show ?case
  proof (cases "middfs_socks_remove cl j socks")
    case (Some z)
    then obtain r socks1 where r: "middfs_socks_remove cl j socks = Some (r, socks1)" by (cases z) simp
    then have "i \<noteq> j"
      using get Cons.prems(4) by (auto simp: middfs_socks_remove_def split: if_splits)
    moreover note remove_other [OF Cons.prems(1) _ r]
    ultimately have "socks_remove_all cl js retv' socks1 = None" for retv'
      using Cons.prems by (intro Cons.IH) auto
    with r show ?thesis by simp
  qed simp
qed

text \<open>C37: Removed sockets stay in the table with their buffers freed but not forgotten, so
  \<open>middfs_socks_delete\<close> frees the buffer of a socket that was removed earlier a second
  time.\<close>

theorem socks_delete_double_free:
  assumes "table_ok socks" "i < length (infos socks)"
    "buf_begin (se_buf (si_in (infos socks ! i))) \<noteq> Null \<or>
     buf_begin (se_buf (si_out (infos socks ! i))) \<noteq> Null"
    "middfs_socks_remove cl i socks = Some (r, socks')"
  shows "middfs_socks_delete cl socks' = None"
proof -
  obtain info1 where d: "middfs_sockinfo_delete cl (infos socks ! i) = Some (0, info1)"
    "slot_set (sk_sockinfos socks) i (Some info1) = Some (sk_sockinfos socks')"
    "socks' = socks\<lparr>sk_sockinfos := sk_sockinfos socks'\<rparr>"
    using assms(4) slot_get_info [OF assms(1,2)]
    by (auto simp: middfs_socks_remove_def bind_Some_iff middfs_sockinfo_delete_def split: if_splits)
  obtain b where "slot_set (sk_sockinfos socks) i (Some info1) = Some b"
    "table_ok (socks\<lparr>sk_sockinfos := b\<rparr>)" "infos (socks\<lparr>sk_sockinfos := b\<rparr>) = (infos socks)[i := info1]"
    by (rule slot_set_info [OF assms(1,2)])
  then have s': "table_ok socks'" "infos socks' = (infos socks)[i := info1]" using d by simp_all
  have "int (length (infos socks')) = sk_count socks'" by (rule table_okE [OF s'(1)])
  then have n: "nat (sk_count socks') = length (infos socks')" by linarith
  have "middfs_sockinfo_delete cl (infos socks' ! i) = None"
    using sockinfo_delete_twice [OF d(1) assms(3)] s'(2) assms(2) by simp
  then have "socks_remove_all cl [0..<length (infos socks')] 0 socks' = None"
    using s' assms(2) by (intro remove_all_stops [of _ _ i]) auto
  then show ?thesis by (simp add: middfs_socks_delete_def n)
qed

theorem socks_delete_double_free_witness:
  "\<exists>socks'. middfs_socks_remove (\<lambda>_. True) 0 (table [talker]) = Some (0, socks') \<and>
     middfs_socks_delete (\<lambda>_. True) socks' = None"
proof -
  obtain socks' where r: "middfs_socks_remove (\<lambda>_. True) 0 (table [talker]) = Some (0, socks')"
    using socks_remove_result [of "table [talker]" 0 "\<lambda>_. True"] by fastforce
  from socks_delete_double_free [OF _ _ _ r] have "middfs_socks_delete (\<lambda>_. True) socks' = None"
    by (simp add: talker_def)
  with r show ?thesis by blast
qed

end
