(* ===== verification/Server_Properties.thy ===== *)
theory Server_Properties
  imports Relay Clients_Properties Sock_Properties
begin

text \<open>
  The properties of the running server: the invariant of its loop, what each request is
  answered with, the packets that stop it, and the forwarding of a request to its owner.
\<close>

section \<open>A server to try things on\<close>

definition quiet_io :: io where
  "quiet_io =
     \<lparr>io_read = \<lambda>n. if n = 0 then Some [] else Some [1], io_write = \<lambda>bs. Some (word_of_nat (min 1 (length bs))),
      io_accept = 9, io_connect = \<lambda>_ _. 5, io_peer = Some ''10.0.0.3'', io_close = \<lambda>_. True,
      io_junk = closed_info\<rparr>"

lemma quiet_read_ok [simp]: "read_ok (io_read quiet_io)"
  by (auto simp: quiet_io_def read_ok_def Suc_le_eq unat_gt_0 split: if_splits)

definition fresh_info :: "int \<Rightarrow> middfs_sockinfo" where
  "fresh_info fd =
     \<lparr>si_type = MFD_PKT_IN, si_state = MSS_REQRD, si_in = middfs_sockend_init fd,
      si_out = middfs_sockend_init (-1), si_revents = 0\<rparr>"

lemma fresh_info_facts [simp]:
  "0 \<le> fd \<Longrightarrow> sockinfo_live (fresh_info fd)" "si_state (fresh_info fd) = MSS_REQRD"
  "contents (se_buf (si_out (fresh_info fd))) = []" "contents (se_buf (si_in (fresh_info fd))) = []"
  "se_fd (si_in (fresh_info fd)) = fd"
  by (simp_all add: fresh_info_def sockinfo_live_def bufs_ok_def live_fds_def middfs_sockend_init_def)

section \<open>The loop\<close>

text \<open>C12: The invariant of the server. One round of \<open>server_loop\<close>, with whatever events,
  connections and bytes the network brings, keeps the socket table well-formed (every entry
  live, in a state that can be polled, with both buffers intact, or closed) and the client list
  sorted and filled.\<close>

theorem server_loop_invariant:
  assumes "socks_ok socks" "clients_ok cs" "poll_ok pol" "\<forall>i. read_ok (io_read (ios i))"
    "server_loop E (server_hi E) pol cl ios (socks, cs) = Some (r, socks', cs')"
  shows "socks_ok socks' \<and> clients_ok cs'"
  using server.server_loop_keeps [OF assms(1-3) _ assms(5)] assms(4) by blast

theorem server_loop_invariant_witness:
  "\<exists>r socks' cs'. server_loop good_env (server_hi good_env) (\<lambda>pfds. Some (replicate (length pfds) 1))
      (\<lambda>_. True) (\<lambda>_. quiet_io) (table [listener], two_clients) = Some (r, socks', cs') \<and>
    socks_ok socks' \<and> clients_ok cs'"
proof -
  let ?run = "server_loop good_env (server_hi good_env) (\<lambda>pfds. Some (replicate (length pfds) 1))
      (\<lambda>_. True) (\<lambda>_. quiet_io) (table [listener], two_clients)"
  have "?run \<noteq> None" by code_simp
  then obtain r socks' cs' where run: "?run = Some (r, socks', cs')" by auto
  have "socks_ok socks' \<and> clients_ok cs'"
    by (rule server_loop_invariant [OF _ _ _ _ run])
      (simp_all add: socks_ok_def sockinfo_ok_def poll_ok_def)
  with run show ?thesis by blast
qed

text \<open>The packet-reading code of the connection manager is \<open>buffer_read\<close> followed by
  \<open>buffer_deserialize\<close>: with a readable socket, \<open>handle_pkt_rd\<close> is the reference function
  that is written with that call.\<close>

theorem handle_pkt_rd_is_deserialize:
  assumes "si_revents info AND POLLIN \<noteq> 0"
  shows "handle_pkt_rd E hi io (info, g) = handle_pkt_rd_ref E hi io (info, g)"
  by (rule rd_eq_ref [OF assms])

theorem handle_pkt_rd_is_deserialize_witness:
  "handle_pkt_rd good_env (server_hi good_env) quiet_io (talker\<lparr>si_revents := 1\<rparr>, two_clients)
   = handle_pkt_rd_ref good_env (server_hi good_env) quiet_io (talker\<lparr>si_revents := 1\<rparr>, two_clients)"
  by (rule handle_pkt_rd_is_deserialize) (simp add: POLLIN_def)

section \<open>Answers\<close>

text \<open>
  What answering with a packet means: the socket turns to the client it read from, and its
  output is the packet. When there is no memory for the bytes of the packet, and only then, the
  socket is deleted with nothing queued.
\<close>

definition answered :: "handler_e \<Rightarrow> byte list \<Rightarrow> middfs_sockinfo \<Rightarrow> clients \<Rightarrow>
     (handler_e \<times> middfs_sockinfo \<times> clients) option \<Rightarrow> bool" where
  "answered st bs info cs res \<longleftrightarrow>
     (\<exists>info'. res = Some (st, info', cs) \<and> si_state info' = MSS_RSPWR \<and>
        se_fd (si_out info') = se_fd (si_in info) \<and> se_fd (si_in info') = -1 \<and>
        contents (se_buf (si_out info')) = bs)"

definition answers ::
    "cenv \<Rightarrow> middfs_packet \<Rightarrow> middfs_sockinfo \<Rightarrow> clients \<Rightarrow>
     (handler_e \<times> middfs_sockinfo \<times> clients) option \<Rightarrow> bool" where
  "answers E p info cs res \<longleftrightarrow>
     answered HS_SUC (enc_pkt p) info cs res \<or>
     answered HS_DEL [] info cs res \<and> \<not> alloc_upto E (length (enc_pkt p))"

lemma answersI:
  assumes p: "pkt_ok p" and info: "sockinfo_live info" "contents (se_buf (si_out info)) = []"
    and run: "res = do {
        (r, buf) \<leftarrow> buffer_serialize E (serialize_pkt p) (se_buf (si_out (answer_client info)));
        Some (if r < 0 then HS_DEL else HS_SUC, set_out_buf buf (answer_client info), cs) }"
  shows "answers E p info cs res"
proof -
  let ?b = "se_buf (si_out (answer_client info))"
  have b: "buffer_ok ?b" "contents ?b = []"
    using info by (simp_all add: answer_client_def sockinfo_live_def bufs_ok_def)
  have len: "length (contents ?b) + length (enc_pkt p) < 2 ^ 63" using p b(2) by (simp add: pkt_ok_def)
  show ?thesis
    by (rule pkt.buffer_serialize_cases [OF p b(1) len, of E])
      (use b(2) run in \<open>auto simp: answers_def answered_def set_out_buf_def answer_client_def\<close>)
qed

lemma root_request_run:
  assumes "mpkt_type pkt = MPKT_REQUEST" "get_request (mpkt_un pkt) = Some req"
    "mr_path (mreq_rsrc req) = Some []"
    "root_response E req cs (old_response (mpkt_un (packet_init zero_packet MPKT_RESPONSE))) = Some rsp"
  shows "handle_pkt_rd_fin E io pkt (info, cs) = do {
      (r, buf) \<leftarrow> buffer_serialize E
         (serialize_pkt ((packet_init zero_packet MPKT_RESPONSE)\<lparr>mpkt_un := Pkt_response rsp\<rparr>))
         (se_buf (si_out (answer_client info)));
      Some (if r < 0 then HS_DEL else HS_SUC, set_out_buf buf (answer_client info), cs) }"
  using assms
  by (simp add: handle_pkt_rd_fin_def handle_req_rd_fin_def handle_req_rd_fin_root_def Let_def
      cong: if_cong)

text \<open>The root directory: one subdirectory for each user.\<close>

definition dir_packet :: "clients \<Rightarrow> middfs_packet" where
  "dir_packet cs =
     \<lparr>mpkt_magic = MPKT_MAGIC, mpkt_type = MPKT_RESPONSE,
      mpkt_un = Pkt_response \<lparr>mrsp_type = MRSP_DIR,
        mrsp_un = Rsp_dir \<lparr>mdir_count = cl_cnt cs,
          mdir_ents = Some (map (\<lambda>c. \<lparr>mde_name = cl_username c, mde_mode = client_dir_mode\<rparr>)
                              (users cs))\<rparr>\<rparr>\<rparr>"

lemma dirents_of_good:
  assumes "list_all named us" "\<And>k. can_alloc E k"
  shows "dirents_of E us = Some (map (\<lambda>c. \<lparr>mde_name = cl_username c, mde_mode = client_dir_mode\<rparr>) us)"
  using assms by (induction us) (auto simp: strdup_def named_def)

lemma root_readdir:
  assumes "clients_ok cs" "\<And>k. can_alloc E k" "calloc_ok E (cl_cnt cs) 16" "mreq_type req = MREQ_READDIR"
  shows "\<exists>rsp. root_response E req cs (old_response (mpkt_un (packet_init zero_packet MPKT_RESPONSE))) = Some rsp \<and>
    (packet_init zero_packet MPKT_RESPONSE)\<lparr>mpkt_un := Pkt_response rsp\<rparr> = dir_packet cs"
proof -
  have us: "used_slots cs = Some (users cs)" "list_all named (users cs)"
    using clients_used_slots [OF assms(1)] by simp_all
  have z: "old_response (mpkt_un (packet_init zero_packet MPKT_RESPONSE)) = zero_response"
    "old_dir (mrsp_un (response_init zero_response MRSP_DIR)) = zero_dir"
    by (simp_all add: packet_init_def zero_packet_def old_response_def get_response_def
        response_init_def zero_response_def old_dir_def get_dir_def)
  have rd: "clients_readdir E cs zero_dir = Some (0, \<lparr>mdir_count = cl_cnt cs,
      mdir_ents = Some (map (\<lambda>c. \<lparr>mde_name = cl_username c, mde_mode = client_dir_mode\<rparr>) (users cs))\<rparr>)"
    using us dirents_of_good [OF us(2) assms(2)] assms(3) by (simp add: clients_readdir_def zero_dir_def)
  show ?thesis
    unfolding z(1)
    by (simp add: root_response_def assms(4) z(2) rd Let_def)
      (simp add: dir_packet_def packet_init_def zero_packet_def response_init_def zero_response_def)
qed

text \<open>C25: Listing the root. A READDIR request for the root is answered, to the client that sent
  it, with the directory of all connected clients in the order of the list: its bytes are
  queued, and the list does not change. (Memory must be there.)\<close>

theorem root_readdir_lists_clients:
  assumes "clients_ok cs" "\<forall>k. can_alloc E k" "calloc_ok E (cl_cnt cs) 16" "pkt_ok (dir_packet cs)"
    "sockinfo_live info" "contents (se_buf (si_out info)) = []"
    "mpkt_type pkt = MPKT_REQUEST" "get_request (mpkt_un pkt) = Some req"
    "mr_path (mreq_rsrc req) = Some []" "mreq_type req = MREQ_READDIR"
  shows "answered HS_SUC (enc_pkt (dir_packet cs)) info cs (handle_pkt_rd_fin E io pkt (info, cs))"
proof -
  obtain rsp where rsp: "root_response E req cs (old_response (mpkt_un (packet_init zero_packet MPKT_RESPONSE)))
      = Some rsp" "(packet_init zero_packet MPKT_RESPONSE)\<lparr>mpkt_un := Pkt_response rsp\<rparr> = dir_packet cs"
    using root_readdir [OF assms(1) _ assms(3,10)] assms(2) by blast
  have "answers E (dir_packet cs) info cs (handle_pkt_rd_fin E io pkt (info, cs))"
    by (rule answersI [OF assms(4-6) root_request_run [OF assms(7-9) rsp(1), unfolded rsp(2)]])
  with assms(2) show ?thesis by (simp add: answers_def alloc_upto_def)
qed

lemma two_dir_ok: "pkt_ok (dir_packet two_clients)" "calloc_ok good_env (cl_cnt two_clients) 16"
  "enc_pkt (dir_packet two_clients) = [0, 0, 7, 8, 0, 0, 0, 4, 0, 0, 0, 3, 0, 0, 0, 0, 0, 0, 0, 2,
     97, 109, 121, 0, 0, 0, 65, 164, 98, 111, 98, 0, 0, 0, 65, 164]"
proof -
  have d: "dir_packet two_clients =
     \<lparr>mpkt_magic = MPKT_MAGIC, mpkt_type = MPKT_RESPONSE,
      mpkt_un = Pkt_response \<lparr>mrsp_type = MRSP_DIR,
        mrsp_un = Rsp_dir \<lparr>mdir_count = 2,
          mdir_ents = Some [\<lparr>mde_name = Some ''amy'', mde_mode = client_dir_mode\<rparr>,
                            \<lparr>mde_name = Some ''bob'', mde_mode = client_dir_mode\<rparr>]\<rparr>\<rparr>\<rparr>"
    by (simp add: dir_packet_def)
  show "enc_pkt (dir_packet two_clients) = [0, 0, 7, 8, 0, 0, 0, 4, 0, 0, 0, 3, 0, 0, 0, 0, 0, 0, 0, 2,
     97, 109, 121, 0, 0, 0, 65, 164, 98, 111, 98, 0, 0, 0, 65, 164]" unfolding d by code_simp
  then have "length (enc_pkt (dir_packet two_clients)) = 36" by simp
  then show "pkt_ok (dir_packet two_clients)"
    by (simp add: pkt_ok_def) (simp add: d mpkt_ok_def mpkt_of_code_def get_response_def old_response_def
        response_ok_def get_dir_def old_dir_def dir_ok_def dir_entries_def dirent_ok_def cstr_ok_def str_ok_def)
  show "calloc_ok good_env (cl_cnt two_clients) 16" by (simp add: calloc_ok_def good_env_def)
qed

definition root_request :: "middfs_request_type \<Rightarrow> middfs_packet" where
  "root_request t =
     \<lparr>mpkt_magic = MPKT_MAGIC, mpkt_type = MPKT_REQUEST,
      mpkt_un = Pkt_request (zero_request\<lparr>mreq_type := t, mreq_requester := Some ''amy'',
        mreq_rsrc := \<lparr>mr_owner = Some [], mr_path = Some []\<rparr>\<rparr>)\<rparr>"

theorem root_readdir_lists_clients_witness:
  "answered HS_SUC [0, 0, 7, 8, 0, 0, 0, 4, 0, 0, 0, 3, 0, 0, 0, 0, 0, 0, 0, 2,
       97, 109, 121, 0, 0, 0, 65, 164, 98, 111, 98, 0, 0, 0, 65, 164] (fresh_info 4) two_clients
     (handle_pkt_rd_fin good_env quiet_io (root_request MREQ_READDIR) (fresh_info 4, two_clients))"
  unfolding two_dir_ok(3) [symmetric]
  by (rule root_readdir_lists_clients [OF two_clients_ok(1) _ two_dir_ok(2,1),
        where req = "zero_request\<lparr>mreq_type := MREQ_READDIR, mreq_requester := Some ''amy'',
          mreq_rsrc := \<lparr>mr_owner = Some [], mr_path = Some []\<rparr>\<rparr>"])
    (simp_all add: good_env_def root_request_def get_request_def)

text \<open>C33: A request for a resource whose owner is not connected is answered at once, to the
  client that sent it, with the error ENOENT, and is sent to nobody; the connection is dropped
  without an answer only when there is no memory for the answer.\<close>

theorem offline_owner_enoent:
  assumes "clients_ok cs" "sockinfo_live info" "contents (se_buf (si_out info)) = []"
    "mpkt_type pkt = MPKT_REQUEST" "get_request (mpkt_un pkt) = Some req"
    "mr_path (mreq_rsrc req) = Some (a # path)" "mr_owner (mreq_rsrc req) = Some n"
    "Some n \<notin> cl_username ` set (users cs)"
  shows "answers E (packet_error zero_packet ENOENT) info cs (handle_pkt_rd_fin E io pkt (info, cs))"
proof -
  have "client_find (Some n) cs = Some None"
    by (rule find_result [OF assms(1), of n]) (use assms(8) in \<open>auto simp: image_iff\<close>, metis nth_mem option.exhaust)
  then have "handle_pkt_rd_fin E io pkt (info, cs) = do {
      (r, buf) \<leftarrow> buffer_serialize E (serialize_pkt (packet_error zero_packet ENOENT))
         (se_buf (si_out (answer_client info)));
      Some (if r < 0 then HS_DEL else HS_SUC, set_out_buf buf (answer_client info), cs) }"
    using assms(4-7)
    by (simp add: handle_pkt_rd_fin_def handle_req_rd_fin_def handle_req_rd_fin_peer_def Let_def cong: if_cong)
  moreover have "length (enc_pkt (packet_error zero_packet ENOENT)) < wire_max"
    by (simp add: enc_pkt_def pkt_body_def packet_error_def enc_response_def rsp_body_def old_response_def get_response_def)
  then have "pkt_ok (packet_error zero_packet ENOENT)"
    by (simp add: pkt_ok_def)
      (simp add: packet_error_def mpkt_ok_def mpkt_of_code_def old_response_def get_response_def response_ok_def get_error_def)
  ultimately show ?thesis using answersI [OF _ assms(2,3)] by blast
qed

theorem offline_owner_enoent_witness:
  "answered HS_SUC [0, 0, 7, 8, 0, 0, 0, 4, 0, 0, 0, 4, 0, 0, 0, 2] (fresh_info 4) clients_init
     (handle_pkt_rd_fin good_env quiet_io sample_pkt (fresh_info 4, clients_init))"
proof -
  have "enc_pkt (packet_error zero_packet ENOENT) = [0, 0, 7, 8, 0, 0, 0, 4, 0, 0, 0, 4, 0, 0, 0, 2]" by code_simp
  moreover have "answers good_env (packet_error zero_packet ENOENT) (fresh_info 4) clients_init
      (handle_pkt_rd_fin good_env quiet_io sample_pkt (fresh_info 4, clients_init))"
    by (rule offline_owner_enoent [where req = sample_write and n = "''bob''" and a = "CHR ''/''" and path = "''f''"])
      (simp_all add: get_request_def, simp_all add: sample_write_def sample_rsrc_def)
  ultimately show ?thesis by (simp add: answers_def alloc_upto_def good_env_def)
qed

section \<open>Connecting\<close>

text \<open>C35: A connect packet registers its sender: the client list gains exactly the client of that
  name and port at the peer's address and stays sorted. Only when there is no memory for the
  name, the address or a larger array it is as before. In either case the connection is dropped
  and nothing is sent back.\<close>

theorem connect_registers:
  assumes "clients_ok cs" "mpkt_type pkt = MPKT_CONNECT" "get_connect (mpkt_un pkt) = Some conn"
    "conn_name conn = Some n" "io_peer io = Some ip"
  shows "\<exists>cs'. handle_pkt_rd_fin E io pkt (info, cs) = Some (HS_DEL, info, cs') \<and> clients_ok cs' \<and>
    (if can_alloc E (length n + 1) \<and> can_alloc E (length ip + 1) \<and> clients_room E cs
     then mset (users cs')
       = add_mset \<lparr>cl_username = Some n, cl_IP = Some ip, cl_port = conn_port conn\<rparr> (mset (users cs))
     else cs' = cs)"
proof -
  let ?c = "\<lparr>cl_username = Some n, cl_IP = Some ip, cl_port = conn_port conn\<rparr>"
  let ?mem = "can_alloc E (length n + 1) \<and> can_alloc E (length ip + 1)"
  have create: "client_create E conn (io_peer io) = Some (if ?mem then (0, Some ?c) else (-1, None))"
    using assms(4,5) by (simp add: client_create_def strdup_def)
  obtain r cs' where add: "clients_add E ?c cs = Some (r, cs')" "clients_ok cs'"
    "if clients_room E cs then r = 0 \<and> mset (users cs') = add_mset ?c (mset (users cs)) else r = -1 \<and> cs' = cs"
    using directory.add_law [OF assms(1), of ?c E] by (auto simp: named_def)
  show ?thesis
  proof (cases ?mem)
    case True
    with create add assms(2,3) show ?thesis
      by (auto simp: handle_pkt_rd_fin_def handle_connect_def client_print_def)
  next
    case False
    then have "client_create E conn (io_peer io) = Some (-1, None)" unfolding create by simp
    with assms(1-3) have "handle_pkt_rd_fin E io pkt (info, cs) = Some (HS_DEL, info, cs)"
      by (simp add: handle_pkt_rd_fin_def handle_connect_def)
    with False assms(1) show ?thesis by auto
  qed
qed

theorem connect_registers_witness:
  "\<exists>cs'. handle_pkt_rd_fin good_env quiet_io
      \<lparr>mpkt_magic = MPKT_MAGIC, mpkt_type = MPKT_CONNECT,
       mpkt_un = Pkt_connect \<lparr>conn_name = Some ''cat'', conn_port = 4324\<rparr>\<rparr> (fresh_info 4, two_clients)
      = Some (HS_DEL, fresh_info 4, cs') \<and> clients_ok cs' \<and>
    mset (users cs') = {#\<lparr>cl_username = Some ''cat'', cl_IP = Some ''10.0.0.3'', cl_port = 4324\<rparr>, amy, bob#}"
  using connect_registers [of two_clients "\<lparr>mpkt_magic = MPKT_MAGIC, mpkt_type = MPKT_CONNECT,
       mpkt_un = Pkt_connect \<lparr>conn_name = Some ''cat'', conn_port = 4324\<rparr>\<rparr>"
      "\<lparr>conn_name = Some ''cat'', conn_port = 4324\<rparr>" "''cat''" quiet_io "''10.0.0.3''" good_env "fresh_info 4"]
    two_clients_room
  by (auto simp: get_connect_def quiet_io_def good_env_def)

section \<open>Packets that stop the server\<close>

text \<open>C36: Any client can stop the server. When the last bytes of a well-formed DISCONNECT packet,
  or of a RESPONSE packet nobody asked for, arrive on a connection that is waiting for a
  request, the whole process ends (an \<open>abort()\<close>, and a failed assertion).\<close>

theorem server_aborts_on_packet:
  assumes "pkt_ok p" "alloc_for E p" "mpkt_type p = MPKT_DISCONNECT \<or> mpkt_type p = MPKT_RESPONSE"
    "sockinfo_live info" "si_state info = MSS_REQRD" "si_revents info AND POLLIN \<noteq> 0"
    "read_ok (io_read io)" "length (contents (se_buf (si_in info))) < length (enc_pkt p)"
    "contents (se_buf (si_in info)) @ read_result E (io_read io) (se_buf (si_in info)) = enc_pkt p"
  shows "handle_pkt_event E (server_hi E) io (info, cs) = None"
proof -
  have b: "buffer_ok (se_buf (si_in info))" using assms(4) by (simp add: sockinfo_live_def bufs_ok_def)
  have pre: "prefix (contents (se_buf (si_in info)) @ read_result E (io_read io) (se_buf (si_in info))) (enc_pkt p)"
    using assms(9) by simp
  have ev: "handle_pkt_event E (server_hi E) io (info, cs) = handle_pkt_rd E (server_hi E) io (info, cs)"
    using assms(5,6) by (auto simp: handle_pkt_event_def)
  show ?thesis
  proof (rule read_packet [OF assms(1,2) b assms(7,6,8) pre, of "server_hi E" cs])
    fix buf assume "handle_pkt_rd E (server_hi E) io (info, cs)
      = rd_fin (server_hi E) io (canon_pkt p) (set_in_buf buf info, cs)"
    with ev assms(3,5) show ?thesis
      by (auto simp: server_hi_def handle_pkt_rd_fin_def handle_rsp_rd_fin_def set_in_buf_def Let_def)
  qed (use assms(8,9) in auto)
qed

definition bye :: middfs_packet where
  "bye = \<lparr>mpkt_magic = MPKT_MAGIC, mpkt_type = MPKT_DISCONNECT, mpkt_un = Pkt_zero\<rparr>"

definition almost_bye :: middfs_sockinfo where
  "almost_bye = talker\<lparr>si_revents := 1, si_in := (si_in talker)\<lparr>se_buf :=
     \<lparr>buf_begin = Live [0, 0, 7, 8, 0, 0, 0, 0], buf_ptr = 7, buf_end = 8\<rparr>\<rparr>\<rparr>"

theorem server_aborts_on_packet_witness:
  "handle_pkt_event good_env (server_hi good_env) (quiet_io\<lparr>io_read := \<lambda>n. if n = 0 then Some [] else Some [2]\<rparr>)
     (almost_bye, two_clients) = None"
proof (rule server_aborts_on_packet [where p = bye])
  have e: "enc_pkt bye = [0, 0, 7, 8, 0, 0, 0, 2]" unfolding bye_def by code_simp
  then show "pkt_ok bye"
    by (simp add: pkt_ok_def) (simp add: bye_def mpkt_ok_def mpkt_of_code_def)
  show "alloc_for good_env bye" by (simp add: alloc_for_def alloc_upto_def good_env_def)
  show "mpkt_type bye = MPKT_DISCONNECT \<or> mpkt_type bye = MPKT_RESPONSE" by (simp add: bye_def)
  show "sockinfo_live almost_bye"
    by (simp add: almost_bye_def talker_def sockinfo_live_def bufs_ok_def live_fds_def buffer_ok_def
        middfs_sockend_init_def buffer_init_def PTRDIFF_MAX_def)
  show "si_state almost_bye = MSS_REQRD" "si_revents almost_bye AND POLLIN \<noteq> 0"
    by (simp_all add: almost_bye_def talker_def POLLIN_def)
  show "read_ok (io_read (quiet_io\<lparr>io_read := \<lambda>n. if n = 0 then Some [] else Some [2]\<rparr>))"
    by (auto simp: read_ok_def Suc_le_eq unat_gt_0 split: if_splits)
  have c: "contents (se_buf (si_in almost_bye)) = [0, 0, 7, 8, 0, 0, 0]"
    by (simp add: almost_bye_def contents_def block_mem_def)
  then show "length (contents (se_buf (si_in almost_bye))) < length (enc_pkt bye)" by (simp add: e)
  have "read_result good_env (\<lambda>n. if n = 0 then Some [] else Some [2]) (se_buf (si_in almost_bye)) = [2]"
    by (simp add: read_result_def buffer_increase_def buffer_rem_def almost_bye_def)
  with c e show "contents (se_buf (si_in almost_bye)) @
      read_result good_env (io_read (quiet_io\<lparr>io_read := \<lambda>n. if n = 0 then Some [] else Some [2]\<rparr>))
        (se_buf (si_in almost_bye)) = enc_pkt bye"
    by simp
qed

section \<open>Forwarding\<close>

definition ok_pkt :: middfs_packet where
  "ok_pkt = \<lparr>mpkt_magic = MPKT_MAGIC, mpkt_type = MPKT_RESPONSE,
     mpkt_un = Pkt_response \<lparr>mrsp_type = MRSP_OK, mrsp_un = Rsp_zero\<rparr>\<rparr>"

definition sample_session :: session where
  "sample_session =
     \<lparr>ss_env = good_env, ss_client = 4, ss_peer = 5, ss_req = sample_pkt,
      ss_rsp = ok_pkt\<rparr>"

lemma sample_session_ok [simp]: "session_ok sample_session" "forwarded sample_session"
proof -
  have e: "enc_pkt ok_pkt = [0, 0, 7, 8, 0, 0, 0, 4, 0, 0, 0, 0]" unfolding ok_pkt_def by code_simp
  then have "pkt_ok ok_pkt"
    by (simp add: pkt_ok_def)
      (simp add: ok_pkt_def mpkt_ok_def mpkt_of_code_def get_response_def old_response_def response_ok_def)
  moreover have "alloc_for good_env ok_pkt" by (simp add: alloc_for_def alloc_upto_def good_env_def)
  ultimately show "session_ok sample_session"
    by (simp add: session_ok_def sample_session_def) (simp add: ok_pkt_def)
  show "forwarded sample_session"
    by (simp add: forwarded_def request_of_def sample_session_def)
      (simp add: sample_write_def sample_rsrc_def)
qed

lemma sample_online [simp]: "online sample_session two_clients"
  by (simp add: online_def request_of_def sample_session_def)
    (simp add: sample_write_def sample_rsrc_def)

lemma sample_relay: "relay sample_session HS_SUC 0 (fresh_info 4) no_bytes"
  by (rule relay.accepted [of _ "fresh_info 4"])
    (simp add: sample_session_def middfs_sockinfo_init_def fresh_info_def)

text \<open>Forwarding is transparent. Whatever pieces the network cuts the bytes into, at every
  moment what the server has sent to the owner is a prefix of the request, and what it has sent
  to the client that asked is a prefix of the owner's response; it never sends the owner more
  than it received, nor the client. When the session is closed as finished, both have
  received exactly these bytes.\<close>

theorem relay_transparent:
  assumes "session_ok S" "forwarded S" "relay S st n info h"
  shows "prefix (sent h (ss_peer S)) (rcvd h (ss_client S)) \<and>
    prefix (rcvd h (ss_client S)) (enc_pkt (ss_req S)) \<and>
    prefix (sent h (ss_client S)) (rcvd h (ss_peer S)) \<and>
    prefix (rcvd h (ss_peer S)) (enc_pkt (ss_rsp S)) \<and>
    (si_state info = MSS_CLOSED \<longrightarrow>
       sent h (ss_peer S) = enc_pkt (ss_req S) \<and> sent h (ss_client S) = enc_pkt (ss_rsp S))"
  using relay_in_order [OF assms] relay_prefixes [OF assms(3)] by (auto simp: in_order_def)

theorem relay_transparent_witness:
  "\<exists>n info h. relay sample_session HS_DEL n info h \<and> sent h 5 = enc_pkt sample_pkt \<and>
     sent h 4 = enc_pkt ok_pkt"
proof -
  have "alloc_upto (ss_env sample_session) k" for k
    by (simp add: alloc_upto_def sample_session_def good_env_def)
  then obtain n info h where r: "relay sample_session HS_DEL n info h" "si_state info = MSS_CLOSED"
    using relay_completes [OF sample_session_ok sample_online _ sample_relay] by blast
  from relay_transparent [OF sample_session_ok r(1)] r show ?thesis
    by (auto simp: sample_session_def)
qed

text \<open>C27: In a session with honest clients nothing asserts or aborts: each event the socket waits
  for is handled, and the socket is removed before the response is delivered only for one of
  the reasons in \<open>trouble\<close>: the data ended, a write failed, the owner cannot be reached, or
  memory ran out.\<close>

theorem relay_never_stuck:
  assumes "session_ok S" "forwarded S" "relay S HS_SUC n info h" "e AND awaited info \<noteq> 0"
    "honest S cs io (observe (ss_env S) io info h)" "si_state info = MSS_REQRD \<longrightarrow> online S cs"
  shows "\<exists>st info'. relay_event S cs e io info = Some (st, info', cs) \<and>
    (st = HS_SUC \<and> sockinfo_live info' \<or>
     st = HS_DEL \<and> (si_state info' = MSS_CLOSED \<or> trouble S cs io info))"
proof -
  have "sockinfo_live info" "stage_ok S info h" "n \<le> work S info h"
    using relay_status [OF assms(1-3)] by auto
  from session_event [OF assms(1,2) this(1,2) assms(4,5) this(3) assms(6)] show ?thesis
    by (auto simp: event_good_def good_step_def)
qed

theorem relay_never_stuck_witness:
  "\<exists>st info'. relay_event sample_session two_clients 1 (byte_io sample_session 0 quiet_io) (fresh_info 4)
       = Some (st, info', two_clients) \<and>
     (st = HS_SUC \<and> sockinfo_live info' \<or>
      st = HS_DEL \<and> (si_state info' = MSS_CLOSED \<or>
        trouble sample_session two_clients (byte_io sample_session 0 quiet_io) (fresh_info 4)))"
proof -
  let ?S = sample_session
  have r: "read_result good_env (io_read (byte_io ?S 0 quiet_io)) (se_buf (si_in (fresh_info 4))) = [0]"
    by (rule byte_read)
      (simp_all add: fresh_info_def middfs_sockend_init_def alloc_upto_def good_env_def)
  have "honest ?S two_clients (byte_io ?S 0 quiet_io) (observe (ss_env ?S) (byte_io ?S 0 quiet_io) (fresh_info 4) no_bytes)"
    using byte_io_ok(3) [of ?S 0 quiet_io] r
    by (auto simp: honest_def byte_io_ok(1,2,4) observe_def polls_in_def no_bytes_def Let_def)
      (simp_all add: sample_session_def sample_enc)
  from relay_never_stuck [OF sample_session_ok sample_relay _ this, of 1] show ?thesis
    by (simp add: awaited_def polls_in_def POLLIN_def)
qed

text \<open>C28: A session has a bounded number of events: each moves at least one byte or turns the
  socket around, so none goes on for ever.\<close>

theorem relay_bounded:
  assumes "session_ok S" "forwarded S" "relay S st n info h"
  shows "n \<le> 2 * length (enc_pkt (ss_req S)) + 2 * length (enc_pkt (ss_rsp S)) + 3"
proof -
  note st = relay_status [OF assms]
  from work_bound [OF relay_in_order [OF assms]] relay_prefixes [OF assms(3)] st show ?thesis by auto
qed

theorem relay_bounded_witness:
  "\<exists>n info h. relay sample_session HS_DEL n info h \<and> n \<le> 109"
proof -
  have "alloc_upto (ss_env sample_session) k" for k
    by (simp add: alloc_upto_def sample_session_def good_env_def)
  then obtain n info h where r: "relay sample_session HS_DEL n info h"
    using relay_completes [OF sample_session_ok sample_online _ sample_relay] by blast
  have "length (enc_pkt ok_pkt) = 12" "length (enc_pkt sample_pkt) = 41" by code_simp+
  with relay_bounded [OF sample_session_ok r] r show ?thesis by (auto simp: sample_session_def)
qed

text \<open>From every point of a session that goes on, the response can still be delivered: with a
  network that keeps moving bytes, and memory for the two packets, events lead to the closed
  state.\<close>

theorem relay_can_finish:
  assumes "session_ok S" "forwarded S" "relay S HS_SUC n info h"
    "online S cs" "alloc_upto (ss_env S) (2 * (length (enc_pkt (ss_req S)) + length (enc_pkt (ss_rsp S))))"
  shows "\<exists>m info' h'. relay S HS_DEL m info' h' \<and> si_state info' = MSS_CLOSED \<and>
    sent h' (ss_client S) = enc_pkt (ss_rsp S)"
proof -
  obtain m info' h' where r: "relay S HS_DEL m info' h'" "si_state info' = MSS_CLOSED"
    using relay_completes [OF assms(1,2,4,5,3)] by blast
  with relay_finished [OF assms(1,2) r] show ?thesis by blast
qed

theorem relay_can_finish_witness:
  "\<exists>m info' h'. relay sample_session HS_DEL m info' h' \<and> si_state info' = MSS_CLOSED \<and>
    sent h' 4 = enc_pkt ok_pkt"
proof -
  have "alloc_upto (ss_env sample_session) k" for k
    by (simp add: alloc_upto_def sample_session_def good_env_def)
  from relay_can_finish [OF sample_session_ok sample_relay sample_online this] show ?thesis
    by (simp add: sample_session_def)
qed

end
