(* ===== verification/Server_Main.thy ===== *)
theory Server_Main
  imports Server_Handler Middfs_Serve
begin

text \<open>
  The server program, \<open>server/middfs-server.c\<close>: its options, and its life from an empty socket
  table and client list through the rounds of \<open>server_loop\<close>.
\<close>

definition LISTEN_PORT_DEFAULT_STR :: string where "LISTEN_PORT_DEFAULT_STR = ''4321''"

text \<open>
  The options as \<open>getopt\<close> returns them, each with its argument; the result is the port and
  whether all options were valid.
\<close>

fun parse_opts :: "(char \<times> string) list \<Rightarrow> string \<times> bool \<Rightarrow> string \<times> bool" where
  "parse_opts [] s = s"
| "parse_opts ((c, arg) # opts) (listen_port, optvalid) =
     parse_opts opts (if c = CHR ''p'' then (arg, optvalid) else (listen_port, False))"

text \<open>
  \<open>main\<close>: opts and nargs are what \<open>getopt\<close> returns and leaves, start what the calls of
  \<open>server_start\<close> return for a port and a backlog, rounds what the network brings to each round.
  The result is the exit code; a server that runs for ever, or is stopped, is None.
\<close>

definition server_main ::
    "cenv \<Rightarrow> (char \<times> string) list \<Rightarrow> int \<Rightarrow> (string \<Rightarrow> int \<Rightarrow> start_io) \<Rightarrow> (int \<Rightarrow> bool) \<Rightarrow>
     (nat \<Rightarrow> round) \<Rightarrow> int option" where
  "server_main E opts nargs start cl rounds =
     (let (listen_port, optvalid) = parse_opts opts (LISTEN_PORT_DEFAULT_STR, True) in
      if \<not> optvalid then Some 1
      else if nargs \<noteq> 1 then Some 1
      else do {
        (r, socks) \<leftarrow> server_start E (start listen_port 10) middfs_socks_init;
        if r < 0 then Some 2
        else do {
          (socks1, clients1) \<leftarrow> serve_rounds E (server_hi E) cl rounds 0 (socks, clients_init);
          (r, socks2) \<leftarrow> middfs_socks_delete cl socks1;
          Some (if r < 0 then 5 else 0)
        }
      })"

end
