(* ===== verification/Run_Properties.thy ===== *)
theory Run_Properties
  imports Server_Properties Server_Main
begin

text \<open>
  The life of the server program: what holds from its start on, through any number of rounds.
\<close>

definition good_start :: start_io where
  "good_start =
     \<lparr>st_socket = 3, st_setsockopt = True, st_getaddrinfo = True, st_bind = True, st_listen = True,
      st_close = \<lambda>_. True, st_junk = closed_info\<rparr>"

text \<open>C19: The invariant from the start. A server that \<open>server_start\<close> has set up, with no client
  registered, has a well-formed socket table and a sorted and filled client list after every
  number of rounds of \<open>server_loop\<close>, whatever connections, packets, bytes and errors the rounds
  bring.\<close>

theorem server_run_invariant:
  assumes "server_start E io middfs_socks_init = Some (0, socks)"
    "serves E (server_hi E) cl (socks, clients_init) (socks', cs')"
  shows "socks_ok socks' \<and> clients_ok cs'"
  using server.serves_keep [OF assms(2)] server_start_ok [OF assms(1)] by simp

definition good_round :: round where
  "good_round = \<lparr>rn_poll = \<lambda>pfds. Some (replicate (length pfds) 1), rn_ios = \<lambda>_. quiet_io\<rparr>"

theorem server_run_invariant_witness:
  "\<exists>socks socks' cs'. server_start good_env good_start middfs_socks_init = Some (0, socks) \<and>
    serves good_env (server_hi good_env) (\<lambda>_. True) (socks, clients_init) (socks', cs') \<and>
    length (infos socks') = 2 \<and> socks_ok socks' \<and> clients_ok cs'"
proof -
  let ?loop = "server_loop good_env (server_hi good_env) (rn_poll good_round) (\<lambda>_. True) (rn_ios good_round)"
  have "map_option (\<lambda>(r, s). (r, length (infos (fst s)))) (do {
      (r, socks) \<leftarrow> server_start good_env good_start middfs_socks_init;
      if r = 0 then ?loop (socks, clients_init) else None }) = Some (0, 2)"
    by code_simp
  then obtain socks socks' cs' where run: "server_start good_env good_start middfs_socks_init = Some (0, socks)"
    "?loop (socks, clients_init) = Some (0, socks', cs')" "length (infos socks') = 2"
    by (auto simp: bind_Some_iff split: if_splits)
  have "round_ok good_round" by (simp add: round_ok_def good_round_def poll_ok_def)
  with run(2) have "serves good_env (server_hi good_env) (\<lambda>_. True) (socks, clients_init) (socks', cs')"
    by (blast intro: serves.intros)
  with server_run_invariant [OF run(1) this] run show ?thesis by blast
qed

end
