(* ===== verification/Sessions.thy ===== *)
theory Sessions
  imports Relay
begin

text \<open>
  Sessions in the server's loop. The steps of \<open>Relay\<close> are those of one socket; here the
  socket is an entry of the server's table, next to any number of other sockets, and the step
  is a round of \<open>server_loop\<close>. What a round does to the entry is a step of its session or
  nothing, so that all sessions of a server proceed as if each were alone.
\<close>

section \<open>A round, from the view of one entry\<close>

lemma handle_events_append:
  "handle_events E hi ios (js @ ks) s =
     (case handle_events E hi ios js s of
        None \<Rightarrow> None
      | Some (r, s') \<Rightarrow> if r < 0 then Some (r, s') else handle_events E hi ios ks s')"
proof (induction js arbitrary: s)
  case (Cons j js)
  then show ?case
    by (cases s) (auto simp: case_prod_beta split: bind_splits option.splits)
qed simp

lemma loop_events:
  assumes "socks_ok socks" "poll_ok pol" "server_loop E hi pol cl ios (socks, g) = Some (r, socks', g')" "0 \<le> r"
  obtains n left revs where "middfs_socks_poll E cl pol socks = Some (n, left)" "socks_ok left"
    "length (infos left) = length (infos socks)"
    "\<And>i. i < length (infos socks) \<Longrightarrow> delivered revs (rank (infos socks) i) (infos socks ! i) (infos left ! i)"
    "handle_events E hi ios [0..<length (infos left)] (left, g) = Some (r, socks', g')"
proof (rule socks_poll_cases [OF assms(1,2), of E cl])
  fix s1 assume "middfs_socks_poll E cl pol socks = Some (-1, s1)"
  with assms(3,4) show thesis by (simp add: server_loop_def)
next
  fix n s1 revs assume p: "middfs_socks_poll E cl pol socks = Some (n, s1)" "0 \<le> n" "socks_ok s1"
    "length (infos s1) = length (infos socks)"
    "\<And>i. i < length (infos socks) \<Longrightarrow> delivered revs (rank (infos socks) i) (infos socks ! i) (infos s1 ! i)"
  have t: "table_ok s1" using p(3) by (simp add: socks_ok_def)
  have "nat (sk_count s1) = length (infos s1)" by (rule table_okE [OF t]) linarith
  with assms(3) p(1,2) have "handle_events E hi ios [0..<length (infos s1)] (s1, g) = Some (r, socks', g')"
    by (simp add: server_loop_def)
  with p show thesis by (intro that)
qed

text \<open>
  The event of entry i is handled with a global state that the handlers before it left, and
  the handlers after it do not touch the entry.
\<close>

context packet_handler
begin

lemma event_among:
  assumes run: "handle_events E hi ios [0..<length (infos socks)] (socks, g) = Some (r, socks', g')" "0 \<le> r"
    and ok: "socks_ok socks" "ginv g" "\<And>i. read_ok (io_read (ios i))" and i: "i < length (infos socks)"
  obtains st info1 new g0 g1 where "ginv g0" "ginv g'" "socks_ok socks'"
    "length (infos socks) \<le> length (infos socks')"
    "handle_socket_event E hi (ios i) (infos socks ! i, g0) (io_junk (ios i)) = Some (st, info1, new, g1)"
    "if st = HS_DEL then sockinfo_dead (infos socks' ! i) else infos socks' ! i = info1"
    "st = HS_NEW \<Longrightarrow> \<exists>j \<ge> length (infos socks). j < length (infos socks') \<and> infos socks' ! j = new"
    "\<exists>s2. handle_events E hi ios [Suc i..<length (infos socks)] (s2, g1) = Some (r, socks', g') \<and>
       socks_ok s2 \<and> length (infos socks) \<le> length (infos s2)"
proof -
  let ?n = "length (infos socks)"
  have "[0..<?n] = [0..<i] @ i # [Suc i..<?n]"
    using i upt_add_eq_append [of 0 i "?n - i"] by (simp add: upt_conv_Cons)
  with run obtain rA sA gA where
    A: "handle_events E hi ios [0..<i] (socks, g) = Some (rA, sA, gA)"
    and B: "handle_events E hi ios (i # [Suc i..<?n]) (sA, gA) = Some (r, socks', g')"
    by (auto simp: handle_events_append simp del: handle_events.simps split: option.splits if_splits)
  have keepA: "socks_ok sA \<and> ginv gA \<and> ?n \<le> length (infos sA) \<and>
      (\<forall>j < ?n. j \<notin> set [0..<i] \<longrightarrow> infos sA ! j = infos socks ! j)"
    using i by (intro events_keep [OF A ok(1,2)] ok(3)) auto
  then have iA: "i < length (infos sA)" "infos sA ! i = infos socks ! i" using i by auto
  show thesis
  proof (rule event_step [OF B _ _ ok(3) iA(1)])
    show "socks_ok sA" "ginv gA" using keepA by simp_all
  next
    fix st info1 new g1 go s2
    assume ev: "handle_socket_event E hi (ios i) (infos sA ! i, gA) (io_junk (ios i)) = Some (st, info1, new, g1)"
      and s2: "ginv g1" "socks_ok s2" "length (infos sA) \<le> length (infos s2)"
      and at_i: "if st = HS_DEL then sockinfo_dead (infos s2 ! i) else infos s2 ! i = info1"
      and grown: "st = HS_NEW \<Longrightarrow> go \<Longrightarrow> infos s2 = (infos sA)[i := info1] @ [new]"
      and rest: "(if go then handle_events E hi ios [Suc i..<?n] (s2, g1) else Some (-1, s2, g1)) = Some (r, socks', g')"
    from rest run(2) have go: "go" and C: "handle_events E hi ios [Suc i..<?n] (s2, g1) = Some (r, socks', g')"
      by (simp_all split: if_splits)
    have keepC: "socks_ok socks' \<and> ginv g' \<and> length (infos s2) \<le> length (infos socks') \<and>
        (\<forall>j < length (infos s2). j \<notin> set [Suc i..<?n] \<longrightarrow> infos socks' ! j = infos s2 ! j)"
      using keepA s2 by (intro events_keep [OF C s2(2,1)] ok(3)) auto
    have i2: "infos socks' ! i = infos s2 ! i" using keepA keepC s2(3) i by auto
    have "\<exists>j \<ge> ?n. j < length (infos socks') \<and> infos socks' ! j = new" if "st = HS_NEW"
    proof (intro exI [of _ "length (infos sA)"] conjI)
      have g: "infos s2 = (infos sA)[i := info1] @ [new]" using grown that go by simp
      then have len: "length (infos s2) = Suc (length (infos sA))" by simp
      have last: "infos s2 ! length (infos sA) = new" unfolding g by (simp add: nth_append)
      show "?n \<le> length (infos sA)" "length (infos sA) < length (infos socks')" using keepA keepC len by auto
      then have "length (infos sA) \<notin> set [Suc i..<?n]" by auto
      then show "infos socks' ! length (infos sA) = new" using keepC last len by auto
    qed
    moreover have "\<exists>s2. handle_events E hi ios [Suc i..<?n] (s2, g1) = Some (r, socks', g') \<and>
        socks_ok s2 \<and> ?n \<le> length (infos s2)"
      using C s2(2,3) keepA by (intro exI [of _ s2]) auto
    ultimately show thesis using keepA keepC s2 ev at_i i2 iA by (intro that [of gA st info1 new g1]) auto
  qed
qed

end

text \<open>A closed entry stays closed.\<close>

lemma dead_event:
  assumes "sockinfo_dead info" "handle_socket_event E hi io (info, g) junk = Some (st, info', new, g')"
  shows "st = HS_SUC \<and> info' = info"
  using assms dead_not_open by (auto simp: handle_socket_event_def)

section \<open>Sessions hosted by the loop\<close>

text \<open>
  What a round adds to the history of the session at entry i of the table that \<open>poll\<close> left, and
  what the network owes the session in it: if the entry is still open and an event is reported
  for it, it is the awaited one, and the calls for it are honest, with the addresses that are
  registered for the owner at the end of the round (none is forgotten in a round).
\<close>

definition has_event :: "middfs_sockinfo \<Rightarrow> bool" where
  "has_event info \<longleftrightarrow> middfs_sockinfo_isopen info \<and> si_revents info \<noteq> 0"

definition round_net :: "session \<Rightarrow> nat \<Rightarrow> round \<Rightarrow> middfs_socks \<Rightarrow> net \<Rightarrow> net" where
  "round_net S i rd left h =
     (if has_event (infos left ! i) then observe (ss_env S) (rn_ios rd i) (infos left ! i) h else h)"

definition fair_round :: "session \<Rightarrow> nat \<Rightarrow> round \<Rightarrow> middfs_socks \<Rightarrow> clients \<Rightarrow> net \<Rightarrow> bool" where
  "fair_round S i rd left cs h \<longleftrightarrow>
     round_ok rd \<and>
     (has_event (infos left ! i) \<longrightarrow>
        si_revents (infos left ! i) AND awaited (infos left ! i) \<noteq> 0 \<and>
        honest S cs (rn_ios rd i) (round_net S i rd left h))"

text \<open>
  The server with a session at entry i, and the session's history: from a table in which the
  entry is the socket of an accepted connection, through rounds of the loop. The other entries
  of the table, and their events, are arbitrary.
\<close>

inductive hosts :: "session \<Rightarrow> nat \<Rightarrow> (int \<Rightarrow> bool) \<Rightarrow> middfs_socks \<Rightarrow> clients \<Rightarrow> net \<Rightarrow> bool"
  for S i cl where
  begins: "socks_ok socks \<Longrightarrow> i < length (infos socks) \<Longrightarrow>
    middfs_sockinfo_init MFD_PKT_IN (ss_client S) (-1) junk = Some (infos socks ! i) \<Longrightarrow>
    online S cs \<Longrightarrow> hosts S i cl socks cs no_bytes"
| goes_on: "hosts S i cl socks cs h \<Longrightarrow>
    middfs_socks_poll (ss_env S) cl (rn_poll rd) socks = Some (n, left) \<Longrightarrow>
    fair_round S i rd left cs' h \<Longrightarrow>
    server_loop (ss_env S) (server_hi (ss_env S)) (rn_poll rd) cl (rn_ios rd) (socks, cs)
      = Some (r, socks', cs') \<Longrightarrow> 0 \<le> r \<Longrightarrow>
    hosts S i cl socks' cs' (round_net S i rd left h)"

lemma online_knows:
  "online S cs \<longleftrightarrow> (\<exists>u. cl_username u = mr_owner (mreq_rsrc (request_of S)) \<and> knows {u} cs)"
  by (auto simp: online_def knows_def image_iff) metis

lemma relay_live:
  assumes "session_ok S" "forwarded S" "relay S HS_SUC n info h"
  shows "sockinfo_live info" "middfs_sockinfo_isopen info" "si_type info = MFD_PKT_IN"
proof -
  have r: "sockinfo_live info" "stage_ok S info h" using relay_status [OF assms] by auto
  then show "sockinfo_live info" "middfs_sockinfo_isopen info" by (simp_all add: live_isopen)
  show "si_type info = MFD_PKT_IN"
    using live_cases [OF r(1)] r(2) by (auto simp: stage_ok_def Let_def)
qed

text \<open>The event of an open entry is an event of the session.\<close>

lemma relay_socket_event:
  assumes S: "session_ok S" "forwarded S" and rel: "relay S HS_SUC n info h" and cs: "online S cs"
    and ev: "handle_socket_event (ss_env S) (server_hi (ss_env S)) io (info, cs) junk = Some (st, info', new, cs')"
    and fair: "si_revents info \<noteq> 0 \<Longrightarrow> si_revents info AND awaited info \<noteq> 0 \<and>
      honest S cs io (observe (ss_env S) io info h)"
  shows "\<exists>m. relay S st m info' (if si_revents info = 0 then h else observe (ss_env S) io info h)"
proof -
  note live = relay_live [OF S rel]
  have ev': "handle_pkt_event (ss_env S) (server_hi (ss_env S)) io (info, cs) = Some (st, info', cs')"
    using ev live by (auto simp: handle_socket_event_def bind_Some_iff)
  show ?thesis
  proof (cases "si_revents info = 0")
    case True
    with ev' have "st = HS_SUC \<and> info' = info" by (auto simp: handle_pkt_event_def)
    with rel True show ?thesis by auto
  next
    case False
    have "relay_event S cs (si_revents info) io info = Some (st, info', cs')"
      using ev' by (simp add: relay_event_def)
    from relay.event [OF rel _ _ this refl] fair [OF False] cs False show ?thesis by auto
  qed
qed

text \<open>The clients that are registered when an event is handled are so at the end of the round.\<close>

lemma users_grow:
  assumes "sockinfo_ok x" "clients_ok g0" "\<And>i. read_ok (io_read (ios i))" "socks_ok s2" "\<forall>j \<in> set js. j < length (infos s2)"
    "handle_socket_event E (server_hi E) (ios i) (x, g0) junk = Some (st, x', new, g1)"
    "handle_events E (server_hi E) ios js (s2, g1) = Some (r, socks', g')"
  shows "set (users g0) \<subseteq> set (users g')"
proof -
  have "knows (set (users g0)) g0" using assms(2) by (simp add: knows_def)
  from register.socket_event [OF assms(1) this assms(3,6)] have "knows (set (users g0)) g1" by simp
  from register.events_keep [OF assms(7,4) this assms(3,5)] show ?thesis by (simp add: knows_def)
qed

lemma hosts_relay:
  assumes S: "session_ok S" "forwarded S" and "hosts S i cl socks cs h"
  shows "socks_ok socks \<and> i < length (infos socks) \<and> online S cs \<and>
    (\<exists>st n info. relay S st n info h \<and>
       (st = HS_SUC \<and> infos socks ! i = info \<or> sockinfo_dead (infos socks ! i)))"
  using assms(3)
proof (induction rule: hosts.induct)
  case (begins socks junk cs)
  from relay.accepted [OF begins(3)] begins show ?case by blast
next
  case (goes_on socks cs h rd n left cs' r socks')
  let ?E = "ss_env S" and ?ios = "rn_ios rd" and ?x = "infos left ! i"
  have ok: "socks_ok socks" "i < length (infos socks)" using goes_on.IH by simp_all
  obtain st0 n0 info0 where rel0: "relay S st0 n0 info0 h"
    "st0 = HS_SUC \<and> infos socks ! i = info0 \<or> sockinfo_dead (infos socks ! i)"
    using goes_on.IH by blast
  obtain u where u: "cl_username u = mr_owner (mreq_rsrc (request_of S))" "knows {u} cs"
    using goes_on.IH by (auto simp: online_knows)
  have rd: "poll_ok (rn_poll rd)" "\<And>i. read_ok (io_read (?ios i))"
    using goes_on.hyps(3) by (simp_all add: fair_round_def round_ok_def)
  obtain m left' revs where p': "middfs_socks_poll ?E cl (rn_poll rd) socks = Some (m, left')"
    "socks_ok left'" "length (infos left') = length (infos socks)"
    "\<And>i. i < length (infos socks) \<Longrightarrow>
       delivered revs (rank (infos socks) i) (infos socks ! i) (infos left' ! i)"
    "handle_events ?E (server_hi ?E) ?ios [0..<length (infos left')] (left', cs) = Some (r, socks', cs')"
    by (rule loop_events [OF ok(1) rd(1) goes_on.hyps(4,5)], rule that)
  then have "left' = left" using goes_on.hyps(2) by simp
  note p = p' [unfolded this]
  have i: "i < length (infos left)" using ok p by simp
  obtain st x' new g0 g1 where ev: "knows {u} g0" "knows {u} cs'" "socks_ok socks'"
    "length (infos left) \<le> length (infos socks')"
    "handle_socket_event ?E (server_hi ?E) (?ios i) (?x, g0) (io_junk (?ios i)) = Some (st, x', new, g1)"
    "if st = HS_DEL then sockinfo_dead (infos socks' ! i) else infos socks' ! i = x'"
    "\<exists>s2. handle_events ?E (server_hi ?E) ?ios [Suc i..<length (infos left)] (s2, g1) = Some (r, socks', cs') \<and>
       socks_ok s2 \<and> length (infos left) \<le> length (infos s2)"
    by (rule register.event_among [OF p(5) goes_on.hyps(5) p(2) u(2) rd(2) i])
  have "sockinfo_ok ?x" using p(2) i by (simp add: socks_ok_def list_all_length)
  moreover have "clients_ok g0" using ev(1) by (simp add: knows_def)
  moreover obtain s2 where "socks_ok s2" "\<forall>j \<in> set [Suc i..<length (infos left)]. j < length (infos s2)"
    "handle_events ?E (server_hi ?E) ?ios [Suc i..<length (infos left)] (s2, g1) = Some (r, socks', cs')"
    using ev(7) by auto
  ultimately have grow: "set (users g0) \<subseteq> set (users cs')"
    by (intro users_grow [where ios = ?ios and i = i, OF _ _ _ _ _ ev(5)] rd(2))
  have online: "online S g0" "online S cs'" using u ev(1,2) by (auto simp: online_knows)
  have "\<exists>st n info. relay S st n info (round_net S i rd left h) \<and>
      (st = HS_SUC \<and> infos socks' ! i = info \<or> sockinfo_dead (infos socks' ! i))"
  proof (cases "sockinfo_dead ?x")
    case True
    then have "round_net S i rd left h = h" by (simp add: round_net_def has_event_def dead_not_open)
    moreover have "sockinfo_dead (infos socks' ! i)" using dead_event [OF True ev(5)] ev(6) True by simp
    ultimately show ?thesis using rel0(1) by auto
  next
    case False
    then have "\<not> sockinfo_dead (infos socks ! i)"
      using p(4) [OF ok(2)] live_not_dead [of "infos socks ! i"] by (auto simp: delivered_def split: if_splits)
    then have info0: "relay S HS_SUC n0 (infos socks ! i) h" using rel0 by auto
    then have x: "relay S HS_SUC n0 ?x h"
      using p(4) [OF ok(2)] relay_live(1) [OF S info0] False relay.marks
      by (auto simp: delivered_def split: if_splits)
    have h: "round_net S i rd left h = (if si_revents ?x = 0 then h else observe ?E (?ios i) ?x h)"
      using relay_live(2) [OF S x] by (simp add: round_net_def has_event_def)
    have "\<exists>m. relay S st m x' (round_net S i rd left h)"
      unfolding h
      by (rule relay_socket_event [OF S x online(1) ev(5)])
        (use goes_on.hyps(3) relay_live(2) [OF S x] honest_fewer [OF _ grow] in
          \<open>auto simp: fair_round_def has_event_def h\<close>)
    then obtain m where m: "relay S st m x' (round_net S i rd left h)" by blast
    with relay_status [OF S m] ev(6) show ?thesis by (auto split: if_splits)
  qed
  with ev(3,4) i online show ?case by auto
qed

lemma hosts_in_order:
  assumes "session_ok S" "forwarded S" "hosts S i cl socks cs h"
  shows "prefix (sent h (ss_peer S)) (rcvd h (ss_client S))" "prefix (rcvd h (ss_client S)) (req_bytes S)"
    "prefix (sent h (ss_client S)) (rcvd h (ss_peer S))" "prefix (rcvd h (ss_peer S)) (rsp_bytes S)"
    "sent h (ss_client S) \<noteq> [] \<Longrightarrow> sent h (ss_peer S) = req_bytes S"
proof -
  obtain st n info where r: "relay S st n info h" using hosts_relay [OF assms] by blast
  from relay_in_order [OF assms(1,2) r] relay_prefixes [OF r]
  show "prefix (sent h (ss_peer S)) (rcvd h (ss_client S))" "prefix (rcvd h (ss_client S)) (req_bytes S)"
    "prefix (sent h (ss_client S)) (rcvd h (ss_peer S))" "prefix (rcvd h (ss_peer S)) (rsp_bytes S)"
    "sent h (ss_client S) \<noteq> [] \<Longrightarrow> sent h (ss_peer S) = req_bytes S"
    by (auto simp: in_order_def)
qed

text \<open>When the client has as many bytes as the response, both have the right ones.\<close>

lemma hosted_complete:
  assumes "session_ok S" "forwarded S" "hosts S i cl socks cs h"
    "length (sent h (ss_client S)) = length (rsp_bytes S)"
  shows "sent h (ss_peer S) = req_bytes S" "sent h (ss_client S) = rsp_bytes S"
proof -
  note ord = hosts_in_order [OF assms(1-3)]
  have "prefix (sent h (ss_client S)) (rsp_bytes S)" using ord(3,4) by auto
  with assms(4) show "sent h (ss_client S) = rsp_bytes S" by (auto simp: prefix_def)
  have "0 < length (rsp_bytes S)" by (simp add: enc_pkt_def)
  with assms(4) have "sent h (ss_client S) \<noteq> []" by auto
  with ord(5) show "sent h (ss_peer S) = req_bytes S" .
qed

text \<open>The connection that a listening socket of the table accepts in a round is a session.\<close>

lemma accept_hosts:
  assumes ok: "socks_ok socks" "online S cs" and fd: "0 \<le> ss_client S" and rd: "round_ok rd"
    and p: "middfs_socks_poll (ss_env S) cl (rn_poll rd) socks = Some (n, left)"
    and j: "j < length (infos left)" "si_type (infos left ! j) = MFD_LSTN"
      "middfs_sockinfo_isopen (infos left ! j)" "si_revents (infos left ! j) AND POLLIN \<noteq> 0"
      "io_accept (rn_ios rd j) = ss_client S"
    and run: "server_loop (ss_env S) (server_hi (ss_env S)) (rn_poll rd) cl (rn_ios rd) (socks, cs)
      = Some (r, socks', cs')" "0 \<le> r"
  shows "\<exists>i \<ge> length (infos socks). hosts S i cl socks' cs' no_bytes"
proof -
  let ?E = "ss_env S" and ?junk = "io_junk (rn_ios rd j)"
  obtain u where u: "cl_username u = mr_owner (mreq_rsrc (request_of S))" "knows {u} cs"
    using ok(2) by (auto simp: online_knows)
  have pr: "poll_ok (rn_poll rd)" "\<And>i. read_ok (io_read (rn_ios rd i))"
    using rd by (simp_all add: round_ok_def)
  obtain m left' revs where p': "middfs_socks_poll ?E cl (rn_poll rd) socks = Some (m, left')"
    "socks_ok left'" "length (infos left') = length (infos socks)"
    "handle_events ?E (server_hi ?E) (rn_ios rd) [0..<length (infos left')] (left', cs) = Some (r, socks', cs')"
    by (rule loop_events [OF ok(1) pr(1) run], rule that)
  then have "left' = left" using p by simp
  note p' = p' [unfolded this]
  obtain info where info: "middfs_sockinfo_init MFD_PKT_IN (ss_client S) (-1) ?junk = Some info"
    using sockinfo_init_live [OF fd, of MFD_PKT_IN "-1" ?junk] by auto
  obtain st x' new g0 g1 where ev: "knows {u} cs'" "socks_ok socks'"
    "handle_socket_event ?E (server_hi ?E) (rn_ios rd j) (infos left ! j, g0) ?junk = Some (st, x', new, g1)"
    "st = HS_NEW \<Longrightarrow> \<exists>i \<ge> length (infos left). i < length (infos socks') \<and> infos socks' ! i = new"
    by (rule register.event_among [OF p'(4) run(2) p'(2) u(2) pr(2) j(1)], rule that)
  have "st = HS_NEW \<and> new = info"
    using ev(3) j fd info by (auto simp: handle_socket_event_def handle_lstn_event_def server_accept_def Let_def)
  with ev(4) obtain i where "length (infos left) \<le> i" "i < length (infos socks')" "infos socks' ! i = info"
    by blast
  with p'(3) ev(2) info u(1) ev(1) hosts.begins [of socks' i S ?junk cs' cl] show ?thesis
    by (auto simp: online_knows)
qed

end
