(* ===== verification/Session_Live.thy ===== *)
theory Session_Live
  imports Sessions
begin

text \<open>
  A session in the loop can be finished: whatever the other sockets of the table are, there are
  rounds, in which \<open>poll\<close> reports nothing but the event this session waits for, after which
  the owner has the request and the client the response.
\<close>

section \<open>A round with one event\<close>

definition one_event :: "nat \<Rightarrow> int \<Rightarrow> sys_poll" where
  "one_event k e = (\<lambda>pfds. Some ((replicate (length pfds) 0)[k := e]))"

lemma one_event_ok: "poll_ok (one_event k e)"
  by (simp add: poll_ok_def one_event_def)

lemma rank_mono:
  assumes "i < j" "j \<le> length xs" "sockinfo_live (xs ! i)"
  shows "rank xs i < rank xs j"
proof -
  have "take j xs ! i = xs ! i" using assms by simp
  with rank_less [of i "take j xs"] assms show ?thesis by (simp add: rank_def min_def)
qed

lemma rank_inj:
  assumes "i < length xs" "j < length xs" "sockinfo_live (xs ! i)" "sockinfo_live (xs ! j)" "i \<noteq> j"
  shows "rank xs i \<noteq> rank xs j"
  using rank_mono [of i j xs] rank_mono [of j i xs] assms by (cases i j rule: linorder_cases) auto

lemma poll_one:
  assumes ok: "socks_ok socks" and mem: "\<And>k. can_alloc E k" and i: "i < length (infos socks)"
    "sockinfo_live (infos socks ! i)" and e: "\<not> bad_event e"
  obtains n left where
    "middfs_socks_poll E cl (one_event (rank (infos socks) i) e) socks = Some (n, left)" "0 \<le> n"
    "socks_ok left" "length (infos left) = length (infos socks)"
    "infos left ! i = (set_mark (rank (infos socks) i) (infos socks ! i))\<lparr>si_revents := e\<rparr>"
    "\<And>j. j < length (infos left) \<Longrightarrow> j \<noteq> i \<Longrightarrow> si_revents (infos left ! j) = 0"
proof (rule socks_poll_cases [OF ok one_event_ok, of E cl "rank (infos socks) i" e])
  let ?n = "length (polled (infos socks))"
  have "?n < 2 ^ 31" using ok length_polled_less by (simp add: socks_ok_def)
  then have "unat (word_of_nat ?n :: u64) * 8 < 2 ^ 64" by (subst unat_of_nat_u64) simp_all
  then have "calloc_ok E (word_of_nat ?n) 8" using mem by (intro calloc_okI) simp_all
  moreover assume "\<not> calloc_ok E (word_of_nat ?n) 8 \<or> one_event (rank (infos socks) i) e (polled (infos socks)) = None"
  ultimately show thesis by (simp add: one_event_def)
next
  let ?k = "rank (infos socks) i" and ?xs = "infos socks"
  fix n left revs
  assume p: "middfs_socks_poll E cl (one_event ?k e) socks = Some (n, left)" "0 \<le> n" "socks_ok left"
    "length (infos left) = length ?xs" "one_event ?k e (polled ?xs) = Some revs"
    "\<And>i. i < length ?xs \<Longrightarrow> delivered revs (rank ?xs i) (?xs ! i) (infos left ! i)"
  have revs: "revs = (replicate (length (polled ?xs)) 0)[?k := e]" using p(5) by (simp add: one_event_def)
  have at_i: "revs ! ?k = e" using rank_less [OF i] by (simp add: revs)
  have others: "si_revents (infos left ! j) = 0" if j: "j < length ?xs" "j \<noteq> i" for j
  proof (cases "sockinfo_live (?xs ! j)")
    case True
    then have "revs ! rank ?xs j = 0"
      using rank_less [OF j(1)] rank_inj [OF j(1) i(1) _ i(2) j(2)] by (simp add: revs)
    with p(6) [OF j(1)] True show ?thesis by (simp add: delivered_def bad_event_def)
  qed (use p(6) [OF j(1)] in \<open>simp add: delivered_def\<close>)
  from p(6) [OF i(1)] i(2) e at_i p(1-4) others show thesis
    by (intro that [of n left]) (simp_all add: delivered_def)
qed

lemma idle_event:
  assumes "sockinfo_ok info" "si_revents info = 0"
  shows "handle_socket_event E hi io (info, g) junk = Some (HS_SUC, info, junk, g)"
proof (cases "sockinfo_live info")
  case True
  with live_cases [OF True] assms(2) show ?thesis
    by (auto simp: handle_socket_event_def handle_pkt_event_def handle_lstn_event_def)
next
  case False
  with assms(1) dead_not_open show ?thesis by (auto simp: sockinfo_ok_def handle_socket_event_def)
qed

text \<open>An event that keeps or removes the socket, among sockets without events.\<close>

lemma event_forward:
  assumes ok: "socks_ok socks" and i: "i < length (infos socks)"
    and ev: "handle_socket_event E hi (ios i) (infos socks ! i, g) (io_junk (ios i)) = Some (st, info1, new, g1)"
    and st: "st = HS_SUC \<and> sockinfo_ok info1 \<or> st = HS_DEL \<and> bufs_ok info1"
  obtains s2 where
    "handle_events E hi ios (i # js) (socks, g) = handle_events E hi ios js (s2, g1)"
    "socks_ok s2" "length (infos s2) = length (infos socks)"
    "\<And>j. j < length (infos socks) \<Longrightarrow> j \<noteq> i \<Longrightarrow> infos s2 ! j = infos socks ! j"
    "if st = HS_DEL then sockinfo_dead (infos s2 ! i) else infos s2 ! i = info1"
proof -
  have t: "table_ok socks" and xs: "\<And>j. j < length (infos socks) \<Longrightarrow> sockinfo_ok (infos socks ! j)"
    using ok by (simp_all add: socks_ok_def list_all_length)
  obtain b where b: "slot_set (sk_sockinfos socks) i (Some info1) = Some b"
    "table_ok (socks\<lparr>sk_sockinfos := b\<rparr>)" "infos (socks\<lparr>sk_sockinfos := b\<rparr>) = (infos socks)[i := info1]"
    by (rule slot_set_info [OF t i])
  let ?s1 = "socks\<lparr>sk_sockinfos := b\<rparr>"
  have "\<exists>s2. apply_status E (ios i) i st new ?s1 = Some (True, s2) \<and> length (infos s2) = length (infos ?s1)"
    using st
  proof
    assume "st = HS_DEL \<and> bufs_ok info1"
    with b i have del: "i < length (infos ?s1)" "bufs_ok (infos ?s1 ! i)" "st = HS_DEL" by simp_all
    obtain s2 x where "middfs_socks_remove (io_close (ios i)) i ?s1 = Some (0, s2)" "infos s2 = (infos ?s1)[i := x]"
      by (rule socks_remove_result [OF b(2) del(1,2)])
    with del(3) show ?thesis by (simp add: apply_status_def)
  qed (simp add: apply_status_def)
  then obtain s2 where ap: "apply_status E (ios i) i st new ?s1 = Some (True, s2)"
    "length (infos s2) = length (infos ?s1)" by blast
  have step: "handle_events E hi ios (i # js) (socks, g) = handle_events E hi ios js (s2, g1)"
    using slot_get_info [OF t i] ev b(1) ap(1) by simp
  have "sockinfo_ok (infos ?s1 ! j)" if "j < length (infos ?s1)" "j \<noteq> i" for j
    using that b(3) xs by simp
  then have keep: "socks_ok s2 \<and>
      (\<forall>j < length (infos ?s1). j \<noteq> i \<longrightarrow> infos s2 ! j = infos ?s1 ! j) \<and>
      (if st = HS_DEL then sockinfo_dead (infos s2 ! i) else infos s2 ! i = infos ?s1 ! i)"
    using apply_status_keeps [OF b(2) _ _ _ ap(1)] st i b(3) by (elim disjE) simp_all
  show thesis
  proof (rule that [OF step])
    show "socks_ok s2" "length (infos s2) = length (infos socks)" using keep ap(2) b(3) by simp_all
    show "infos s2 ! j = infos socks ! j" if "j < length (infos socks)" "j \<noteq> i" for j
      using keep that b(3) by simp
    show "if st = HS_DEL then sockinfo_dead (infos s2 ! i) else infos s2 ! i = info1"
      using keep i b(3) by simp
  qed
qed

lemma idle_events:
  assumes "socks_ok socks" "\<forall>j \<in> set js. j < length (infos socks) \<and> si_revents (infos socks ! j) = 0"
  shows "\<exists>s2. handle_events E hi ios js (socks, g) = Some (0, s2, g) \<and> socks_ok s2 \<and> infos s2 = infos socks"
  using assms
proof (induction js arbitrary: socks)
  case (Cons i js)
  have i: "i < length (infos socks)" "si_revents (infos socks ! i) = 0" using Cons.prems(2) by simp_all
  then have info: "sockinfo_ok (infos socks ! i)" using Cons.prems(1) by (simp add: socks_ok_def list_all_length)
  obtain s2 where s2: "handle_events E hi ios (i # js) (socks, g) = handle_events E hi ios js (s2, g)"
    "socks_ok s2" "length (infos s2) = length (infos socks)"
    "\<And>j. j < length (infos socks) \<Longrightarrow> j \<noteq> i \<Longrightarrow> infos s2 ! j = infos socks ! j"
    "infos s2 ! i = infos socks ! i"
    by (rule event_forward [where ios = ios and i = i and js = js, OF Cons.prems(1) i(1) idle_event [OF info i(2)]]) (use info in auto)
  then have same: "infos s2 = infos socks" by (intro nth_equalityI) metis+
  with Cons.IH [OF s2(2)] Cons.prems(2) s2(1) show ?case by simp
qed simp

lemma one_event_round:
  assumes ok: "socks_ok left" and i: "i < length (infos left)"
    and idle: "\<And>j. j < length (infos left) \<Longrightarrow> j \<noteq> i \<Longrightarrow> si_revents (infos left ! j) = 0"
    and ev: "handle_socket_event E hi (ios i) (infos left ! i, g) (io_junk (ios i)) = Some (st, info1, new, g1)"
    and st: "st = HS_SUC \<and> sockinfo_ok info1 \<or> st = HS_DEL \<and> bufs_ok info1"
  obtains s2 where "handle_events E hi ios [0..<length (infos left)] (left, g) = Some (0, s2, g1)"
    "if st = HS_DEL then sockinfo_dead (infos s2 ! i) else infos s2 ! i = info1"
proof -
  let ?n = "length (infos left)"
  have split: "[0..<?n] = [0..<i] @ i # [Suc i..<?n]"
    using i upt_add_eq_append [of 0 i "?n - i"] by (simp add: upt_conv_Cons)
  obtain sA where A: "handle_events E hi ios [0..<i] (left, g) = Some (0, sA, g)" "socks_ok sA"
    "infos sA = infos left"
    using idle_events [OF ok, of "[0..<i]"] idle i by fastforce
  have iA: "i < length (infos sA)" using i A(3) by simp
  note evA = ev [folded A(3)]
  obtain s2 where s2: "handle_events E hi ios (i # [Suc i..<?n]) (sA, g) = handle_events E hi ios [Suc i..<?n] (s2, g1)"
    "socks_ok s2" "length (infos s2) = ?n"
    "\<And>j. j < ?n \<Longrightarrow> j \<noteq> i \<Longrightarrow> infos s2 ! j = infos left ! j"
    "if st = HS_DEL then sockinfo_dead (infos s2 ! i) else infos s2 ! i = info1"
    by (rule event_forward [where ios = ios and i = i and js = "[Suc i..<?n]", OF A(2) iA evA st]) (use A(3) in auto)
  obtain sC where "handle_events E hi ios [Suc i..<?n] (s2, g1) = Some (0, sC, g1)" "infos sC = infos s2"
    using idle_events [OF s2(2), of "[Suc i..<?n]" E hi ios g1] idle s2(3,4) by fastforce
  with A(1) s2(1,5) show thesis
    by (intro that [of sC]) (simp_all add: split handle_events_append del: handle_events.simps)
qed

section \<open>Finishing a session in the loop\<close>

text \<open>
  One round for an open session: it ends with both sides served, or is open still with more
  bytes moved.
\<close>

lemma hosted_step:
  assumes S: "session_ok S" "forwarded S" and mem: "\<And>k. can_alloc (ss_env S) k"
    and host: "hosts S i cl socks cs h" and open_i: "\<not> sockinfo_dead (infos socks ! i)"
  obtains socks' cs' h' where "hosts S i cl socks' cs' h'"
    "sockinfo_dead (infos socks' ! i) \<and> sent h' (ss_peer S) = req_bytes S \<and> sent h' (ss_client S) = rsp_bytes S \<or>
     \<not> sockinfo_dead (infos socks' ! i) \<and> work S (infos socks ! i) h < work S (infos socks' ! i) h'"
proof -
  let ?E = "ss_env S" and ?x0 = "infos socks ! i" and ?hi = "server_hi (ss_env S)"
  obtain n where H: "socks_ok socks" "i < length (infos socks)" "online S cs" "relay S HS_SUC n ?x0 h"
    using hosts_relay [OF S host] open_i by auto
  let ?k = "rank (infos socks) i" and ?e = "awaited ?x0"
  define x where "x = (set_mark ?k ?x0)\<lparr>si_revents := ?e\<rparr>"
  have rel: "relay S HS_SUC n x h" unfolding x_def by (rule relay.marks [OF H(4)])
  have st: "sockinfo_live x" "stage_ok S x h" using relay_status [OF S rel] by auto
  note live = relay_live [OF S rel]
  have e: "awaited x = ?e" "si_revents x = ?e" "?e AND ?e \<noteq> 0" "?e \<noteq> 0" "\<not> bad_event ?e"
    by (simp_all add: x_def awaited_def bad_event_def POLLIN_def POLLOUT_def POLLERR_def POLLHUP_def)
  have al: "alloc_upto ?E k" for k using mem by (simp add: alloc_upto_def)
  obtain io where io: "honest S cs io (observe ?E io x h)" "\<not> trouble S cs io x"
    using smooth_event [OF S(1) al st] relay_prefixes [OF rel] by blast
  have "event_good S cs ?e io x h (work S x h)"
    using H(3) e io by (intro session_event [OF S st]) simp_all
  then obtain st' info' where run: "relay_event S cs ?e io x = Some (st', info', cs)"
    and good: "good_step S (work S x h) st' info' (observe ?E io x h)"
    and del: "st' = HS_DEL \<longrightarrow> si_state info' = MSS_CLOSED"
    using io(2) by (auto simp: event_good_def)
  let ?rd = "\<lparr>rn_poll = one_event ?k ?e, rn_ios = \<lambda>_. io\<rparr>"
  have live0: "sockinfo_live ?x0" using st(1) by (simp add: x_def)
  obtain m left where p: "middfs_socks_poll ?E cl (one_event ?k ?e) socks = Some (m, left)" "0 \<le> m"
    "socks_ok left" "length (infos left) = length (infos socks)" "infos left ! i = x"
    "\<And>j. j < length (infos left) \<Longrightarrow> j \<noteq> i \<Longrightarrow> si_revents (infos left ! j) = 0"
    by (rule poll_one [OF H(1) mem H(2) live0 e(5), of cl]) (auto simp: x_def intro: that)
  have i: "i < length (infos left)" using H(2) p(4) by simp
  have "handle_pkt_event ?E ?hi io (x, cs) = Some (st', info', cs)"
    using run by (simp add: relay_event_def x_def)
  then have ev: "handle_socket_event ?E ?hi io (infos left ! i, cs) (io_junk io) = Some (st', info', io_junk io, cs)"
    using live p(5) by (simp add: handle_socket_event_def)
  then have "st' = HS_SUC \<and> sockinfo_ok info' \<or> st' = HS_DEL \<and> bufs_ok info'"
    using server.socket_event [of "infos left ! i" cs io ?E "io_junk io" st' info' "io_junk io" cs]
      st(1) p(5) H(3) io(1) good
    by (auto simp: sockinfo_ok_def online_def honest_def good_step_def)
  then obtain socks' where ev': "handle_events ?E ?hi (rn_ios ?rd) [0..<length (infos left)] (left, cs) = Some (0, socks', cs)"
    "if st' = HS_DEL then sockinfo_dead (infos socks' ! i) else infos socks' ! i = info'"
    using one_event_round [where ios = "\<lambda>_. io" and i = i, OF p(3) i p(6) ev] by auto
  have "nat (sk_count left) = length (infos left)"
    by (rule table_okE [of left]) (use p(3) in \<open>auto simp: socks_ok_def\<close>)
  then have loop: "server_loop ?E ?hi (rn_poll ?rd) cl (rn_ios ?rd) (socks, cs) = Some (0, socks', cs)"
    using p(1,2) ev'(1) by (simp add: server_loop_def)
  have h': "round_net S i ?rd left h = observe ?E io x h"
    using live(2) e(2,4) by (simp add: round_net_def has_event_def p(5))
  have fair: "fair_round S i ?rd left cs h"
    using io(1) e h' one_event_ok by (simp add: fair_round_def round_ok_def p(5) honest_def)
  have "hosts S i cl socks' cs (round_net S i ?rd left h)"
    by (rule hosts.goes_on [OF host _ fair loop]) (use p(1) in simp_all)
  then have host': "hosts S i cl socks' cs (observe ?E io x h)" unfolding h' .
  have w: "work S x h = work S ?x0 h" by (simp add: x_def)
  from good show thesis
    unfolding good_step_def
  proof
    assume "st' = HS_SUC \<and> sockinfo_live info' \<and> stage_ok S info' (observe ?E io x h) \<and>
      work S x h < work S info' (observe ?E io x h)"
    with ev'(2) live_not_dead w show thesis by (intro that [OF host']) auto
  next
    assume "st' = HS_DEL \<and> in_order S info' (observe ?E io x h) \<and>
      work S x h \<le> work S info' (observe ?E io x h) + 1"
    with ev'(2) del show thesis by (intro that [OF host']) (auto simp: in_order_def)
  qed
qed

lemma hosted_finishes:
  assumes S: "session_ok S" "forwarded S" and mem: "\<And>k. can_alloc (ss_env S) k"
    and host: "hosts S i cl socks cs h" and open_i: "\<not> sockinfo_dead (infos socks ! i)"
  shows "\<exists>socks' cs' h'. hosts S i cl socks' cs' h' \<and> sockinfo_dead (infos socks' ! i) \<and>
    sent h' (ss_peer S) = req_bytes S \<and> sent h' (ss_client S) = rsp_bytes S"
  using host open_i
proof (induction "2 * length (req_bytes S) + 2 * length (rsp_bytes S) + 2 - work S (infos socks ! i) h"
    arbitrary: socks cs h rule: less_induct)
  case less
  obtain socks' cs' h' where next_step: "hosts S i cl socks' cs' h'"
    "sockinfo_dead (infos socks' ! i) \<and> sent h' (ss_peer S) = req_bytes S \<and> sent h' (ss_client S) = rsp_bytes S \<or>
     \<not> sockinfo_dead (infos socks' ! i) \<and> work S (infos socks ! i) h < work S (infos socks' ! i) h'"
    by (rule hosted_step [OF S mem less.prems])
  from next_step(2) show ?case
  proof
    assume more: "\<not> sockinfo_dead (infos socks' ! i) \<and> work S (infos socks ! i) h < work S (infos socks' ! i) h'"
    obtain n where "relay S HS_SUC n (infos socks' ! i) h'"
      using hosts_relay [OF S next_step(1)] more by auto
    then have "work S (infos socks' ! i) h' \<le> 2 * length (req_bytes S) + 2 * length (rsp_bytes S) + 1"
      using work_bound [OF relay_in_order [OF S]] relay_prefixes by blast
    with more show ?case by (intro less.hyps [OF _ next_step(1)]) auto
  qed (use next_step(1) in blast)
qed

end
