(* ===== verification/Session_Properties.thy ===== *)
theory Session_Properties
  imports Session_Live Run_Properties
begin

text \<open>
  The properties of the server with many connections at once: each request that is forwarded is
  a session of its own, which the loop runs as \<open>Relay\<close> describes it, whatever the other
  sockets of the table do.
\<close>

section \<open>A table with a session in it\<close>

definition busy_table :: middfs_socks where
  "busy_table = table [listener, fresh_info 4, talker]"

lemma busy_hosts:
  assumes "ss_client S = 4" "online S cs"
  shows "hosts S 1 (\<lambda>_. True) busy_table cs no_bytes"
proof (rule hosts.begins [of _ _ _ "fresh_info 4"])
  show "socks_ok busy_table" by (simp add: busy_table_def socks_ok_def sockinfo_ok_def)
  show "1 < length (infos busy_table)" by (simp add: busy_table_def)
  show "middfs_sockinfo_init MFD_PKT_IN (ss_client S) (- 1) (fresh_info 4) = Some (infos busy_table ! 1)"
    by (simp add: busy_table_def assms(1) middfs_sockinfo_init_def fresh_info_def)
qed (fact assms(2))

lemma sample_busy: "hosts sample_session 1 (\<lambda>_. True) busy_table two_clients no_bytes"
  by (rule busy_hosts) (simp_all, simp add: sample_session_def)

lemma busy_open: "\<not> sockinfo_dead (infos busy_table ! 1)"
  using live_not_dead [of "fresh_info 4"] by (simp add: busy_table_def)

lemma sample_memory: "can_alloc (ss_env sample_session) k"
  by (simp add: sample_session_def good_env_def)

lemma busy_finishes:
  obtains socks cs h where "hosts sample_session 1 (\<lambda>_. True) socks cs h" "sockinfo_dead (infos socks ! 1)"
    "sent h 5 = enc_pkt sample_pkt" "sent h 4 = enc_pkt ok_pkt"
  using hosted_finishes [OF sample_session_ok sample_memory sample_busy busy_open]
  by (auto simp: sample_session_def)

section \<open>Properties\<close>

text \<open>C7: Sessions do not disturb one another. After any number of rounds of \<open>server_loop\<close>, on a
  table with any other sockets, with any events and bytes for these, the entry of a session is
  the socket that the session's own events, taken alone, lead to, or it is closed; and the
  bytes that went over its descriptors are those of these events.\<close>

theorem sessions_independent:
  assumes "session_ok S" "forwarded S" "hosts S i cl socks cs h"
  shows "\<exists>st n info. relay S st n info h \<and>
    (st = HS_SUC \<and> infos socks ! i = info \<or> sockinfo_dead (infos socks ! i))"
  using hosts_relay [OF assms] by blast

theorem sessions_independent_witness:
  "\<exists>socks cs h. hosts sample_session 1 (\<lambda>_. True) socks cs h \<and> sent h 4 = enc_pkt ok_pkt \<and>
    (\<exists>st n info. relay sample_session st n info h)"
proof -
  obtain socks cs h where "hosts sample_session 1 (\<lambda>_. True) socks cs h" "sent h 4 = enc_pkt ok_pkt"
    by (rule busy_finishes)
  with sessions_independent [OF sample_session_ok] show ?thesis by blast
qed

text \<open>C8: Forwarding by the running server is transparent, and goes to the owner. The session's second
  descriptor is what a connection to an address that is registered for the owner gets; what a
  connection to any other address gets is left open. However the network cuts the bytes, and
  whatever else the server does in between, what it has sent on that descriptor is a prefix of the
  request and no more than it received; what it has sent to the client that asked is a prefix
  of the owner's response; the client gets nothing before the owner has the whole request; and
  when it got as many bytes as the response has, both have exactly the right bytes.\<close>

theorem loop_transparent:
  assumes "session_ok S" "forwarded S" "hosts S i cl socks cs h"
  shows "prefix (sent h (ss_peer S)) (rcvd h (ss_client S)) \<and>
    prefix (rcvd h (ss_client S)) (enc_pkt (ss_req S)) \<and>
    prefix (sent h (ss_client S)) (rcvd h (ss_peer S)) \<and>
    prefix (rcvd h (ss_peer S)) (enc_pkt (ss_rsp S)) \<and>
    (sent h (ss_client S) \<noteq> [] \<longrightarrow> sent h (ss_peer S) = enc_pkt (ss_req S)) \<and>
    (length (sent h (ss_client S)) = length (enc_pkt (ss_rsp S)) \<longrightarrow>
       sent h (ss_peer S) = enc_pkt (ss_req S) \<and> sent h (ss_client S) = enc_pkt (ss_rsp S))"
  using hosts_in_order [OF assms] hosted_complete [OF assms] by blast

theorem loop_transparent_witness:
  "\<exists>socks cs h. hosts sample_session 1 (\<lambda>_. True) socks cs h \<and> sent h 5 = enc_pkt sample_pkt \<and>
    prefix (sent h 4) (rcvd h 5) \<and> sent h 4 \<noteq> []"
proof -
  obtain socks cs h where h: "hosts sample_session 1 (\<lambda>_. True) socks cs h" "sent h 4 = enc_pkt ok_pkt"
    by (rule busy_finishes)
  have "0 < length (enc_pkt ok_pkt)" by (simp add: enc_pkt_def)
  have fds: "ss_client sample_session = 4" "ss_peer sample_session = 5" "ss_req sample_session = sample_pkt"
    by (simp_all add: sample_session_def)
  from loop_transparent [OF sample_session_ok h(1)] h \<open>0 < length (enc_pkt ok_pkt)\<close>
  show ?thesis by (intro exI [of _ socks] exI [of _ cs] exI [of _ h]) (simp add: fds)
qed

text \<open>C9: A session in the loop can always be finished. From every state of a running server in
  which the session is open, whatever its other sockets are, there are rounds after which the
  owner has been sent the whole request and the client the whole response, and the socket is
  closed. (Memory must be there for the packets and the array for \<open>poll\<close>.)\<close>

theorem loop_can_finish:
  assumes "session_ok S" "forwarded S" "\<forall>k. can_alloc (ss_env S) k" "hosts S i cl socks cs h"
    "\<not> sockinfo_dead (infos socks ! i)"
  shows "\<exists>socks' cs' h'. hosts S i cl socks' cs' h' \<and> sockinfo_dead (infos socks' ! i) \<and>
    sent h' (ss_peer S) = enc_pkt (ss_req S) \<and> sent h' (ss_client S) = enc_pkt (ss_rsp S)"
  by (rule hosted_finishes [OF assms(1,2) _ assms(4,5)]) (use assms(3) in blast)

theorem loop_can_finish_witness:
  "\<exists>socks' cs' h'. hosts sample_session 1 (\<lambda>_. True) socks' cs' h' \<and> sent h' 4 = enc_pkt ok_pkt"
  using loop_can_finish [OF sample_session_ok _ sample_busy busy_open] sample_memory
  by (auto simp: sample_session_def)

text \<open>C21: A connection that a listening socket accepts in a round is put at the end of the table as
  a new session of which no byte has moved.\<close>

theorem accepted_is_hosted:
  assumes "socks_ok socks" "online S cs" "0 \<le> ss_client S" "round_ok rd"
    "middfs_socks_poll (ss_env S) cl (rn_poll rd) socks = Some (n, left)"
    "j < length (infos left)" "si_type (infos left ! j) = MFD_LSTN"
    "middfs_sockinfo_isopen (infos left ! j)" "si_revents (infos left ! j) AND POLLIN \<noteq> 0"
    "io_accept (rn_ios rd j) = ss_client S"
    "server_loop (ss_env S) (server_hi (ss_env S)) (rn_poll rd) cl (rn_ios rd) (socks, cs)
       = Some (r, socks', cs')" "0 \<le> r"
  shows "\<exists>i \<ge> length (infos socks). hosts S i cl socks' cs' no_bytes"
  by (rule accept_hosts [OF assms])

theorem accepted_is_hosted_witness:
  "\<exists>i socks' cs'. 1 \<le> i \<and> hosts sample_session i (\<lambda>_. True) socks' cs' no_bytes"
proof -
  let ?rd = "\<lparr>rn_poll = rn_poll good_round, rn_ios = \<lambda>_. quiet_io\<lparr>io_accept := 4\<rparr>\<rparr>"
  let ?poll = "middfs_socks_poll good_env (\<lambda>_. True) (rn_poll ?rd) (table [listener])"
  let ?loop = "server_loop good_env (server_hi good_env) (rn_poll ?rd) (\<lambda>_. True) (rn_ios ?rd) (table [listener], two_clients)"
  have "map_option (\<lambda>(n, left). (length (infos left), si_type (infos left ! 0),
      middfs_sockinfo_isopen (infos left ! 0), si_revents (infos left ! 0) AND POLLIN)) ?poll
    = Some (1, MFD_LSTN, True, 1)"
    by code_simp
  then obtain n left where p: "?poll = Some (n, left)" "length (infos left) = 1"
    "si_type (infos left ! 0) = MFD_LSTN" "middfs_sockinfo_isopen (infos left ! 0)"
    "si_revents (infos left ! 0) AND POLLIN = 1" by auto
  have "map_option fst ?loop = Some 0" by code_simp
  then obtain socks' cs' where run: "?loop = Some (0, socks', cs')" by auto
  have "round_ok ?rd" by (simp add: round_ok_def good_round_def poll_ok_def)
  moreover have "socks_ok (table [listener])" by (simp add: socks_ok_def sockinfo_ok_def)
  moreover have S: "ss_env sample_session = good_env" "ss_client sample_session = 4"
    by (simp_all add: sample_session_def)
  ultimately obtain i where "length (infos (table [listener])) \<le> i" "hosts sample_session i (\<lambda>_. True) socks' cs' no_bytes"
    using accepted_is_hosted [of "table [listener]" sample_session two_clients ?rd "\<lambda>_. True" n left 0 0 socks' cs']
      p run by auto
  then show ?thesis by auto
qed

text \<open>C22: Nobody is unregistered, and no entry is given back. Through any number of rounds the
  server keeps every client it has registered, whether or not it is still there, and the table
  of sockets never gets shorter.\<close>

theorem registered_stay:
  assumes "socks_ok socks" "clients_ok cs" "serves E (server_hi E) cl (socks, cs) (socks', cs')"
  shows "set (users cs) \<subseteq> set (users cs') \<and> length (infos socks) \<le> length (infos socks')"
  using register.serves_keep [OF assms(3), of "set (users cs)"] assms(1,2) by (auto simp: knows_def)

theorem registered_stay_witness:
  "\<exists>socks' cs'. serves good_env (server_hi good_env) (\<lambda>_. True) (table [listener], two_clients) (socks', cs') \<and>
    set (users two_clients) \<subseteq> set (users cs') \<and> length (infos socks') \<noteq> 1"
proof -
  let ?loop = "server_loop good_env (server_hi good_env) (rn_poll good_round) (\<lambda>_. True) (rn_ios good_round)"
  have "map_option (\<lambda>(r, socks, cs). length (infos socks)) (?loop (table [listener], two_clients)) = Some 2"
    by code_simp
  then obtain r socks' cs' where run: "?loop (table [listener], two_clients) = Some (r, socks', cs')"
    "length (infos socks') = 2" by auto
  have "round_ok good_round" by (simp add: round_ok_def good_round_def poll_ok_def)
  with run(1) have s: "serves good_env (server_hi good_env) (\<lambda>_. True) (table [listener], two_clients) (socks', cs')"
    by (blast intro: serves.intros)
  have "socks_ok (table [listener])" by (simp add: socks_ok_def sockinfo_ok_def)
  from registered_stay [OF this two_clients_ok(1) s] s run(2) show ?thesis
    by (intro exI [of _ socks'] exI [of _ cs']) simp
qed

end
