(* ===== verification/Client_Sys.thy ===== *)
theory Client_Sys
  imports Middfs_Buf
begin

text \<open>
  What the client program runs on: the system calls it makes, as data, and the process state
  they change. The client blocks on one call after the other, so its run is the list of the
  calls it has made; what the kernel, the file system and the network answer is a parameter,
  an arbitrary function of all the calls so far. The calls of \<open>inet_connect\<close> of
  \<open>lib/middfs-util.c\<close> and one \<open>read\<close> or \<open>write\<close> of a buffer are built here.

  A call fails when its value is negative, and the process then has the call's error number
  in \<open>errno\<close>; a call that succeeds leaves \<open>errno\<close> alone. Messages (\<open>fprintf\<close>, \<open>perror\<close>)
  are not modelled, and all printing is taken to leave \<open>errno\<close> alone as well.
\<close>

section \<open>System calls\<close>

text \<open>
  The arguments of each call as the kernel gets them: the memory a pointer leads to, sizes and
  offsets as 64-bit words, paths as text. A directory stream is the number its \<open>opendir\<close> or
  \<open>fdopendir\<close> returned, negative for NULL; \<open>Sys_readdir\<close> is one whole pass over it, all
  the calls of \<open>readdir\<close> up to the one that returns NULL.
\<close>

datatype syscall =
    Sys_socket
  | Sys_connect int string "16 word"
  | Sys_close int
  | Sys_read int u64
  | Sys_write int "byte list"
  | Sys_open string int int
  | Sys_pread int u64 u64
  | Sys_pwrite int "byte list option" u64 u64
  | Sys_stat string
  | Sys_lstat string
  | Sys_access string int
  | Sys_readlink string u64
  | Sys_mkdir string u32
  | Sys_unlink string
  | Sys_rmdir string
  | Sys_truncate string u64
  | Sys_ftruncate int u64
  | Sys_symlink string string
  | Sys_rename string string
  | Sys_fchmod int u32
  | Sys_lchmod string u32
  | Sys_opendir string
  | Sys_fdopendir int
  | Sys_readdir int
  | Sys_rewinddir int
  | Sys_closedir int
  | Sys_getcwd
  | Sys_statvfs string
  | Sys_system string
  | Sys_thread string int

record file_stat =
  st_mode :: u32
  st_size :: u64
  st_blocks :: u64
  st_blksize :: u64
  st_uid :: u32
  st_gid :: u32
  st_nlink :: u64
  st_ino :: u64

definition zero_stat_buf :: file_stat where
  "zero_stat_buf =
     \<lparr>st_mode = 0, st_size = 0, st_blocks = 0, st_blksize = 0, st_uid = 0, st_gid = 0,
      st_nlink = 0, st_ino = 0\<rparr>"

record dir_ent =
  d_name :: string
  d_type :: byte
  d_ino :: u64

text \<open>
  An answer: the value of the call, its error number if that is negative, and what it stored
  through its pointers. The value of a \<open>read\<close> or \<open>pread\<close> is the number of its bytes.
\<close>

record reply =
  r_ret :: int
  r_errno :: int
  r_bytes :: "byte list"
  r_stat :: file_stat
  r_ents :: "dir_ent list"

type_synonym os = "syscall list \<Rightarrow> syscall \<Rightarrow> reply"

section \<open>The process\<close>

text \<open>
  What a run of the client depends on: the memory allocator, the process environment, the
  system, the user's ids and the contents of an uninitialised \<open>struct middfs_packet\<close>.
\<close>

record ctx =
  cx_mem :: cenv
  cx_env :: environ
  cx_os :: os
  cx_uid :: u32
  cx_gid :: u32
  cx_junk :: middfs_packet

record proc =
  pr_calls :: "syscall list"
  pr_errno :: int

definition sys :: "ctx \<Rightarrow> syscall \<Rightarrow> proc \<Rightarrow> reply \<times> proc" where
  "sys C c s =
     (let r = cx_os C (pr_calls s) c in
      (r, \<lparr>pr_calls = pr_calls s @ [c],
           pr_errno = if r_ret r < 0 then r_errno r else pr_errno s\<rparr>))"

text \<open>
  The statements \<open>retv = 0; if (call < 0) retv = -errno;\<close>, and \<open>if ((retv = call) < 0)
  retv = -errno;\<close> with the call's value converted to an \<open>int\<close>.
\<close>

definition cint :: "int \<Rightarrow> int" where
  "cint n = sint (word_of_int n :: u32)"

definition sys_status :: "ctx \<Rightarrow> syscall \<Rightarrow> proc \<Rightarrow> int \<times> proc" where
  "sys_status C c s =
     (case sys C c s of (r, s1) \<Rightarrow> (if r_ret r < 0 then - pr_errno s1 else 0, s1))"

definition sys_count :: "ctx \<Rightarrow> syscall \<Rightarrow> proc \<Rightarrow> int \<times> reply \<times> proc" where
  "sys_count C c s =
     (case sys C c s of (r, s1) \<Rightarrow>
        (if cint (r_ret r) < 0 then - pr_errno s1 else cint (r_ret r), r, s1))"

text \<open>A failed allocation sets \<open>errno\<close>.\<close>

definition no_memory :: "proc \<Rightarrow> proc" where
  "no_memory s = s\<lparr>pr_errno := ENOMEM\<rparr>"

section \<open>Sockets and buffers\<close>

text \<open>
  \<open>inet_addr\<close> and \<open>htons\<close> are part of the call: the address is its text, the port is cut to
  16 bits. A socket that cannot be connected stays open.
\<close>

definition inet_connect :: "ctx \<Rightarrow> string \<Rightarrow> u32 \<Rightarrow> proc \<Rightarrow> int \<times> proc" where
  "inet_connect C IP_addr port s =
     (case sys C Sys_socket s of (r1, s1) \<Rightarrow>
        if r_ret r1 < 0 then (-1, s1)
        else
          (case sys C (Sys_connect (r_ret r1) IP_addr (ucast port)) s1 of (r2, s2) \<Rightarrow>
             if r_ret r2 < 0 then (-1, s2) else (r_ret r1, s2)))"

text \<open>\<open>buffer_write(fd, buf)\<close> and \<open>buffer_read(fd, buf)\<close> on a descriptor of the process.\<close>

definition fd_write :: "ctx \<Rightarrow> int \<Rightarrow> buffer \<Rightarrow> proc \<Rightarrow> (int \<times> buffer \<times> proc) option" where
  "fd_write C fd buf s = do {
     m \<leftarrow> block_mem (buf_begin buf);
     bs \<leftarrow> mem_read m (unat (buffer_used buf));
     let (r, s1) = sys C (Sys_write fd bs) s;
     (n, buf1) \<leftarrow>
       buffer_write (\<lambda>_. if r_ret r < 0 then None else Some (word_of_int (r_ret r))) buf;
     Some (n, buf1, s1)
   }"

definition fd_read :: "ctx \<Rightarrow> int \<Rightarrow> buffer \<Rightarrow> proc \<Rightarrow> (int \<times> buffer \<times> proc) option" where
  "fd_read C fd buf s = do {
     (r, buf1) \<leftarrow> buffer_increase (cx_mem C) buf;
     if r < 0 then Some (-1, buf1, no_memory s)
     else do {
       let (rep, s1) = sys C (Sys_read fd (buffer_rem buf1)) s;
       (n, buf2) \<leftarrow>
         buffer_read (cx_mem C) (\<lambda>_. if r_ret rep < 0 then None else Some (r_bytes rep)) buf;
       Some (n, buf2, s1)
     }
   }"

end
