(* ===== verification/Client_Pkt.thy ===== *)
theory Client_Pkt
  imports Client_Sys Middfs_Print
begin

text \<open>
  The packet exchange of the client requester, \<open>client/middfs-client-pkt.c\<close>: one connection to
  the server per request, the packet written to it and the response read from it, each in as
  many pieces as the socket takes or gives.

  The loops are partial functions: a socket that is interrupted for ever, or that takes no
  byte, keeps \<open>packet_send\<close> running, which is the value None.

  Both functions print the packet. The text goes to the error output and is dropped here; what
  matters is that printing a packet that was received in part may read what is not there.
\<close>

section \<open>Sending\<close>

partial_function (option) packet_send_loop ::
    "ctx \<Rightarrow> int \<Rightarrow> buffer \<Rightarrow> proc \<Rightarrow> (int \<times> buffer \<times> proc) option" where
  "packet_send_loop C fd buf s =
     (if buffer_isempty buf then Some (0, buf, s)
      else do {
        (n, buf1, s1) \<leftarrow> fd_write C fd buf s;
        if cint n < 0 \<and> pr_errno s1 \<noteq> EINTR then Some (- pr_errno s1, buf1, s1)
        else packet_send_loop C fd buf1 s1
      })"

declare packet_send_loop.simps [code]

definition packet_send :: "ctx \<Rightarrow> int \<Rightarrow> middfs_packet \<Rightarrow> proc \<Rightarrow> (int \<times> proc) option" where
  "packet_send C fd pkt s = do {
     _ \<leftarrow> print_packet [] pkt;
     (r, buf) \<leftarrow> buffer_serialize (cx_mem C) (serialize_pkt pkt) buffer_init;
     if r < 0 then (let s1 = no_memory s in Some (- pr_errno s1, s1))
     else do {
       (retv, buf1, s1) \<leftarrow> packet_send_loop C fd buf s;
       buf2 \<leftarrow> buffer_delete buf1;
       Some (retv, s1)
     }
   }"

section \<open>Receiving\<close>

text \<open>
  The loop deserialises into the same packet again and again; what an incomplete attempt left
  in it is there at the next. It stops, with the value it last got (1: more bytes needed), at
  the first \<open>read\<close> that returns no byte. Deserialisation fails only when memory runs out.
\<close>

partial_function (option) packet_recv_loop ::
    "ctx \<Rightarrow> int \<Rightarrow> middfs_packet \<Rightarrow> buffer \<Rightarrow> proc \<Rightarrow>
     (int \<times> middfs_packet \<times> buffer \<times> proc) option" where
  "packet_recv_loop C fd pkt buf s = do {
     (retv, pkt1, buf1) \<leftarrow> buffer_deserialize (deserialize_pkt (cx_mem C)) pkt buf;
     if retv > 0 then do {
       (n, buf2, s1) \<leftarrow> fd_read C fd buf1 s;
       if cint n \<le> 0 then Some (retv, pkt1, buf2, s1)
       else packet_recv_loop C fd pkt1 buf2 s1
     }
     else Some (retv, pkt1, buf1, if retv < 0 then no_memory s else s)
   }"

declare packet_recv_loop.simps [code]

definition packet_recv ::
    "ctx \<Rightarrow> int \<Rightarrow> middfs_packet \<Rightarrow> proc \<Rightarrow> (int \<times> middfs_packet \<times> proc) option" where
  "packet_recv C fd pkt s = do {
     (r, pkt1, buf, s1) \<leftarrow> packet_recv_loop C fd pkt buffer_init s;
     _ \<leftarrow> (if r < 0 then Some [] else print_packet [] pkt1);
     let retv = (if r < 0 then - pr_errno s1 else r);
     buf1 \<leftarrow> buffer_delete buf;
     Some (retv, pkt1, s1)
   }"

section \<open>Exchanging\<close>

text \<open>The result holds \<open>retv\<close> and \<open>*in_pkt\<close>, which is in_pkt at the start.\<close>

definition packet_xchg ::
    "ctx \<Rightarrow> middfs_packet \<Rightarrow> middfs_packet \<Rightarrow> proc \<Rightarrow> (int \<times> middfs_packet \<times> proc) option" where
  "packet_xchg C out_pkt in_pkt s = do {
     let serverip = conf_get (cx_mem C) (cx_env C) MIDDFS_CONF_SERVERIP;
     let (serverport, err) = conf_get_uint32 (cx_mem C) (cx_env C) MIDDFS_CONF_SERVERPORT 0;
     ip \<leftarrow> (if err = 0 then serverip else None);
     let (fd, s1) = inet_connect C ip serverport s;
     if fd < 0 then Some (- pr_errno s1, in_pkt, s1)
     else do {
       (r, s2) \<leftarrow> packet_send C fd out_pkt s1;
       (retv, in_pkt1, s3) \<leftarrow>
         (if r < 0 then Some (- pr_errno s2, in_pkt, s2)
          else do {
            (r', p, s') \<leftarrow> packet_recv C fd in_pkt s2;
            Some (if r' < 0 then - pr_errno s' else 0, p, s')
          });
       Some (retv, in_pkt1, snd (sys C (Sys_close fd) s3))
     }
   }"

definition response_validate :: "middfs_packet \<Rightarrow> middfs_response_type \<Rightarrow> int option" where
  "response_validate pkt type =
     (if mpkt_magic pkt \<noteq> MPKT_MAGIC then Some (- EIO)
      else if mpkt_type pkt \<noteq> MPKT_RESPONSE then Some (- EIO)
      else do {
        rsp \<leftarrow> get_response (mpkt_un pkt);
        if mrsp_type rsp \<noteq> type then
          (if mrsp_type rsp = MRSP_ERROR then do {
             e \<leftarrow> get_error (mrsp_un rsp);
             Some (- sint e)
           }
           else Some (- EIO))
        else Some 0
      })"

end
