(* ===== verification/Client_Rsrc.thy ===== *)
theory Client_Rsrc
  imports Client_Pkt
begin

text \<open>
  The resources of the client, \<open>client/middfs-client-rsrc.c\<close>: a path of the mounted file system
  is split into the owner's name and a path at the owner, and every file operation either
  works on the local copy, when the user is the owner, or is sent to the server as a request.

  A function that C declares with an out parameter returns the parameter's new value. An
  \<open>abort\<close> for a resource type the enumeration does not have cannot be reached.
\<close>

datatype client_rsrc_type = MR_NETWORK | MR_LOCAL | MR_ROOT

record client_rsrc =
  cr_type :: client_rsrc_type
  cr_rsrc :: rsrc
  cr_fd :: int

section \<open>Paths\<close>

text \<open>
  The conversion \<open>%s\<close> of a null pointer is undefined, and so is the use of the result of a
  failed \<open>asprintf\<close>, which no caller checks.
\<close>

definition middfs_localpath_tmp :: "ctx \<Rightarrow> cstr \<Rightarrow> string option" where
  "middfs_localpath_tmp C middfs_path = do {
     home \<leftarrow> conf_get (cx_mem C) (cx_env C) MIDDFS_CONF_HOMEPATH;
     user \<leftarrow> conf_get (cx_mem C) (cx_env C) MIDDFS_CONF_USERNAME;
     p \<leftarrow> middfs_path;
     let s = home @ ''/'' @ user @ p;
     if can_alloc (cx_mem C) (length s + 1) then Some s else None
   }"

definition middfs_abspath :: "ctx \<Rightarrow> string \<Rightarrow> proc \<Rightarrow> (int \<times> string \<times> proc) option" where
  "middfs_abspath C path s =
     (case path of
        [] \<Rightarrow> Some (- EINVAL, path, s)
      | c # _ \<Rightarrow>
          if c = CHR ''/'' then Some (0, path, s)
          else
            (case sys C Sys_getcwd s of (r, s1) \<Rightarrow>
               if r_ret r < 0 then Some (- pr_errno s1, path, s1)
               else
                 (let p = map char_of_byte (r_bytes r) @ ''/'' @ path in
                  if can_alloc (cx_mem C) (length p + 1) then Some (0, p, s1) else None)))"

definition client_rsrc_init ::
    "ctx \<Rightarrow> string \<Rightarrow> client_rsrc \<Rightarrow> (int \<times> client_rsrc) option" where
  "client_rsrc_init C path cr = do {
     let owner_begin = dropWhile (\<lambda>c. c = CHR ''/'') path;
     if length owner_begin = length path then Some (- EINVAL, cr)
     else if owner_begin = [] then do {
       owner \<leftarrow> strdup (cx_mem C) (Some []);
       path \<leftarrow> strdup (cx_mem C) (Some []);
       Some (0, cr\<lparr>cr_type := MR_ROOT, cr_rsrc := \<lparr>mr_owner = owner, mr_path = path\<rparr>,
                   cr_fd := -1\<rparr>)
     }
     else do {
       let owner_end = dropWhile (\<lambda>c. c \<noteq> CHR ''/'') owner_begin;
       owner \<leftarrow> strdup (cx_mem C) (Some (takeWhile (\<lambda>c. c \<noteq> CHR ''/'') owner_begin));
       path \<leftarrow> strdup (cx_mem C) (Some (if owner_end = [] then ''/'' else owner_end));
       name \<leftarrow> owner;
       user \<leftarrow> conf_get (cx_mem C) (cx_env C) MIDDFS_CONF_USERNAME;
       Some (0, cr\<lparr>cr_type := (if strcmp name user \<noteq> 0 then MR_NETWORK else MR_LOCAL),
                   cr_rsrc := \<lparr>mr_owner = owner, mr_path = path\<rparr>, cr_fd := -1\<rparr>)
     }
   }"

text \<open>The argument is a pointer; the strings of the resource are freed with it.\<close>

definition client_rsrc_delete :: "ctx \<Rightarrow> client_rsrc option \<Rightarrow> proc \<Rightarrow> int \<times> proc" where
  "client_rsrc_delete C p s =
     (case p of
        None \<Rightarrow> (0, s)
      | Some cr \<Rightarrow> if cr_fd cr \<ge> 0 then sys_status C (Sys_close (cr_fd cr)) s else (0, s))"

section \<open>Requests\<close>

text \<open>
  A request packet with the fields \<open>request_init\<close> sets, and the exchange of a request whose
  response carries nothing: the code \<open>packet_init; request_init; ...; packet_xchg;
  response_validate (MRSP_OK)\<close> of \<open>client_rsrc_open\<close>, \<open>_access\<close>, \<open>_truncate\<close> and \<open>_rename\<close>.
\<close>

definition request_pkt :: "middfs_request \<Rightarrow> middfs_packet" where
  "request_pkt req = (packet_init zero_packet MPKT_REQUEST)\<lparr>mpkt_un := Pkt_request req\<rparr>"

definition init_request :: "ctx \<Rightarrow> middfs_request_type \<Rightarrow> rsrc \<Rightarrow> middfs_request" where
  "init_request C t r = request_init (cx_mem C) (cx_env C) zero_request t r"

definition xchg_ok :: "ctx \<Rightarrow> middfs_request \<Rightarrow> proc \<Rightarrow> (int \<times> proc) option" where
  "xchg_ok C req s = do {
     (r, in_pkt, s1) \<leftarrow> packet_xchg C (request_pkt req) zero_packet s;
     if r < 0 then Some (- EIO, s1)
     else do {
       retv \<leftarrow> response_validate in_pkt MRSP_OK;
       Some (if retv < 0 then retv else 0, s1)
     }
   }"

text \<open>The call on the local copy that most of the operations make.\<close>

definition local_call ::
    "ctx \<Rightarrow> client_rsrc \<Rightarrow> (string \<Rightarrow> syscall) \<Rightarrow> proc \<Rightarrow> (int \<times> proc) option" where
  "local_call C cr call s = do {
     localpath \<leftarrow> middfs_localpath_tmp C (mr_path (cr_rsrc cr));
     Some (sys_status C (call localpath) s)
   }"

section \<open>File operations\<close>

definition O_RDONLY :: int where "O_RDONLY = 0"
definition O_WRONLY :: int where "O_WRONLY = 1"
definition O_RDWR :: int where "O_RDWR = 2"
definition O_CREAT :: int where "O_CREAT = 64"

text \<open>
  varg is the optional argument, None when the caller gives none: it is read only when the
  flags ask for it, and reading an argument that was not given is undefined.
\<close>

definition client_rsrc_open ::
    "ctx \<Rightarrow> client_rsrc \<Rightarrow> int \<Rightarrow> int option \<Rightarrow> proc \<Rightarrow> (int \<times> client_rsrc \<times> proc) option" where
  "client_rsrc_open C cr flags varg s = do {
     mode \<leftarrow> (if flags AND O_CREAT \<noteq> 0 then varg else Some 0);
     case cr_type cr of
        MR_NETWORK \<Rightarrow> do {
          let req = (init_request C MREQ_OPEN (cr_rsrc cr))\<lparr>mreq_mode := word_of_int flags\<rparr>;
          (retv, s1) \<leftarrow> xchg_ok C req s;
          Some (retv, cr, s1)
        }
      | MR_ROOT \<Rightarrow> Some (0, cr, s)
      | MR_LOCAL \<Rightarrow> do {
          localpath \<leftarrow> middfs_localpath_tmp C (mr_path (cr_rsrc cr));
          let (r, s1) = sys C (Sys_open localpath flags mode) s;
          Some (if r_ret r < 0 then (- pr_errno s1, cr, s1)
                else (0, cr\<lparr>cr_fd := r_ret r\<rparr>, s1))
        }
   }"

text \<open>\<open>S_IFDIR | S_IRUSR | S_IRGRP | S_IROTH\<close>.\<close>

definition ROOT_MODE :: u32 where "ROOT_MODE = 0x4124"

text \<open>The fields of the buffer a response sets; the others are still zero.\<close>

definition stat_of_response :: "ctx \<Rightarrow> middfs_stat \<Rightarrow> file_stat" where
  "stat_of_response C m =
     zero_stat_buf\<lparr>st_mode := mstat_mode m, st_size := mstat_size m, st_blocks := mstat_blocks m,
       st_blksize := mstat_blksize m, st_uid := cx_uid C, st_gid := cx_gid C, st_nlink := 1\<rparr>"

definition client_rsrc_lstat ::
    "ctx \<Rightarrow> client_rsrc \<Rightarrow> proc \<Rightarrow> (int \<times> file_stat \<times> proc) option" where
  "client_rsrc_lstat C cr s =
     (case cr_type cr of
        MR_NETWORK \<Rightarrow> do {
          let req = zero_request\<lparr>mreq_type := MREQ_GETATTR,
                mreq_requester := conf_get (cx_mem C) (cx_env C) MIDDFS_CONF_USERNAME,
                mreq_rsrc := cr_rsrc cr\<rparr>;
          (r, in_pkt, s1) \<leftarrow> packet_xchg C (request_pkt req) (cx_junk C) s;
          if r < 0 then Some (r, zero_stat_buf, s1)
          else do {
            retv \<leftarrow> response_validate in_pkt MRSP_STAT;
            if retv < 0 then Some (retv, zero_stat_buf, s1)
            else do {
              rsp \<leftarrow> get_response (mpkt_un in_pkt);
              m \<leftarrow> get_stat (mrsp_un rsp);
              Some (0, stat_of_response C m, s1)
            }
          }
        }
      | MR_ROOT \<Rightarrow>
          Some (0, zero_stat_buf\<lparr>st_mode := ROOT_MODE, st_uid := cx_uid C, st_gid := cx_gid C\<rparr>, s)
      | MR_LOCAL \<Rightarrow> do {
          localpath \<leftarrow> middfs_localpath_tmp C (mr_path (cr_rsrc cr));
          let (r, s1) = sys C (Sys_lstat localpath) s;
          Some (if r_ret r < 0 then (- pr_errno s1, zero_stat_buf, s1) else (0, r_stat r, s1))
        })"

text \<open>The bytes are what \<open>readlink\<close> stored, without a terminating NUL.\<close>

definition client_rsrc_readlink ::
    "ctx \<Rightarrow> client_rsrc \<Rightarrow> u64 \<Rightarrow> proc \<Rightarrow> (int \<times> byte list \<times> proc) option" where
  "client_rsrc_readlink C cr bufsize s =
     (case cr_type cr of
        MR_LOCAL \<Rightarrow> do {
          localpath \<leftarrow> middfs_localpath_tmp C (mr_path (cr_rsrc cr));
          let (retv, r, s1) = sys_count C (Sys_readlink localpath bufsize) s;
          Some (retv, r_bytes r, s1)
        }
      | _ \<Rightarrow> Some (- EOPNOTSUPP, [], s))"

definition client_rsrc_access :: "ctx \<Rightarrow> client_rsrc \<Rightarrow> int \<Rightarrow> proc \<Rightarrow> (int \<times> proc) option" where
  "client_rsrc_access C cr mode s =
     (case cr_type cr of
        MR_LOCAL \<Rightarrow> local_call C cr (\<lambda>p. Sys_access p mode) s
      | _ \<Rightarrow> xchg_ok C ((init_request C MREQ_ACCESS (cr_rsrc cr))\<lparr>mreq_mode := word_of_int mode\<rparr>) s)"

definition client_rsrc_mkdir :: "ctx \<Rightarrow> client_rsrc \<Rightarrow> u32 \<Rightarrow> proc \<Rightarrow> (int \<times> proc) option" where
  "client_rsrc_mkdir C cr mode s =
     (case cr_type cr of
        MR_LOCAL \<Rightarrow> local_call C cr (\<lambda>p. Sys_mkdir p mode) s
      | _ \<Rightarrow> Some (- EOPNOTSUPP, s))"

definition client_rsrc_unlink :: "ctx \<Rightarrow> client_rsrc \<Rightarrow> proc \<Rightarrow> (int \<times> proc) option" where
  "client_rsrc_unlink C cr s =
     (case cr_type cr of
        MR_LOCAL \<Rightarrow> local_call C cr Sys_unlink s
      | _ \<Rightarrow> Some (- EOPNOTSUPP, s))"

definition client_rsrc_rmdir :: "ctx \<Rightarrow> client_rsrc \<Rightarrow> proc \<Rightarrow> (int \<times> proc) option" where
  "client_rsrc_rmdir C cr s =
     (case cr_type cr of
        MR_LOCAL \<Rightarrow> local_call C cr Sys_rmdir s
      | _ \<Rightarrow> Some (- EOPNOTSUPP, s))"

definition client_rsrc_truncate :: "ctx \<Rightarrow> client_rsrc \<Rightarrow> u64 \<Rightarrow> proc \<Rightarrow> (int \<times> proc) option" where
  "client_rsrc_truncate C cr sz s =
     (case cr_type cr of
        MR_LOCAL \<Rightarrow>
          if cr_fd cr \<ge> 0 then Some (sys_status C (Sys_ftruncate (cr_fd cr) sz) s)
          else local_call C cr (\<lambda>p. Sys_truncate p sz) s
      | _ \<Rightarrow> xchg_ok C ((init_request C MREQ_TRUNCATE (cr_rsrc cr))\<lparr>mreq_size := sz\<rparr>) s)"

definition client_rsrc_symlink :: "ctx \<Rightarrow> client_rsrc \<Rightarrow> string \<Rightarrow> proc \<Rightarrow> (int \<times> proc) option" where
  "client_rsrc_symlink C cr to s =
     (case cr_type cr of
        MR_LOCAL \<Rightarrow> local_call C cr (Sys_symlink to) s
      | _ \<Rightarrow> Some (- EOPNOTSUPP, s))"

definition client_rsrc_rename ::
    "ctx \<Rightarrow> client_rsrc \<Rightarrow> client_rsrc \<Rightarrow> proc \<Rightarrow> (int \<times> proc) option" where
  "client_rsrc_rename C from to s =
     (if cr_type from \<noteq> cr_type to then Some (- EXDEV, s)
      else
        (case cr_type to of
           MR_LOCAL \<Rightarrow> do {
             local_from \<leftarrow> middfs_localpath_tmp C (mr_path (cr_rsrc from));
             local_to \<leftarrow> middfs_localpath_tmp C (mr_path (cr_rsrc to));
             Some (sys_status C (Sys_rename local_from local_to) s)
           }
         | _ \<Rightarrow>
             xchg_ok C ((init_request C MREQ_RENAME (cr_rsrc from))\<lparr>mreq_to := cr_rsrc to\<rparr>) s))"

definition client_rsrc_chmod :: "ctx \<Rightarrow> client_rsrc \<Rightarrow> u32 \<Rightarrow> proc \<Rightarrow> (int \<times> proc) option" where
  "client_rsrc_chmod C cr mode s =
     (case cr_type cr of
        MR_LOCAL \<Rightarrow>
          if cr_fd cr \<ge> 0 then Some (sys_status C (Sys_fchmod (cr_fd cr) mode) s)
          else local_call C cr (\<lambda>p. Sys_lchmod p mode) s
      | _ \<Rightarrow> Some (- EOPNOTSUPP, s))"

section \<open>Reading and writing\<close>

text \<open>The bytes are those stored at the start of \<open>buf\<close>; the value is an \<open>int\<close>.\<close>

definition read_request :: "ctx \<Rightarrow> client_rsrc \<Rightarrow> u64 \<Rightarrow> u64 \<Rightarrow> middfs_request option" where
  "read_request C cr sz offset = do {
     user \<leftarrow> strdup (cx_mem C) (conf_get (cx_mem C) (cx_env C) MIDDFS_CONF_USERNAME);
     Some (zero_request\<lparr>mreq_type := MREQ_READ, mreq_requester := user, mreq_rsrc := cr_rsrc cr,
             mreq_size := sz, mreq_off := offset\<rparr>)
   }"

definition client_rsrc_read ::
    "ctx \<Rightarrow> client_rsrc \<Rightarrow> u64 \<Rightarrow> u64 \<Rightarrow> proc \<Rightarrow> (int \<times> byte list \<times> proc) option" where
  "client_rsrc_read C cr sz offset s =
     (case cr_type cr of
        MR_NETWORK \<Rightarrow> do {
          req \<leftarrow> read_request C cr sz offset;
          (r, in_pkt, s1) \<leftarrow> packet_xchg C (request_pkt req) zero_packet s;
          if r < 0 then Some (r, [], s1)
          else if mpkt_magic in_pkt \<noteq> MPKT_MAGIC \<or> mpkt_type in_pkt \<noteq> MPKT_RESPONSE
          then Some (- EIO, [], s1)
          else do {
            rsp \<leftarrow> get_response (mpkt_un in_pkt);
            case mrsp_type rsp of
              MRSP_DATA \<Rightarrow> do {
                dat \<leftarrow> get_data (mrsp_un rsp);
                let nbytes = smin sz (mdata_nbytes dat);
                bs \<leftarrow> (if nbytes = 0 then Some []
                       else do { m \<leftarrow> mdata_buf dat; mem_read m (unat nbytes) });
                Some (cint (uint nbytes), bs, s1)
              }
            | MRSP_ERROR \<Rightarrow> do { e \<leftarrow> get_error (mrsp_un rsp); Some (- sint e, [], s1) }
            | _ \<Rightarrow> Some (- EIO, [], s1)
          }
        }
      | MR_ROOT \<Rightarrow> Some (- EOPNOTSUPP, [], s)
      | MR_LOCAL \<Rightarrow> do {
          let (retv, r, s1) = sys_count C (Sys_pread (cr_fd cr) sz offset) s;
          Some (retv, r_bytes r, s1)
        })"

text \<open>
  The response of a write is only looked at by assertions. A copy that cannot be allocated
  makes the function return the negated \<open>errno\<close>.
\<close>

definition client_rsrc_write ::
    "ctx \<Rightarrow> client_rsrc \<Rightarrow> byte list \<Rightarrow> u64 \<Rightarrow> u64 \<Rightarrow> proc \<Rightarrow> (int \<times> proc) option" where
  "client_rsrc_write C cr buf sz offset s =
     (case cr_type cr of
        MR_NETWORK \<Rightarrow> do {
          username \<leftarrow> conf_get (cx_mem C) (cx_env C) MIDDFS_CONF_USERNAME;
          if username = [] then None
          else do {
            username_dup \<leftarrow> strdup (cx_mem C) (Some username);
            buf_dup \<leftarrow> memdup (cx_mem C) buf sz;
            if buf_dup = None \<or> username_dup = None
            then (let s1 = no_memory s in Some (- pr_errno s1, s1))
            else do {
              let req = zero_request\<lparr>mreq_type := MREQ_WRITE, mreq_requester := username_dup,
                    mreq_rsrc := cr_rsrc cr, mreq_size := sz, mreq_off := offset,
                    mreq_data := buf_dup\<rparr>;
              (r, in_pkt, s1) \<leftarrow> packet_xchg C (request_pkt req) (cx_junk C) s;
              if r < 0 then Some (-1, s1)
              else if mpkt_magic in_pkt \<noteq> MPKT_MAGIC then None
              else if mpkt_type in_pkt \<noteq> MPKT_RESPONSE then None
              else do {
                rsp \<leftarrow> get_response (mpkt_un in_pkt);
                if mrsp_type rsp \<noteq> MRSP_OK then None else Some (cint (uint sz), s1)
              }
            }
          }
        }
      | MR_ROOT \<Rightarrow> Some (- EOPNOTSUPP, s)
      | MR_LOCAL \<Rightarrow> do {
          let (retv, r, s1) = sys_count C (Sys_pwrite (cr_fd cr) (Some buf) sz offset) s;
          Some (retv, s1)
        })"

section \<open>Directories\<close>

text \<open>
  \<open>filler\<close> is the callback of the FUSE library with its buffer, of type 'b; it returns whether
  the buffer is full, which ends the loops.
\<close>

type_synonym 'b filler = "cstr \<Rightarrow> file_stat \<Rightarrow> 'b \<Rightarrow> bool \<times> 'b"

fun fill_response ::
    "'b filler \<Rightarrow> middfs_dirent list option \<Rightarrow> nat list \<Rightarrow> 'b \<Rightarrow> 'b option" where
  "fill_response filler ents [] buf = Some buf"
| "fill_response filler ents (i # is) buf = do {
     de \<leftarrow> dirent_at ents i;
     let (full, buf1) = filler (mde_name de) (zero_stat_buf\<lparr>st_mode := mde_mode de\<rparr>) buf;
     if full then Some buf1 else fill_response filler ents is buf1
   }"

text \<open>The file type of a directory entry as the type bits of a mode.\<close>

definition dirent_mode :: "byte \<Rightarrow> u32" where
  "dirent_mode t = push_bit 12 (ucast t)"

fun fill_entries :: "'b filler \<Rightarrow> dir_ent list \<Rightarrow> 'b \<Rightarrow> 'b" where
  "fill_entries filler [] buf = buf"
| "fill_entries filler (e # es) buf =
     (let st = zero_stat_buf\<lparr>st_ino := d_ino e, st_mode := dirent_mode (d_type e)\<rparr>;
          (full, buf1) = filler (Some (d_name e)) st buf
      in if full then buf1 else fill_entries filler es buf1)"

definition client_rsrc_readdir ::
    "ctx \<Rightarrow> client_rsrc \<Rightarrow> 'b filler \<Rightarrow> 'b \<Rightarrow> proc \<Rightarrow> (int \<times> client_rsrc \<times> 'b \<times> proc) option" where
  "client_rsrc_readdir C cr filler buf s =
     (case cr_type cr of
        MR_LOCAL \<Rightarrow>
          (let (d, s1) = sys C (Sys_fdopendir (cr_fd cr)) s in
           if r_ret d < 0 then Some (- pr_errno s1, cr, buf, s1)
           else
             (let (es, s2) = sys C (Sys_readdir (r_ret d)) s1;
                  buf1 = fill_entries filler (r_ents es) buf;
                  (r, s3) = sys C (Sys_closedir (r_ret d)) s2
              in Some (if r_ret r < 0 then (- pr_errno s3, cr, buf1, s3)
                       else (0, cr\<lparr>cr_fd := -1\<rparr>, buf1, s3))))
      | _ \<Rightarrow> do {
          (r, in_pkt, s1) \<leftarrow>
            packet_xchg C (request_pkt (init_request C MREQ_READDIR (cr_rsrc cr))) zero_packet s;
          if r < 0 then Some (r, cr, buf, s1)
          else do {
            retv \<leftarrow> response_validate in_pkt MRSP_DIR;
            if retv < 0 then Some (retv, cr, buf, s1)
            else do {
              rsp \<leftarrow> get_response (mpkt_un in_pkt);
              dir \<leftarrow> get_dir (mrsp_un rsp);
              buf1 \<leftarrow> fill_response filler (mdir_ents dir) [0..<unat (mdir_count dir)] buf;
              Some (retv, cr, buf1, s1)
            }
          }
        })"

end
