(* ===== verification/Client_Ops.thy ===== *)
theory Client_Ops
  imports Client_Rsrc
begin

text \<open>
  The file operations the FUSE library calls, \<open>client/middfs-client-ops.c\<close>, built for FUSE 3.
  An open file is the resource its \<open>fi->fh\<close> points to; fi is None for a null pointer. A
  function that takes such a resource to close or read it returns it as it leaves it.

  A local \<open>client_rsrc_tmp\<close> is uninitialised until \<open>client_rsrc_init\<close> has returned 0, which
  sets every field of it.
\<close>

definition new_rsrc :: client_rsrc where
  "new_rsrc = \<lparr>cr_type = MR_NETWORK, cr_rsrc = zero_rsrc, cr_fd = 0\<rparr>"

text \<open>The result of an operation joined with that of the cleanup: the first error wins.\<close>

definition join_status :: "int \<Rightarrow> int \<Rightarrow> int" where
  "join_status retv res = (if retv < 0 then retv else res)"

section \<open>Operations on a path\<close>

text \<open>
  The shape of \<open>middfs_access\<close>, \<open>middfs_mkdir\<close>, \<open>middfs_unlink\<close>, \<open>middfs_rmdir\<close> and, without
  an open file, of \<open>middfs_getattr\<close>: make a temporary resource, work on it, delete it.
\<close>

definition with_path ::
    "ctx \<Rightarrow> string \<Rightarrow> (client_rsrc \<Rightarrow> proc \<Rightarrow> (int \<times> proc) option) \<Rightarrow> proc \<Rightarrow> (int \<times> proc) option" where
  "with_path C path f s = do {
     (retv, cr) \<leftarrow> client_rsrc_init C path new_rsrc;
     if retv < 0 then Some (retv, s)
     else do {
       (retv, s1) \<leftarrow> f cr s;
       let (res, s2) = client_rsrc_delete C (Some cr) s1;
       Some (join_status retv res, s2)
     }
   }"

definition middfs_access :: "ctx \<Rightarrow> string \<Rightarrow> int \<Rightarrow> proc \<Rightarrow> (int \<times> proc) option" where
  "middfs_access C path mode s = with_path C path (\<lambda>cr. client_rsrc_access C cr mode) s"

definition middfs_mkdir :: "ctx \<Rightarrow> string \<Rightarrow> u32 \<Rightarrow> proc \<Rightarrow> (int \<times> proc) option" where
  "middfs_mkdir C path mode s = with_path C path (\<lambda>cr. client_rsrc_mkdir C cr mode) s"

definition middfs_unlink :: "ctx \<Rightarrow> string \<Rightarrow> proc \<Rightarrow> (int \<times> proc) option" where
  "middfs_unlink C path s = with_path C path (client_rsrc_unlink C) s"

definition middfs_rmdir :: "ctx \<Rightarrow> string \<Rightarrow> proc \<Rightarrow> (int \<times> proc) option" where
  "middfs_rmdir C path s = with_path C path (client_rsrc_rmdir C) s"

definition middfs_symlink :: "ctx \<Rightarrow> string \<Rightarrow> string \<Rightarrow> proc \<Rightarrow> (int \<times> proc) option" where
  "middfs_symlink C to from s = do {
     (retv, cr) \<leftarrow> client_rsrc_init C from new_rsrc;
     if retv < 0 then Some (retv, s)
     else do {
       (retv, s1) \<leftarrow> client_rsrc_symlink C cr to s;
       let (res, s2) = client_rsrc_delete C (Some cr) s1;
       Some (if retv = 0 then res else retv, s2)
     }
   }"

definition middfs_getattr ::
    "ctx \<Rightarrow> string \<Rightarrow> client_rsrc option \<Rightarrow> proc \<Rightarrow> (int \<times> file_stat \<times> proc) option" where
  "middfs_getattr C path fi s =
     (case fi of
        Some cr \<Rightarrow> client_rsrc_lstat C cr s
      | None \<Rightarrow> do {
          (retv, cr) \<leftarrow> client_rsrc_init C path new_rsrc;
          if retv < 0 then Some (retv, zero_stat_buf, s)
          else do {
            (retv, st, s1) \<leftarrow> client_rsrc_lstat C cr s;
            let (res, s2) = client_rsrc_delete C (Some cr) s1;
            Some (join_status retv res, st, s2)
          }
        })"

text \<open>
  The link is stored in a buffer of sz bytes and terminated in place: \<open>buf[retv] = 0\<close> past
  the end of the buffer is undefined. The result holds the buffer's text.
\<close>

definition middfs_readlink ::
    "ctx \<Rightarrow> string \<Rightarrow> u64 \<Rightarrow> proc \<Rightarrow> (int \<times> byte list \<times> proc) option" where
  "middfs_readlink C path sz s = do {
     (retv, cr) \<leftarrow> client_rsrc_init C path new_rsrc;
     if retv < 0 then Some (retv, [], s)
     else do {
       (retv, bs, s1) \<leftarrow> client_rsrc_readlink C cr sz s;
       buf \<leftarrow> (if retv < 0 then Some []
               else if retv < int (unat sz) then Some (take (nat retv) bs @ [0]) else None);
       let (res, s2) = client_rsrc_delete C (Some cr) s1;
       Some (join_status retv res, buf, s2)
     }
   }"

definition middfs_readdir ::
    "ctx \<Rightarrow> string \<Rightarrow> 'b filler \<Rightarrow> 'b \<Rightarrow> proc \<Rightarrow> (int \<times> 'b \<times> proc) option" where
  "middfs_readdir C path filler buf s = do {
     (retv, cr) \<leftarrow> client_rsrc_init C path new_rsrc;
     if retv < 0 then Some (retv, buf, s)
     else do {
       (retv, cr1, s1) \<leftarrow> client_rsrc_open C cr O_RDONLY None s;
       (retv, cr2, buf1, s2) \<leftarrow>
         (if retv < 0 then Some (retv, cr1, buf, s1) else client_rsrc_readdir C cr1 filler buf s1);
       let (res, s3) = client_rsrc_delete C (Some cr2) s2;
       Some (if res < 0 \<and> retv \<ge> 0 then res else retv, buf1, s3)
     }
   }"

text \<open>A failed second \<open>client_rsrc_init\<close> leads to the deletion of an uninitialised resource.\<close>

definition middfs_rename :: "ctx \<Rightarrow> string \<Rightarrow> string \<Rightarrow> proc \<Rightarrow> (int \<times> proc) option" where
  "middfs_rename C from to s = do {
     (retv, cr_from) \<leftarrow> client_rsrc_init C from new_rsrc;
     if retv < 0 then Some (retv, s)
     else do {
       (retv, cr_to) \<leftarrow> client_rsrc_init C to new_rsrc;
       if retv < 0 then None
       else do {
         (retv, s1) \<leftarrow> client_rsrc_rename C cr_from cr_to s;
         let s2 = snd (client_rsrc_delete C (Some cr_from) s1);
         let s3 = snd (client_rsrc_delete C (Some cr_to) s2);
         Some (retv, s3)
       }
     }
   }"

definition middfs_link :: "string \<Rightarrow> string \<Rightarrow> proc \<Rightarrow> (int \<times> proc) option" where
  "middfs_link from to s = None"

definition middfs_chmod ::
    "ctx \<Rightarrow> string \<Rightarrow> u32 \<Rightarrow> client_rsrc option \<Rightarrow> proc \<Rightarrow> (int \<times> proc) option" where
  "middfs_chmod C path mode fi s =
     (case fi of
        Some cr \<Rightarrow> client_rsrc_chmod C cr mode s
      | None \<Rightarrow> do {
          (retv, cr) \<leftarrow> client_rsrc_init C path new_rsrc;
          if retv < 0 then Some (retv, s)
          else do {
            (retv, s1) \<leftarrow> client_rsrc_chmod C cr mode s;
            Some (retv, snd (client_rsrc_delete C (Some cr) s1))
          }
        })"

definition middfs_truncate ::
    "ctx \<Rightarrow> string \<Rightarrow> u64 \<Rightarrow> client_rsrc option \<Rightarrow> proc \<Rightarrow> (int \<times> proc) option" where
  "middfs_truncate C path sz fi s =
     (case fi of
        Some cr \<Rightarrow> client_rsrc_truncate C cr sz s
      | None \<Rightarrow> with_path C path (\<lambda>cr. client_rsrc_truncate C cr sz) s)"

section \<open>Open files\<close>

text \<open>
  The result holds the resource that \<open>fi->fh\<close> then points to, if there is one. Its block is
  allocated by \<open>malloc\<close>; 32 is its size.
\<close>

definition sizeof_client_rsrc :: nat where "sizeof_client_rsrc = 32"

definition open_file ::
    "ctx \<Rightarrow> string \<Rightarrow> int \<Rightarrow> int option \<Rightarrow> proc \<Rightarrow> (int \<times> client_rsrc option \<times> proc) option" where
  "open_file C path flags varg s =
     (if \<not> can_alloc (cx_mem C) sizeof_client_rsrc
      then (let s1 = no_memory s in Some (- pr_errno s1, None, s1))
      else do {
        (retv, cr) \<leftarrow> client_rsrc_init C path new_rsrc;
        if retv < 0 then Some (retv, None, s)
        else do {
          (retv, cr1, s1) \<leftarrow> client_rsrc_open C cr flags varg s;
          Some (if retv < 0 then (retv, None, snd (client_rsrc_delete C (Some cr1) s1))
                else (retv, Some cr1, s1))
        }
      })"

definition middfs_create ::
    "ctx \<Rightarrow> string \<Rightarrow> u32 \<Rightarrow> int \<Rightarrow> proc \<Rightarrow> (int \<times> client_rsrc option \<times> proc) option" where
  "middfs_create C path mode flags s = open_file C path flags (Some (sint mode)) s"

text \<open>\<open>client_rsrc_open\<close> is called without the mode.\<close>

definition middfs_open ::
    "ctx \<Rightarrow> string \<Rightarrow> int \<Rightarrow> proc \<Rightarrow> (int \<times> client_rsrc option \<times> proc) option" where
  "middfs_open C path flags s = do {
     (retv, fh, s1) \<leftarrow> open_file C path flags None s;
     Some (if retv < 0 then retv else 0, fh, s1)
   }"

text \<open>\<open>errno = -retv\<close>, for the message of \<open>perror\<close>.\<close>

definition note_errno :: "int \<Rightarrow> proc \<Rightarrow> proc" where
  "note_errno retv s = (if retv < 0 then s\<lparr>pr_errno := - retv\<rparr> else s)"

text \<open>
  Without an open file \<open>middfs_read\<close> deletes what \<open>client_rsrc\<close> points to, which is nothing
  while the open has failed, and returns the status of the deletion instead of the count.
\<close>

definition middfs_read ::
    "ctx \<Rightarrow> string \<Rightarrow> u64 \<Rightarrow> u64 \<Rightarrow> client_rsrc option \<Rightarrow> proc \<Rightarrow> (int \<times> byte list \<times> proc) option" where
  "middfs_read C path sz offset fi s =
     (case fi of
        Some cr \<Rightarrow> do {
          (retv, bs, s1) \<leftarrow> client_rsrc_read C cr sz offset s;
          Some (retv, bs, note_errno retv s1)
        }
      | None \<Rightarrow> do {
          (retv, cr) \<leftarrow> client_rsrc_init C path new_rsrc;
          if retv < 0 then Some (retv, [], s)
          else do {
            (retv, cr1, s1) \<leftarrow> client_rsrc_open C cr O_RDONLY None s;
            if retv < 0 then
              (let (res, s2) = client_rsrc_delete C None s1 in
               Some (join_status retv res, [], s2))
            else do {
              (retv, bs, s2) \<leftarrow> client_rsrc_read C cr1 sz offset s1;
              let (res, s3) = client_rsrc_delete C (Some cr1) (note_errno retv s2);
              Some (join_status retv res, bs, s3)
            }
          }
        })"

text \<open>
  Without an open file \<open>middfs_write\<close> never sets \<open>client_rsrc\<close>: writing reads through a null
  pointer.
\<close>

definition middfs_write ::
    "ctx \<Rightarrow> string \<Rightarrow> byte list \<Rightarrow> u64 \<Rightarrow> u64 \<Rightarrow> client_rsrc option \<Rightarrow> proc \<Rightarrow> (int \<times> proc) option" where
  "middfs_write C path buf sz offset fi s =
     (case fi of
        Some cr \<Rightarrow> do {
          (retv, s1) \<leftarrow> client_rsrc_write C cr buf sz offset s;
          Some (retv, note_errno retv s1)
        }
      | None \<Rightarrow> do {
          (retv, cr) \<leftarrow> client_rsrc_init C path new_rsrc;
          if retv < 0 then Some (retv, s)
          else do {
            (retv, cr1, s1) \<leftarrow> client_rsrc_open C cr O_WRONLY None s;
            if retv < 0 then Some (retv, snd (client_rsrc_delete C None s1)) else None
          }
        })"

definition middfs_statfs :: "ctx \<Rightarrow> string \<Rightarrow> proc \<Rightarrow> int \<times> proc" where
  "middfs_statfs C path s = sys_status C (Sys_statvfs path) s"

definition middfs_release :: "ctx \<Rightarrow> string \<Rightarrow> client_rsrc option \<Rightarrow> proc \<Rightarrow> int \<times> proc" where
  "middfs_release C path fh s = (case client_rsrc_delete C fh s of (retv, s1) \<Rightarrow> (0, s1))"

section \<open>The table of operations\<close>

text \<open>
  \<open>struct fuse_operations middfs_oper\<close>, for the operations that the library calls with a path
  and no open file: the value each returns to it, and the process.
\<close>

datatype fuse_op =
    F_getattr
  | F_access int
  | F_readlink u64
  | F_mkdir u32
  | F_symlink string
  | F_unlink
  | F_rmdir
  | F_rename string
  | F_link string
  | F_chmod u32
  | F_truncate u64
  | F_open int
  | F_create u32 int
  | F_statfs
  | F_readdir

definition middfs_oper ::
    "ctx \<Rightarrow> 'b filler \<Rightarrow> 'b \<Rightarrow> fuse_op \<Rightarrow> string \<Rightarrow> proc \<Rightarrow> (int \<times> proc) option" where
  "middfs_oper C filler buf oper path s =
     (case oper of
        F_getattr \<Rightarrow> do { (r, st, s1) \<leftarrow> middfs_getattr C path None s; Some (r, s1) }
      | F_access mode \<Rightarrow> middfs_access C path mode s
      | F_readlink sz \<Rightarrow> do { (r, bs, s1) \<leftarrow> middfs_readlink C path sz s; Some (r, s1) }
      | F_mkdir mode \<Rightarrow> middfs_mkdir C path mode s
      | F_symlink to \<Rightarrow> middfs_symlink C to path s
      | F_unlink \<Rightarrow> middfs_unlink C path s
      | F_rmdir \<Rightarrow> middfs_rmdir C path s
      | F_rename to \<Rightarrow> middfs_rename C path to s
      | F_link to \<Rightarrow> middfs_link path to s
      | F_chmod mode \<Rightarrow> middfs_chmod C path mode None s
      | F_truncate sz \<Rightarrow> middfs_truncate C path sz None s
      | F_open flags \<Rightarrow> do { (r, fh, s1) \<leftarrow> middfs_open C path flags s; Some (r, s1) }
      | F_create mode flags \<Rightarrow> do { (r, fh, s1) \<leftarrow> middfs_create C path mode flags s; Some (r, s1) }
      | F_statfs \<Rightarrow> Some (middfs_statfs C path s)
      | F_readdir \<Rightarrow> do { (r, buf1, s1) \<leftarrow> middfs_readdir C path filler buf s; Some (r, s1) })"

section \<open>Start\<close>

text \<open>The fields of \<open>struct fuse_config\<close> that \<open>middfs_init\<close> sets; the timeouts in seconds.\<close>

record fuse_config =
  use_ino :: int
  entry_timeout :: nat
  attr_timeout :: nat
  negative_timeout :: nat

definition middfs_init :: "fuse_config \<Rightarrow> fuse_config" where
  "middfs_init cfg =
     cfg\<lparr>use_ino := 1, entry_timeout := 0, attr_timeout := 0, negative_timeout := 0\<rparr>"

end
