(* ===== verification/Client_Handler.thy ===== *)
theory Client_Handler
  imports Client_Rsrc Middfs_Serve
begin

text \<open>
  The client responder, \<open>client/middfs-client-handler.c\<close> and \<open>client/middfs-client-responder.c\<close>:
  the thread of a client that serves the requests the server forwards to it, from the
  client's own files. It runs on the connection manager of the server, with handlers of its
  own whose global state is the process.
\<close>

section \<open>The requests\<close>

text \<open>
  Each function returns its \<open>int\<close> and the response. \<open>handle_request_read\<close> keeps the bytes it
  got; what the rest of its block holds is never read.
\<close>

definition handle_request_read ::
    "ctx \<Rightarrow> int \<Rightarrow> middfs_request \<Rightarrow> middfs_response \<Rightarrow> proc \<Rightarrow> int \<times> middfs_response \<times> proc" where
  "handle_request_read C fd req rsp s =
     (if \<not> can_alloc (cx_mem C) (unat (mreq_size req))
      then (let s1 = no_memory s in (- pr_errno s1, rsp, s1))
      else
        (let (r, s1) = sys C (Sys_pread fd (mreq_size req) (mreq_off req)) s in
         if r_ret r < 0
         then (- pr_errno s1, rsp\<lparr>mrsp_un := Rsp_error (word_of_int (pr_errno s1))\<rparr>, s1)
         else (0, rsp\<lparr>mrsp_type := MRSP_DATA,
                      mrsp_un := Rsp_data \<lparr>mdata_buf = Some (r_bytes r),
                                           mdata_nbytes = word_of_nat (length (r_bytes r))\<rparr>\<rparr>, s1)))"

definition handle_request_write ::
    "ctx \<Rightarrow> int \<Rightarrow> middfs_request \<Rightarrow> middfs_response \<Rightarrow> proc \<Rightarrow> int \<times> middfs_response \<times> proc" where
  "handle_request_write C fd req rsp s =
     (let (r, s1) = sys C (Sys_pwrite fd (mreq_data req) (mreq_size req) (mreq_off req)) s in
      if r_ret r < 0 then (- pr_errno s1, rsp, s1)
      else (0, rsp\<lparr>mrsp_type := MRSP_OK\<rparr>, s1))"

definition handle_request_getattr ::
    "ctx \<Rightarrow> string \<Rightarrow> middfs_response \<Rightarrow> proc \<Rightarrow> int \<times> middfs_response \<times> proc" where
  "handle_request_getattr C path rsp s =
     (let (r, s1) = sys C (Sys_stat path) s; st = r_stat r in
      if r_ret r < 0 then (- pr_errno s1, rsp, s1)
      else (0, rsp\<lparr>mrsp_type := MRSP_STAT,
                   mrsp_un := Rsp_stat \<lparr>mstat_mode = st_mode st, mstat_size = st_size st,
                     mstat_blocks = st_blocks st, mstat_blksize = st_blksize st\<rparr>\<rparr>, s1))"

text \<open>
  The second pass over the directory: the array as it is left, and whether all names could be
  allocated. An entry more than the first pass counted is written past the array (None).
\<close>

fun fill_dirents ::
    "cenv \<Rightarrow> nat \<Rightarrow> dir_ent list \<Rightarrow> middfs_dirent list \<Rightarrow> (bool \<times> middfs_dirent list) option" where
  "fill_dirents E i [] ents = Some (True, ents)"
| "fill_dirents E i (e # es) ents =
     (if i < length ents then do {
        nm \<leftarrow> strdup E (Some (d_name e));
        if nm = None then Some (False, ents[i := (ents ! i)\<lparr>mde_name := None\<rparr>])
        else fill_dirents E (i + 1) es
               (ents[i := \<lparr>mde_name = nm, mde_mode = dirent_mode (d_type e)\<rparr>])
      }
      else None)"

text \<open>The directory stream is never closed.\<close>

definition handle_request_readdir ::
    "ctx \<Rightarrow> string \<Rightarrow> middfs_response \<Rightarrow> proc \<Rightarrow> (int \<times> middfs_response \<times> proc) option" where
  "handle_request_readdir C path rsp s = do {
     let rsp1 = rsp\<lparr>mrsp_type := MRSP_DIR\<rparr>;
     let (d, s1) = sys C (Sys_opendir path) s;
     if r_ret d < 0 then Some (- pr_errno s1, rsp1, s1)
     else do {
       let (pass1, s2) = sys C (Sys_readdir (r_ret d)) s1;
       let count = (word_of_nat (length (r_ents pass1)) :: u64);
       let rsp2 = (\<lambda>ents. rsp1\<lparr>mrsp_un := Rsp_dir \<lparr>mdir_count = count, mdir_ents = ents\<rparr>\<rparr>);
       if \<not> calloc_ok (cx_mem C) count sizeof_dirent
       then (let s3 = no_memory s2 in Some (- pr_errno s3, rsp2 None, s3))
       else do {
         let s3 = snd (sys C (Sys_rewinddir (r_ret d)) s2);
         let (pass2, s4) = sys C (Sys_readdir (r_ret d)) s3;
         (filled, ents) \<leftarrow>
           fill_dirents (cx_mem C) 0 (r_ents pass2) (replicate (unat count) zero_dirent);
         Some (if filled then (0, rsp2 (Some ents), s4)
               else (let s5 = no_memory s4 in (- pr_errno s5, rsp2 (Some ents), s5)))
       }
     }
   }"

definition handle_request_access ::
    "ctx \<Rightarrow> string \<Rightarrow> middfs_request \<Rightarrow> middfs_response \<Rightarrow> proc \<Rightarrow> int \<times> middfs_response \<times> proc" where
  "handle_request_access C path req rsp s =
     (let (r, s1) = sys C (Sys_access path (sint (mreq_mode req))) s in
      if r_ret r < 0 then (- pr_errno s1, rsp, s1) else (0, response_init rsp MRSP_OK, s1))"

definition handle_request_open ::
    "ctx \<Rightarrow> string \<Rightarrow> middfs_request \<Rightarrow> middfs_response \<Rightarrow> proc \<Rightarrow> int \<times> middfs_response \<times> proc" where
  "handle_request_open C path req rsp s =
     (let (r, s1) = sys C (Sys_open path (sint (mreq_mode req)) 438) s in
      if r_ret r < 0 then (- pr_errno s1, rsp, s1)
      else (0, response_init rsp MRSP_OK, snd (sys C (Sys_close (r_ret r)) s1)))"

definition handle_request_truncate ::
    "ctx \<Rightarrow> string \<Rightarrow> middfs_request \<Rightarrow> middfs_response \<Rightarrow> proc \<Rightarrow> int \<times> middfs_response \<times> proc" where
  "handle_request_truncate C path req rsp s =
     (let (r, s1) = sys C (Sys_truncate path (mreq_size req)) s in
      if r_ret r < 0 then (- pr_errno s1, rsp, s1) else (0, response_init rsp MRSP_OK, s1))"

definition handle_request_rename ::
    "ctx \<Rightarrow> string \<Rightarrow> middfs_request \<Rightarrow> middfs_response \<Rightarrow> proc \<Rightarrow>
     (int \<times> middfs_response \<times> proc) option" where
  "handle_request_rename C path req rsp s = do {
     to \<leftarrow> middfs_localpath_tmp C (mr_path (mreq_to req));
     let (r, s1) = sys C (Sys_rename path to) s;
     Some (if r_ret r < 0 then (- pr_errno s1, rsp, s1)
           else (0, response_init rsp MRSP_OK, s1))
   }"

section \<open>Dispatch\<close>

text \<open>
  The table \<open>handle_request_fns\<close> with the calls through it: the functions on a path, and those
  on a descriptor of the file, opened for the call. None is a request the switch does not
  hand to a function.
\<close>

definition path_request ::
    "ctx \<Rightarrow> string \<Rightarrow> middfs_request \<Rightarrow> middfs_response \<Rightarrow> proc \<Rightarrow>
     (int \<times> middfs_response \<times> proc) option" where
  "path_request C path req rsp s =
     (case mreq_type req of
        MREQ_GETATTR \<Rightarrow> Some (handle_request_getattr C path rsp s)
      | MREQ_READDIR \<Rightarrow> handle_request_readdir C path rsp s
      | MREQ_ACCESS \<Rightarrow> Some (handle_request_access C path req rsp s)
      | MREQ_OPEN \<Rightarrow> Some (handle_request_open C path req rsp s)
      | MREQ_TRUNCATE \<Rightarrow> Some (handle_request_truncate C path req rsp s)
      | MREQ_RENAME \<Rightarrow> handle_request_rename C path req rsp s
      | _ \<Rightarrow> None)"

definition fd_request ::
    "ctx \<Rightarrow> string \<Rightarrow> middfs_request \<Rightarrow> middfs_response \<Rightarrow> proc \<Rightarrow>
     (int \<times> middfs_response \<times> proc) option" where
  "fd_request C path req rsp s = do {
     let (r, s1) = sys C (Sys_open path O_RDWR 0) s;
     if r_ret r < 0 then Some (- pr_errno s1, rsp, s1)
     else do {
       (st, rsp1, s2) \<leftarrow>
         (case mreq_type req of
            MREQ_READ \<Rightarrow> Some (handle_request_read C (r_ret r) req rsp s1)
          | MREQ_WRITE \<Rightarrow> Some (handle_request_write C (r_ret r) req rsp s1)
          | _ \<Rightarrow> None);
       Some (st, rsp1, snd (sys C (Sys_close (r_ret r)) s2))
     }
   }"

definition on_path :: "middfs_request_type \<Rightarrow> bool" where
  "on_path t \<longleftrightarrow>
     t = MREQ_GETATTR \<or> t = MREQ_READDIR \<or> t = MREQ_ACCESS \<or> t = MREQ_OPEN \<or>
     t = MREQ_TRUNCATE \<or> t = MREQ_RENAME"

definition on_fd :: "middfs_request_type \<Rightarrow> bool" where
  "on_fd t \<longleftrightarrow> t = MREQ_READ \<or> t = MREQ_WRITE"

definition handle_request ::
    "ctx \<Rightarrow> middfs_packet \<Rightarrow> middfs_packet \<Rightarrow> proc \<Rightarrow> (handler_e \<times> middfs_packet \<times> proc) option" where
  "handle_request C in_pkt out_pkt s = do {
     req \<leftarrow> get_request (mpkt_un in_pkt);
     let out1 = out_pkt\<lparr>mpkt_magic := MPKT_MAGIC, mpkt_type := MPKT_RESPONSE\<rparr>;
     let rsp = old_response (mpkt_un out1);
     path \<leftarrow> middfs_localpath_tmp C (mr_path (mreq_rsrc req));
     let t = mreq_type req;
     if \<not> on_path t \<and> \<not> on_fd t then Some (HS_DEL, out1, s)
     else do {
       (request_status, rsp1, s1) \<leftarrow>
         (if on_path t then path_request C path req rsp s else fd_request C path req rsp s);
       let rsp2 = (if request_status < 0
                   then rsp1\<lparr>mrsp_type := MRSP_ERROR,
                             mrsp_un := Rsp_error (word_of_int (- request_status))\<rparr>
                   else rsp1);
       Some (HS_SUC, out1\<lparr>mpkt_un := Pkt_response rsp2\<rparr>, s1)
     }
   }"

section \<open>The handler interface\<close>

definition client_pkt_rd_fin ::
    "ctx \<Rightarrow> middfs_packet \<Rightarrow> middfs_sockinfo \<times> proc \<Rightarrow> (handler_e \<times> middfs_sockinfo \<times> proc) option" where
  "client_pkt_rd_fin C in_pkt s = do {
     let (sockinfo, p) = s;
     if si_state sockinfo \<noteq> MSS_REQRD then None
     else
       (case mpkt_type in_pkt of
          MPKT_REQUEST \<Rightarrow> do {
            (retv, out_pkt, p1) \<leftarrow> handle_request C in_pkt zero_packet p;
            if retv = HS_DEL then Some (HS_DEL, sockinfo, p1)
            else do {
              (r, buf) \<leftarrow> buffer_serialize (cx_mem C) (serialize_pkt out_pkt) (se_buf (si_out sockinfo));
              let info1 = set_out_buf buf sockinfo;
              Some (if r < 0 then (HS_DEL, info1, p1)
                    else (HS_SUC,
                          info1\<lparr>si_state := MSS_RSPWR,
                                si_out := (si_out info1)\<lparr>se_fd := se_fd (si_in info1)\<rparr>,
                                si_in := (si_in info1)\<lparr>se_fd := -1\<rparr>\<rparr>, p1))
            }
          }
        | _ \<Rightarrow> Some (HS_DEL, sockinfo, p))
   }"

definition client_pkt_wr_fin ::
    "middfs_sockinfo \<times> proc \<Rightarrow> (handler_e \<times> middfs_sockinfo \<times> proc) option" where
  "client_pkt_wr_fin s =
     (if si_state (fst s) \<noteq> MSS_RSPWR then None else Some (HS_DEL, s))"

definition client_hi :: "ctx \<Rightarrow> proc handler_info" where
  "client_hi C =
     \<lparr>rd_fin = \<lambda>io pkt s. client_pkt_rd_fin C pkt s, wr_fin = \<lambda>io s. client_pkt_wr_fin s\<rparr>"

section \<open>The responder thread\<close>

text \<open>The arguments of the thread are the port and the backlog; start is as for the server.\<close>

definition client_responder ::
    "ctx \<Rightarrow> string \<Rightarrow> int \<Rightarrow> (string \<Rightarrow> int \<Rightarrow> start_io) \<Rightarrow> (int \<Rightarrow> bool) \<Rightarrow> (nat \<Rightarrow> round) \<Rightarrow> proc \<Rightarrow>
     (middfs_socks \<times> proc) option" where
  "client_responder C port backlog start cl rounds p = do {
     (r, socks) \<leftarrow> server_start (cx_mem C) (start port backlog) middfs_socks_init;
     if r < 0 then Some (socks, p)
     else serve_rounds (cx_mem C) (client_hi C) cl rounds 0 (socks, p)
   }"

end
