(* ===== verification/Client_Main.thy ===== *)
theory Client_Main
  imports Client_Ops Client_Handler
begin

text \<open>
  The start of the client program, \<open>client/middfs-client.c\<close>: registering with the server, the
  responder thread, the commands for a mirror mount, and \<open>main\<close>. The FUSE library, which
  parses the options and runs the file system, is a parameter.
\<close>

section \<open>Options\<close>

record middfs_opts =
  show_help :: int
  op_localport :: cstr
  op_remoteport :: cstr
  op_username :: cstr
  op_confpath :: cstr
  op_homepath :: cstr

definition middfs_defaultopts :: "middfs_opts \<Rightarrow> middfs_opts" where
  "middfs_defaultopts opts =
     \<lparr>show_help = 0, op_localport = None, op_remoteport = None, op_username = None,
      op_confpath = None, op_homepath = None\<rparr>"

section \<open>Mirrors\<close>

text \<open>\<open>system\<close> of a command whose text cannot be allocated is undefined.\<close>

definition run_command :: "ctx \<Rightarrow> string \<Rightarrow> proc \<Rightarrow> (int \<times> proc) option" where
  "run_command C cmd s =
     (if can_alloc (cx_mem C) (length cmd + 1)
      then (let (r, s1) = sys C (Sys_system cmd) s in
            Some (if r_ret r \<noteq> 0 then -1 else 0, s1))
      else None)"

definition middfs_mirror_mount :: "ctx \<Rightarrow> string \<Rightarrow> string \<Rightarrow> proc \<Rightarrow> (int \<times> proc) option" where
  "middfs_mirror_mount C dir mirror s =
     run_command C (''mount_nullfs '' @ dir @ '' '' @ mirror) s"

definition middfs_mirror_unmount :: "ctx \<Rightarrow> string \<Rightarrow> proc \<Rightarrow> (int \<times> proc) option" where
  "middfs_mirror_unmount C mirror s = run_command C (''umount '' @ mirror) s"

section \<open>Registering\<close>

text \<open>The loop ends when everything is written or a write fails, whatever the error.\<close>

partial_function (option) connect_send_loop ::
    "ctx \<Rightarrow> int \<Rightarrow> buffer \<Rightarrow> proc \<Rightarrow> (buffer \<times> proc) option" where
  "connect_send_loop C fd buf s =
     (if buffer_isempty buf then Some (buf, s)
      else do {
        (n, buf1, s1) \<leftarrow> fd_write C fd buf s;
        if n \<ge> 0 then connect_send_loop C fd buf1 s1 else Some (buf1, s1)
      })"

definition connect_pkt :: "middfs_connect \<Rightarrow> middfs_packet" where
  "connect_pkt conn =
     zero_packet\<lparr>mpkt_magic := MPKT_MAGIC, mpkt_type := MPKT_CONNECT, mpkt_un := Pkt_connect conn\<rparr>"

definition client_connect :: "ctx \<Rightarrow> string \<Rightarrow> u32 \<Rightarrow> cstr \<Rightarrow> proc \<Rightarrow> (int \<times> proc) option" where
  "client_connect C server_IP port username s = do {
     let (sockfd, s1) = inet_connect C server_IP port s;
     if sockfd < 0 then Some (-1, s1)
     else do {
       let (localport, err) = conf_get_uint32 (cx_mem C) (cx_env C) MIDDFS_CONF_LOCALPORT 0;
       (retv, s2) \<leftarrow>
         (if err \<noteq> 0 then Some (-1, s1)
          else do {
            (r, buf) \<leftarrow>
              buffer_serialize (cx_mem C)
                (serialize_pkt (connect_pkt \<lparr>conn_name = username, conn_port = localport\<rparr>)) buffer_init;
            if r < 0 then Some (-1, no_memory s1)
            else do {
              (buf1, s2) \<leftarrow> connect_send_loop C sockfd buf s1;
              Some (0, s2)
            }
          });
       Some (retv, snd (sys C (Sys_close sockfd) s2))
     }
   }"

text \<open>
  The arguments of the thread are one allocated block of 16 bytes. \<open>pthread_create\<close> returns its
  error number, which the code stores in \<open>errno\<close>.
\<close>

definition start_client_responder :: "ctx \<Rightarrow> string \<Rightarrow> int \<Rightarrow> proc \<Rightarrow> int \<times> proc" where
  "start_client_responder C port backlog s =
     (if \<not> can_alloc (cx_mem C) 16 then (-1, no_memory s)
      else
        (let (r, s1) = sys C (Sys_thread port backlog) s; s2 = s1\<lparr>pr_errno := r_ret r\<rparr> in
         (if r_ret r > 0 then -1 else 0, s2)))"

section \<open>Main\<close>

text \<open>
  The FUSE library: \<open>fuse_opt_parse\<close> on the middfs options, whether \<open>fuse_opt_add_arg\<close> fails,
  and \<open>fuse_main\<close>, whose run depends on the environment the client has set up. \<open>umask\<close> has no
  effect on the model.
\<close>

record fuse_lib =
  fl_parse :: "middfs_opts \<Rightarrow> int \<times> middfs_opts"
  fl_add_arg :: int
  fl_main :: "ctx \<Rightarrow> proc \<Rightarrow> int \<times> proc"

definition SERVER_IP :: string where "SERVER_IP = ''140.233.20.6''"
definition LISTEN_PORT_DEFAULT :: u32 where "LISTEN_PORT_DEFAULT = 4321"
definition CLIENT_BACKLOG_DEFAULT :: int where "CLIENT_BACKLOG_DEFAULT = 10"
definition MIDDFS_CONF_FILENAME :: string where "MIDDFS_CONF_FILENAME = ''.middfs.conf''"
definition R_OK :: int where "R_OK = 4"

text \<open>
  The configuration file, if it can be accessed: files gives its text for a path, None when
  \<open>fopen\<close> fails, and whether \<open>ferror\<close> or \<open>fclose\<close> report an error. The first result is the exit code when the client gives up.
\<close>

type_synonym conf_files = "string \<Rightarrow> string option \<times> bool \<times> bool"

definition load_conf ::
    "ctx \<Rightarrow> conf_files \<Rightarrow> cstr \<Rightarrow> proc \<Rightarrow> (int option \<times> ctx \<times> proc) option" where
  "load_conf C files op_conf s = do {
     confpath \<leftarrow>
       (case op_conf of
          Some p \<Rightarrow> Some (Some p)
        | None \<Rightarrow> do {
            home \<leftarrow> cx_env C ''HOME'';
            let p = home @ ''/'' @ MIDDFS_CONF_FILENAME;
            Some (if can_alloc (cx_mem C) (length p + 1) then Some p else None)
          });
     case confpath of
       None \<Rightarrow> Some (Some 1, C, no_memory s)
     | Some p \<Rightarrow>
         (let (r, s1) = sys C (Sys_access p R_OK) s in
          if r_ret r = 0 then
            (let (content, ferr, cerr) = files p;
                 (n, env) = conf_load (cx_mem C) content ferr cerr (cx_env C);
                 C1 = C\<lparr>cx_env := env\<rparr>
             in Some (if n < 0 then Some 1 else None, C1, s1))
          else Some (None, C, s1))
   }"

definition client_main ::
    "ctx \<Rightarrow> fuse_lib \<Rightarrow> conf_files \<Rightarrow> middfs_opts \<Rightarrow> proc \<Rightarrow> (int \<times> proc) option" where
  "client_main C fuse files opts0 s =
     (let (r, opts) = fl_parse fuse (middfs_defaultopts opts0) in
      if r < 0 then Some (1, s)
      else if show_help opts \<noteq> 0 then
        (if fl_add_arg fuse < 0 then Some (1, s) else Some (0, snd (fl_main fuse C s)))
      else do {
        (stop, C1, s1) \<leftarrow> load_conf C files (op_confpath opts) s;
        case stop of
          Some code \<Rightarrow> Some (code, s1)
        | None \<Rightarrow> do {
            (r, s2) \<leftarrow>
              client_connect C1 SERVER_IP LISTEN_PORT_DEFAULT
                (conf_get (cx_mem C1) (cx_env C1) MIDDFS_CONF_USERNAME) s1;
            if r < 0 then Some (1, s2)
            else
              (case conf_get (cx_mem C1) (cx_env C1) MIDDFS_CONF_LOCALPORT of
                 None \<Rightarrow> Some (1, s2)
               | Some port \<Rightarrow>
                   (let (r, s3) = start_client_responder C1 port CLIENT_BACKLOG_DEFAULT s2 in
                    Some (if r < 0 then (1, s3) else fl_main fuse C1 s3)))
          }
      })"

end
