(* ===== verification/Client_Calls.thy ===== *)
theory Client_Calls
  imports Client_Main Buf_Laws
begin

text \<open>
  Which system calls the client makes: what a function adds to the calls of the process. A
  request to the server is one conversation on a socket of its own; an operation on a
  resource of another user, or on the root, makes no other call, and an operation on the
  user's own files makes calls on paths below the user's directory only.
\<close>

section \<open>Added calls\<close>

definition calls_by :: "(syscall \<Rightarrow> bool) \<Rightarrow> proc \<Rightarrow> proc \<Rightarrow> bool" where
  "calls_by P s s' \<longleftrightarrow> (\<exists>cs. pr_calls s' = pr_calls s @ cs \<and> list_all P cs)"

named_theorems calls_intros \<open>the calls a function adds\<close>

lemma calls_by_refl [calls_intros]: "pr_calls s' = pr_calls s \<Longrightarrow> calls_by P s s'"
  by (simp add: calls_by_def)

lemma calls_by_trans: "calls_by P s s1 \<Longrightarrow> calls_by P s1 s' \<Longrightarrow> calls_by P s s'"
  by (fastforce simp: calls_by_def)

lemma calls_by_mono: "calls_by P s s' \<Longrightarrow> (\<And>c. P c \<Longrightarrow> Q c) \<Longrightarrow> calls_by Q s s'"
  by (auto simp: calls_by_def list_all_iff)

lemma sys_calls [simp]: "pr_calls (snd (sys C c s)) = pr_calls s @ [c]"
  by (simp add: sys_def Let_def)

lemma sys_step:
  assumes "sys C c s = (r, s1)"
  shows "pr_calls s1 = pr_calls s @ [c]" "r = cx_os C (pr_calls s) c"
    "pr_errno s1 = (if r_ret r < 0 then r_errno r else pr_errno s)"
  using assms by (auto simp: sys_def Let_def)

lemma sys_calls_by: "sys C c s = (r, s1) \<Longrightarrow> P c \<Longrightarrow> calls_by P s s1"
  by (auto simp: calls_by_def sys_step)

lemma sys_snd_calls_by: "P c \<Longrightarrow> calls_by P s (snd (sys C c s))"
  by (simp add: calls_by_def)

lemma no_memory_calls [simp]: "pr_calls (no_memory s) = pr_calls s"
  by (simp add: no_memory_def)

lemma sys_status_calls [simp]: "pr_calls (snd (sys_status C c s)) = pr_calls s @ [c]"
  by (simp add: sys_status_def case_prod_beta)

lemma sys_count_calls [simp]: "pr_calls (snd (snd (sys_count C c s))) = pr_calls s @ [c]"
  by (simp add: sys_count_def case_prod_beta)

lemma sys_status_calls_by: "sys_status C c s = (r, s1) \<Longrightarrow> P c \<Longrightarrow> calls_by P s s1"
  using sys_status_calls [of C c s] by (auto simp: calls_by_def)

lemma sys_count_calls_by: "sys_count C c s = (n, r, s1) \<Longrightarrow> P c \<Longrightarrow> calls_by P s s1"
  using sys_count_calls [of C c s] by (auto simp: calls_by_def)

section \<open>A conversation\<close>

lemma fd_write_calls:
  "fd_write C fd buf s = Some (n, buf1, s1) \<Longrightarrow> calls_by (\<lambda>c. \<exists>bs. c = Sys_write fd bs) s s1"
  by (auto simp: fd_write_def bind_Some_iff calls_by_def case_prod_beta)

lemma fd_read_calls:
  "fd_read C fd buf s = Some (n, buf1, s1) \<Longrightarrow> calls_by (\<lambda>c. \<exists>k. c = Sys_read fd k) s s1"
  by (auto simp: fd_read_def bind_Some_iff calls_by_def case_prod_beta split: if_splits)

lemma packet_send_loop_calls:
  assumes "packet_send_loop C fd buf s = Some res"
  shows "calls_by (\<lambda>c. \<exists>bs. c = Sys_write fd bs) s (snd (snd res))"
proof (rule packet_send_loop.raw_induct [OF _ assms,
      where P = "\<lambda>C fd buf s res. calls_by (\<lambda>c. \<exists>bs. c = Sys_write fd bs) s (snd (snd res))"])
  fix loop C fd buf s res
  assume IH: "\<And>C fd buf s res. loop C fd buf s = Some res \<Longrightarrow>
      calls_by (\<lambda>c. \<exists>bs. c = Sys_write fd bs) s (snd (snd res))"
    and body: "(if buffer_isempty buf then Some (0, buf, s)
      else do {
        (n, buf1, s1) \<leftarrow> fd_write C fd buf s;
        if cint n < 0 \<and> pr_errno s1 \<noteq> EINTR then Some (- pr_errno s1, buf1, s1)
        else loop C fd buf1 s1
      }) = Some res"
  show "calls_by (\<lambda>c. \<exists>bs. c = Sys_write fd bs) s (snd (snd res))"
  proof (cases "buffer_isempty buf")
    case True
    with body show ?thesis by (auto intro: calls_intros)
  next
    case False
    with body obtain n buf1 s1 where w: "fd_write C fd buf s = Some (n, buf1, s1)"
      and rest: "(if cint n < 0 \<and> pr_errno s1 \<noteq> EINTR then Some (- pr_errno s1, buf1, s1)
        else loop C fd buf1 s1) = Some res"
      by (auto simp: bind_Some_iff)
    from rest IH [of C fd buf1 s1 res] fd_write_calls [OF w] show ?thesis
      by (auto intro: calls_by_trans split: if_splits)
  qed
qed

lemma packet_recv_loop_calls:
  assumes "packet_recv_loop C fd pkt buf s = Some res"
  shows "calls_by (\<lambda>c. \<exists>k. c = Sys_read fd k) s (snd (snd (snd res)))"
proof (rule packet_recv_loop.raw_induct [OF _ assms,
      where P = "\<lambda>C fd pkt buf s res. calls_by (\<lambda>c. \<exists>k. c = Sys_read fd k) s (snd (snd (snd res)))"])
  fix loop C fd pkt buf s res
  assume IH: "\<And>C fd pkt buf s res. loop C fd pkt buf s = Some res \<Longrightarrow>
      calls_by (\<lambda>c. \<exists>k. c = Sys_read fd k) s (snd (snd (snd res)))"
    and body: "do {
      (retv, pkt1, buf1) \<leftarrow> buffer_deserialize (deserialize_pkt (cx_mem C)) pkt buf;
      if retv > 0 then do {
        (n, buf2, s1) \<leftarrow> fd_read C fd buf1 s;
        if cint n \<le> 0 then Some (retv, pkt1, buf2, s1) else loop C fd pkt1 buf2 s1
      }
      else Some (retv, pkt1, buf1, if retv < 0 then no_memory s else s)
    } = Some res"
  from body obtain retv pkt1 buf1 where
    rest: "(if retv > 0 then do {
        (n, buf2, s1) \<leftarrow> fd_read C fd buf1 s;
        if cint n \<le> 0 then Some (retv, pkt1, buf2, s1) else loop C fd pkt1 buf2 s1
      }
      else Some (retv, pkt1, buf1, if retv < 0 then no_memory s else s)) = Some res"
    by (auto simp: bind_Some_iff)
  show "calls_by (\<lambda>c. \<exists>k. c = Sys_read fd k) s (snd (snd (snd res)))"
  proof (cases "retv > 0")
    case False
    with rest show ?thesis by (auto intro: calls_intros)
  next
    case True
    with rest obtain n buf2 s1 where r: "fd_read C fd buf1 s = Some (n, buf2, s1)"
      and last: "(if cint n \<le> 0 then Some (retv, pkt1, buf2, s1) else loop C fd pkt1 buf2 s1) = Some res"
      by (auto simp: bind_Some_iff)
    from last IH [of C fd pkt1 buf2 s1 res] fd_read_calls [OF r] show ?thesis
      by (auto intro: calls_by_trans split: if_splits)
  qed
qed

definition on_socket :: "int \<Rightarrow> syscall \<Rightarrow> bool" where
  "on_socket fd c \<longleftrightarrow> (\<exists>bs. c = Sys_write fd bs) \<or> (\<exists>k. c = Sys_read fd k)"

lemma packet_send_calls:
  assumes "packet_send C fd pkt s = Some (r, s1)"
  shows "calls_by (on_socket fd) s s1"
proof -
  have "calls_by (\<lambda>c. \<exists>bs. c = Sys_write fd bs) s s1"
    using assms by (auto simp: packet_send_def bind_Some_iff Let_def intro: calls_intros
        dest!: packet_send_loop_calls split: if_splits)
  then show ?thesis by (rule calls_by_mono) (auto simp: on_socket_def)
qed

lemma packet_recv_calls:
  assumes "packet_recv C fd pkt s = Some (r, p, s1)"
  shows "calls_by (on_socket fd) s s1"
proof -
  have "calls_by (\<lambda>c. \<exists>k. c = Sys_read fd k) s s1"
    using assms by (auto simp: packet_recv_def bind_Some_iff Let_def dest!: packet_recv_loop_calls)
  then show ?thesis by (rule calls_by_mono) (auto simp: on_socket_def)
qed

text \<open>
  The shape of a conversation with the server at the configured address: no socket, a socket
  that could not be connected (and stays open), or a socket that is connected, written and
  read, and closed.
\<close>

definition conversation :: "ctx \<Rightarrow> proc \<Rightarrow> proc \<Rightarrow> bool" where
  "conversation C s s' \<longleftrightarrow>
     (\<exists>ip port. conf_get (cx_mem C) (cx_env C) MIDDFS_CONF_SERVERIP = Some ip \<and>
        conf_get_uint32 (cx_mem C) (cx_env C) MIDDFS_CONF_SERVERPORT 0 = (port, 0) \<and>
        (pr_calls s' = pr_calls s @ [Sys_socket] \<or>
         (\<exists>fd. pr_calls s' = pr_calls s @ [Sys_socket, Sys_connect fd ip (ucast port)]) \<or>
         (\<exists>fd cs. list_all (on_socket fd) cs \<and>
            pr_calls s' = pr_calls s @ [Sys_socket, Sys_connect fd ip (ucast port)] @ cs @ [Sys_close fd])))"

lemma inet_connect_cases:
  assumes "inet_connect C ip port s = (fd, s1)"
  obtains (no_socket) "fd = -1" "pr_calls s1 = pr_calls s @ [Sys_socket]"
  | (refused) fd' where "fd = -1" "pr_calls s1 = pr_calls s @ [Sys_socket, Sys_connect fd' ip (ucast port)]"
  | (connected) "0 \<le> fd" "pr_calls s1 = pr_calls s @ [Sys_socket, Sys_connect fd ip (ucast port)]"
      "fd = r_ret (cx_os C (pr_calls s) Sys_socket)"
      "0 \<le> r_ret (cx_os C (pr_calls s @ [Sys_socket]) (Sys_connect fd ip (ucast port)))"
proof -
  let ?fd = "r_ret (cx_os C (pr_calls s) Sys_socket)"
  let ?con = "Sys_connect ?fd ip (ucast port)"
  let ?r = "r_ret (cx_os C (pr_calls s @ [Sys_socket]) ?con)"
  consider "?fd < 0" | "0 \<le> ?fd" "?r < 0" | "0 \<le> ?fd" "0 \<le> ?r" by linarith
  then show thesis
  proof cases
    case 1
    with assms show thesis by (intro no_socket) (auto simp: inet_connect_def sys_def Let_def)
  next
    case 2
    with assms show thesis by (intro refused [of ?fd]) (auto simp: inet_connect_def sys_def Let_def)
  next
    case 3
    with assms have "fd = ?fd" "pr_calls s1 = pr_calls s @ [Sys_socket, ?con]"
      by (auto simp: inet_connect_def sys_def Let_def)
    with 3 show thesis by (intro connected) simp_all
  qed
qed

lemma packet_xchg_calls:
  assumes "packet_xchg C out inp s = Some (r, p, s')"
  shows "conversation C s s'"
proof -
  obtain port err where pe: "conf_get_uint32 (cx_mem C) (cx_env C) MIDDFS_CONF_SERVERPORT 0 = (port, err)"
    by (cases "conf_get_uint32 (cx_mem C) (cx_env C) MIDDFS_CONF_SERVERPORT 0")
  then have "(if err = 0 then conf_get (cx_mem C) (cx_env C) MIDDFS_CONF_SERVERIP else None) \<noteq> None"
    using assms by (cases "err = 0"; cases "conf_get (cx_mem C) (cx_env C) MIDDFS_CONF_SERVERIP")
      (simp_all add: packet_xchg_def)
  then obtain ip where conf: "conf_get (cx_mem C) (cx_env C) MIDDFS_CONF_SERVERIP = Some ip"
    "conf_get_uint32 (cx_mem C) (cx_env C) MIDDFS_CONF_SERVERPORT 0 = (port, 0)"
    using pe by (auto split: if_splits)
  obtain fd s1 where conn: "inet_connect C ip port s = (fd, s1)" by (cases "inet_connect C ip port s")
  have run: "(if fd < 0 then Some (- pr_errno s1, inp, s1)
     else do {
       (r, s2) \<leftarrow> packet_send C fd out s1;
       (retv, in_pkt1, s3) \<leftarrow>
         (if r < 0 then Some (- pr_errno s2, inp, s2)
          else do {
            (r', p, s') \<leftarrow> packet_recv C fd inp s2;
            Some (if r' < 0 then - pr_errno s' else 0, p, s')
          });
       Some (retv, in_pkt1, snd (sys C (Sys_close fd) s3))
     }) = Some (r, p, s')"
    using assms conf conn by (simp add: packet_xchg_def)
  from conn show ?thesis
  proof (cases rule: inet_connect_cases)
    case connected
    then have "\<not> fd < 0" by simp
    with run obtain r2 s2 s3 where send: "packet_send C fd out s1 = Some (r2, s2)"
      and recv: "(if r2 < 0 then Some (- pr_errno s2, inp, s2)
          else do {
            (r', p, s') \<leftarrow> packet_recv C fd inp s2;
            Some (if r' < 0 then - pr_errno s' else 0, p, s')
          }) = Some (r, p, s3)"
      and s': "s' = snd (sys C (Sys_close fd) s3)"
      by (auto simp: bind_Some_iff)
    have s3: "s3 = s2 \<or> (\<exists>r' p'. packet_recv C fd inp s2 = Some (r', p', s3))"
      using recv by (cases "r2 < 0") (auto simp: bind_Some_iff)
    have "calls_by (on_socket fd) s2 s3" using s3 packet_recv_calls by (auto intro: calls_intros)
    with packet_send_calls [OF send] have "calls_by (on_socket fd) s1 s3" by (rule calls_by_trans)
    then obtain cs where "list_all (on_socket fd) cs" "pr_calls s3 = pr_calls s1 @ cs"
      by (auto simp: calls_by_def)
    with connected s' have "pr_calls s' = pr_calls s @ [Sys_socket, Sys_connect fd ip (ucast port)] @ cs @ [Sys_close fd]"
      by simp
    with conf \<open>list_all (on_socket fd) cs\<close> show ?thesis unfolding conversation_def by blast
  next
    case no_socket
    with run have "s' = s1" by simp
    with conf no_socket show ?thesis unfolding conversation_def by blast
  next
    case (refused fd')
    with run have "s' = s1" by simp
    with conf refused show ?thesis unfolding conversation_def by blast
  qed
qed

section \<open>Where an operation goes\<close>

text \<open>The calls that talk to the configured server, and those on the user's own files.\<close>

definition to_server :: "ctx \<Rightarrow> syscall \<Rightarrow> bool" where
  "to_server C c \<longleftrightarrow>
     c = Sys_socket \<or> (\<exists>fd. on_socket fd c) \<or> (\<exists>fd. c = Sys_close fd) \<or>
     (\<exists>fd ip port. conf_get (cx_mem C) (cx_env C) MIDDFS_CONF_SERVERIP = Some ip \<and>
        conf_get_uint32 (cx_mem C) (cx_env C) MIDDFS_CONF_SERVERPORT 0 = (port, 0) \<and>
        c = Sys_connect fd ip (ucast port))"

definition below_home :: "ctx \<Rightarrow> string \<Rightarrow> bool" where
  "below_home C p \<longleftrightarrow>
     (\<exists>home user rest. conf_get (cx_mem C) (cx_env C) MIDDFS_CONF_HOMEPATH = Some home \<and>
        conf_get (cx_mem C) (cx_env C) MIDDFS_CONF_USERNAME = Some user \<and>
        p = home @ ''/'' @ user @ rest)"

fun own_call :: "ctx \<Rightarrow> syscall \<Rightarrow> bool" where
  "own_call C (Sys_open p flags mode) = below_home C p"
| "own_call C (Sys_stat p) = below_home C p"
| "own_call C (Sys_lstat p) = below_home C p"
| "own_call C (Sys_access p mode) = below_home C p"
| "own_call C (Sys_readlink p n) = below_home C p"
| "own_call C (Sys_mkdir p mode) = below_home C p"
| "own_call C (Sys_unlink p) = below_home C p"
| "own_call C (Sys_rmdir p) = below_home C p"
| "own_call C (Sys_truncate p n) = below_home C p"
| "own_call C (Sys_symlink to p) = below_home C p"
| "own_call C (Sys_rename p q) = (below_home C p \<and> below_home C q)"
| "own_call C (Sys_lchmod p mode) = below_home C p"
| "own_call C (Sys_ftruncate fd n) = True"
| "own_call C (Sys_fchmod fd mode) = True"
| "own_call C (Sys_pread fd n off) = True"
| "own_call C (Sys_pwrite fd m n off) = True"
| "own_call C (Sys_opendir p) = below_home C p"
| "own_call C (Sys_fdopendir fd) = True"
| "own_call C (Sys_rewinddir d) = True"
| "own_call C (Sys_readdir d) = True"
| "own_call C (Sys_closedir d) = True"
| "own_call C (Sys_close fd) = True"
| "own_call C _ = False"

lemma localpath_below: "middfs_localpath_tmp C p = Some q \<Longrightarrow> below_home C q"
  by (auto simp: middfs_localpath_tmp_def below_home_def bind_Some_iff Let_def split: if_splits)

lemma conversation_to_server: "conversation C s s' \<Longrightarrow> calls_by (to_server C) s s'"
  unfolding conversation_def calls_by_def
  by (auto simp: to_server_def list_all_iff on_socket_def) blast

text \<open>A resource's calls: on the user's own files or to the server.\<close>

definition rsrc_call :: "ctx \<Rightarrow> client_rsrc_type \<Rightarrow> syscall \<Rightarrow> bool" where
  "rsrc_call C t = (if t = MR_LOCAL then own_call C else to_server C)"

lemma rsrc_call_close [simp]: "rsrc_call C t (Sys_close fd)"
  by (simp add: rsrc_call_def to_server_def)

named_theorems rsrc_calls \<open>the calls of the operations on a resource\<close>

lemma xchg_rsrc_calls:
  "packet_xchg C out inp s = Some (r, p, s') \<Longrightarrow> t \<noteq> MR_LOCAL \<Longrightarrow> calls_by (rsrc_call C t) s s'"
  using conversation_to_server [OF packet_xchg_calls] by (simp add: rsrc_call_def)

lemma xchg_ok_calls [rsrc_calls]:
  assumes "xchg_ok C req s = Some (r, s')" "t \<noteq> MR_LOCAL"
  shows "calls_by (rsrc_call C t) s s'"
proof -
  from assms(1) obtain r' p where "packet_xchg C (request_pkt req) zero_packet s = Some (r', p, s')"
    by (auto simp: xchg_ok_def bind_Some_iff split: if_splits)
  then show ?thesis using assms(2) by (rule xchg_rsrc_calls)
qed

lemma local_call_calls [rsrc_calls]:
  assumes "local_call C cr call s = Some (r, s')" "\<And>p. below_home C p \<Longrightarrow> own_call C (call p)"
  shows "calls_by (rsrc_call C MR_LOCAL) s s'"
  using assms localpath_below
  by (auto simp: local_call_def bind_Some_iff rsrc_call_def intro: sys_status_calls_by)

lemma delete_calls [rsrc_calls]:
  "client_rsrc_delete C p s = (r, s') \<Longrightarrow> calls_by (rsrc_call C t) s s'"
  by (cases p) (auto simp: client_rsrc_delete_def intro: calls_intros sys_status_calls_by split: if_splits)

lemma delete_calls_snd [rsrc_calls]: "calls_by (rsrc_call C t) s (snd (client_rsrc_delete C p s))"
  using delete_calls [of C p s "fst (client_rsrc_delete C p s)"] by simp

lemma open_calls [rsrc_calls]:
  assumes "client_rsrc_open C cr flags varg s = Some (r, cr', s')"
  shows "calls_by (rsrc_call C (cr_type cr)) s s' \<and> cr_type cr' = cr_type cr"
proof (cases "cr_type cr")
  case MR_LOCAL
  with assms localpath_below show ?thesis
    by (auto simp: client_rsrc_open_def bind_Some_iff rsrc_call_def case_prod_beta
        intro!: sys_snd_calls_by split: if_splits)
qed (use assms in \<open>auto simp: client_rsrc_open_def bind_Some_iff Let_def intro: calls_intros xchg_ok_calls\<close>)

lemma lstat_calls [rsrc_calls]:
  assumes "client_rsrc_lstat C cr s = Some (r, st, s')"
  shows "calls_by (rsrc_call C (cr_type cr)) s s'"
proof (cases "cr_type cr")
  case MR_LOCAL
  with assms localpath_below show ?thesis
    by (auto simp: client_rsrc_lstat_def bind_Some_iff rsrc_call_def case_prod_beta
        intro!: sys_snd_calls_by split: if_splits)
next
  case MR_NETWORK
  with assms obtain req r' p where "packet_xchg C (request_pkt req) (cx_junk C) s = Some (r', p, s')"
    by (auto simp: client_rsrc_lstat_def bind_Some_iff Let_def split: if_splits)
  then show ?thesis using MR_NETWORK by (auto intro: xchg_rsrc_calls)
qed (use assms in \<open>auto simp: client_rsrc_lstat_def intro: calls_intros\<close>)

lemma readlink_calls [rsrc_calls]:
  assumes "client_rsrc_readlink C cr n s = Some (r, bs, s')"
  shows "calls_by (rsrc_call C (cr_type cr)) s s'"
proof (cases "cr_type cr")
  case MR_LOCAL
  with assms localpath_below show ?thesis
    by (auto simp: client_rsrc_readlink_def bind_Some_iff rsrc_call_def case_prod_beta calls_by_def)
qed (use assms in \<open>auto simp: client_rsrc_readlink_def intro: calls_intros\<close>)

lemma access_calls [rsrc_calls]:
  "client_rsrc_access C cr mode s = Some (r, s') \<Longrightarrow> calls_by (rsrc_call C (cr_type cr)) s s'"
  by (cases "cr_type cr") (auto simp: client_rsrc_access_def intro: rsrc_calls)

lemma mkdir_calls [rsrc_calls]:
  "client_rsrc_mkdir C cr mode s = Some (r, s') \<Longrightarrow> calls_by (rsrc_call C (cr_type cr)) s s'"
  by (cases "cr_type cr") (auto simp: client_rsrc_mkdir_def intro: rsrc_calls calls_intros)

lemma unlink_calls [rsrc_calls]:
  "client_rsrc_unlink C cr s = Some (r, s') \<Longrightarrow> calls_by (rsrc_call C (cr_type cr)) s s'"
  by (cases "cr_type cr") (auto simp: client_rsrc_unlink_def intro: rsrc_calls calls_intros)

lemma rmdir_calls [rsrc_calls]:
  "client_rsrc_rmdir C cr s = Some (r, s') \<Longrightarrow> calls_by (rsrc_call C (cr_type cr)) s s'"
  by (cases "cr_type cr") (auto simp: client_rsrc_rmdir_def intro: rsrc_calls calls_intros)

lemma symlink_calls [rsrc_calls]:
  "client_rsrc_symlink C cr to s = Some (r, s') \<Longrightarrow> calls_by (rsrc_call C (cr_type cr)) s s'"
  by (cases "cr_type cr") (auto simp: client_rsrc_symlink_def intro: rsrc_calls calls_intros)

lemma on_own_fd:
  "sys_status C c s = (r, s') \<Longrightarrow> own_call C c \<Longrightarrow> calls_by (rsrc_call C MR_LOCAL) s s'"
  by (auto simp: rsrc_call_def intro: sys_status_calls_by)

lemma truncate_calls [rsrc_calls]:
  "client_rsrc_truncate C cr n s = Some (r, s') \<Longrightarrow> calls_by (rsrc_call C (cr_type cr)) s s'"
  by (cases "cr_type cr")
    (auto simp: client_rsrc_truncate_def intro: rsrc_calls on_own_fd split: if_splits)

lemma chmod_calls [rsrc_calls]:
  "client_rsrc_chmod C cr mode s = Some (r, s') \<Longrightarrow> calls_by (rsrc_call C (cr_type cr)) s s'"
  by (cases "cr_type cr")
    (auto simp: client_rsrc_chmod_def intro: rsrc_calls calls_intros on_own_fd split: if_splits)

lemma rename_calls [rsrc_calls]:
  assumes "client_rsrc_rename C from to s = Some (r, s')"
  shows "calls_by (rsrc_call C (cr_type from)) s s'"
proof (cases "cr_type from = cr_type to")
  case True
  with assms localpath_below show ?thesis
    by (cases "cr_type to")
      (auto simp: client_rsrc_rename_def bind_Some_iff intro: xchg_ok_calls on_own_fd)
qed (use assms in \<open>auto simp: client_rsrc_rename_def intro: calls_intros\<close>)

lemma readdir_calls [rsrc_calls]:
  assumes "client_rsrc_readdir C cr filler buf s = Some (r, cr', buf', s')"
  shows "calls_by (rsrc_call C (cr_type cr)) s s'"
proof (cases "cr_type cr = MR_LOCAL")
  case True
  with assms show ?thesis
    by (auto simp: client_rsrc_readdir_def rsrc_call_def case_prod_beta Let_def calls_by_def split: if_splits)
next
  case False
  then obtain r' p where "packet_xchg C (request_pkt (init_request C MREQ_READDIR (cr_rsrc cr))) zero_packet s
      = Some (r', p, s')"
    using assms
    by (cases "cr_type cr") (auto simp: client_rsrc_readdir_def bind_Some_iff split: if_splits)
  then show ?thesis using False by (rule xchg_rsrc_calls)
qed

section \<open>The operations on a path\<close>

text \<open>The first name of a path: the owner of the resource.\<close>

definition first_name :: "string \<Rightarrow> string" where
  "first_name path =
     takeWhile (\<lambda>c. c \<noteq> CHR ''/'') (dropWhile (\<lambda>c. c = CHR ''/'') path)"

definition own_path :: "ctx \<Rightarrow> string \<Rightarrow> bool" where
  "own_path C path \<longleftrightarrow>
     first_name path \<noteq> [] \<and>
     conf_get (cx_mem C) (cx_env C) MIDDFS_CONF_USERNAME = Some (first_name path)"

lemma first_name_nil: "first_name path = [] \<longleftrightarrow> dropWhile (\<lambda>c. c = CHR ''/'') path = []"
proof (cases "dropWhile (\<lambda>c. c = CHR ''/'') path")
  case (Cons c cs)
  then have "c \<noteq> CHR ''/''" using hd_dropWhile [of "\<lambda>c. c = CHR ''/''" path] by simp
  with Cons show ?thesis by (simp add: first_name_def)
next
  case Nil
  then show ?thesis unfolding first_name_def by (simp only: takeWhile.simps)
qed

text \<open>What \<open>client_rsrc_init\<close> makes of a path, with the copies \<open>strdup\<close> makes of texts.\<close>

definition dup_text :: "ctx \<Rightarrow> string \<Rightarrow> cstr" where
  "dup_text C s = (if can_alloc (cx_mem C) (length s + 1) then Some s else None)"

lemma strdup_text: "strdup (cx_mem C) (Some s) = Some (dup_text C s)"
  by (simp add: strdup_def dup_text_def)

lemma init_cases:
  assumes "client_rsrc_init C path cr0 = Some (r, cr)"
  obtains (relative) "r = - EINVAL" "hd path \<noteq> CHR ''/'' \<or> path = []"
  | (root) "r = 0" "cr_type cr = MR_ROOT" "cr_fd cr = -1" "first_name path = []" "\<not> own_path C path"
      "hd path = CHR ''/''" "path \<noteq> []"
      "cr_rsrc cr = \<lparr>mr_owner = dup_text C [], mr_path = dup_text C []\<rparr>"
  | (user_file) "r = 0" "cr_type cr = (if own_path C path then MR_LOCAL else MR_NETWORK)" "cr_fd cr = -1"
      "first_name path \<noteq> []" "hd path = CHR ''/''" "path \<noteq> []"
      "mr_owner (cr_rsrc cr) = Some (first_name path)"
      "\<exists>rest. mr_path (cr_rsrc cr) = dup_text C (if rest = [] then ''/'' else rest) \<and>
        dropWhile (\<lambda>c. c = CHR ''/'') path = first_name path @ rest"
proof -
  let ?b = "dropWhile (\<lambda>c. c = CHR ''/'') path"
  have rel: "length ?b = length path \<longleftrightarrow> path = [] \<or> hd path \<noteq> CHR ''/''"
  proof (cases path)
    case (Cons c cs)
    have "length (dropWhile (\<lambda>c. c = CHR ''/'') cs) \<le> length cs" by (rule length_dropWhile_le)
    with Cons show ?thesis by auto
  qed simp
  show thesis
  proof (cases "length ?b = length path")
    case True
    then have "r = - EINVAL" using assms by (simp add: client_rsrc_init_def Let_def)
    with True rel show thesis by (intro relative) auto
  next
    case abs: False
    then have slash: "hd path = CHR ''/''" "path \<noteq> []" using rel by auto
    show thesis
    proof (cases "?b = []")
      case True
      with first_name_nil have nil: "first_name path = []" by blast
      have "Some (r, cr) = Some (0, cr0\<lparr>cr_type := MR_ROOT,
          cr_rsrc := \<lparr>mr_owner = dup_text C [], mr_path = dup_text C []\<rparr>, cr_fd := -1\<rparr>)"
        using assms abs True
        by (simp only: client_rsrc_init_def Let_def if_False if_True bind.bind_lunit strdup_text simp_thms)
      with nil slash show thesis by (intro root) (simp_all add: own_path_def)
    next
      case False
      with first_name_nil have nonnil: "first_name path \<noteq> []" by blast
      let ?rest = "dropWhile (\<lambda>c. c \<noteq> CHR ''/'') ?b"
      obtain p where p: "p = dup_text C (if ?rest = [] then ''/'' else ?rest)" by blast
      have "do {
          name \<leftarrow> dup_text C (first_name path);
          user \<leftarrow> conf_get (cx_mem C) (cx_env C) MIDDFS_CONF_USERNAME;
          Some (0, cr0\<lparr>cr_type := (if strcmp name user \<noteq> 0 then MR_NETWORK else MR_LOCAL),
                       cr_rsrc := \<lparr>mr_owner = dup_text C (first_name path), mr_path = p\<rparr>, cr_fd := -1\<rparr>)
        } = Some (r, cr)"
        using assms abs False
        by (simp only: client_rsrc_init_def Let_def if_False bind.bind_lunit strdup_text first_name_def [symmetric] p [symmetric])
      then obtain name user where name: "dup_text C (first_name path) = Some name"
        and user: "conf_get (cx_mem C) (cx_env C) MIDDFS_CONF_USERNAME = Some user"
        and cr: "r = 0" "cr = cr0\<lparr>cr_type := (if strcmp name user \<noteq> 0 then MR_NETWORK else MR_LOCAL),
          cr_rsrc := \<lparr>mr_owner = dup_text C (first_name path), mr_path = p\<rparr>, cr_fd := -1\<rparr>"
        by (auto simp: bind_Some_iff)
      have nm: "name = first_name path" using name by (simp add: dup_text_def split: if_splits)
      have split: "?b = first_name path @ ?rest"
        unfolding first_name_def by (rule takeWhile_dropWhile_id [symmetric])
      have "mr_path (cr_rsrc cr) = p" by (simp add: cr(2))
      then have "mr_path (cr_rsrc cr) = dup_text C (if ?rest = [] then ''/'' else ?rest)" unfolding p .
      then have ex: "\<exists>rest. mr_path (cr_rsrc cr) = dup_text C (if rest = [] then ''/'' else rest) \<and>
          ?b = first_name path @ rest"
        using split by blast
      have ty: "cr_type cr = (if own_path C path then MR_LOCAL else MR_NETWORK)"
        using user nonnil by (cases "user = first_name path") (auto simp: cr(2) nm own_path_def)
      have "cr_fd cr = -1" "mr_owner (cr_rsrc cr) = Some (first_name path)"
        using name nm by (simp_all add: cr(2))
      then show thesis by (rule user_file [OF cr(1) ty _ nonnil slash _ ex])
    qed
  qed
qed

definition path_call :: "ctx \<Rightarrow> string \<Rightarrow> syscall \<Rightarrow> bool" where
  "path_call C path = (if own_path C path then own_call C else to_server C)"

lemma init_type:
  assumes "client_rsrc_init C path cr0 = Some (r, cr)" "\<not> r < 0"
  shows "cr_fd cr = -1" "rsrc_call C (cr_type cr) = path_call C path"
  by (rule init_cases [OF assms(1)]; use assms(2) in \<open>simp add: rsrc_call_def path_call_def EINVAL_def\<close>)+

lemma with_path_calls:
  assumes "with_path C path f s = Some (r, s')"
    "\<And>cr r s1. f cr s = Some (r, s1) \<Longrightarrow> calls_by (rsrc_call C (cr_type cr)) s s1"
  shows "calls_by (path_call C path) s s'"
proof -
  obtain r1 cr where init: "client_rsrc_init C path new_rsrc = Some (r1, cr)"
    and rest: "(if r1 < 0 then Some (r1, s)
      else do {
        (retv, s1) \<leftarrow> f cr s;
        let (res, s2) = client_rsrc_delete C (Some cr) s1;
        Some (join_status retv res, s2)
      }) = Some (r, s')"
    using assms(1) by (auto simp: with_path_def bind_Some_iff)
  show ?thesis
  proof (cases "r1 < 0")
    case True
    with rest show ?thesis by (auto intro: calls_intros)
  next
    case False
    with rest obtain retv s1 where "f cr s = Some (retv, s1)" "s' = snd (client_rsrc_delete C (Some cr) s1)"
      by (auto simp: bind_Some_iff case_prod_beta)
    with assms(2) delete_calls_snd have "calls_by (rsrc_call C (cr_type cr)) s s'"
      by (blast intro: calls_by_trans)
    then show ?thesis using init_type [OF init False] by simp
  qed
qed

text \<open>An operation that has made its resource, and then deletes it.\<close>

lemma path_then_delete:
  assumes init: "client_rsrc_init C path cr0 = Some (r1, cr)" "\<not> r1 < 0"
    and op: "calls_by (rsrc_call C (cr_type cr)) s s1"
  shows "calls_by (path_call C path) s (snd (client_rsrc_delete C (Some cr') s1))"
    "calls_by (path_call C path) s s1"
proof -
  from op show "calls_by (path_call C path) s s1" using init_type(2) [OF init] by simp
  moreover have "calls_by (path_call C path) s1 (snd (client_rsrc_delete C (Some cr') s1))"
    using delete_calls_snd [of C "cr_type cr"] init_type(2) [OF init] by simp
  ultimately show "calls_by (path_call C path) s (snd (client_rsrc_delete C (Some cr') s1))"
    by (rule calls_by_trans)
qed

lemma getattr_calls:
  assumes "middfs_getattr C path None s = Some (r, st, s')"
  shows "calls_by (path_call C path) s s'"
proof -
  obtain r1 cr where init: "client_rsrc_init C path new_rsrc = Some (r1, cr)"
    and rest: "(if r1 < 0 then Some (r1, zero_stat_buf, s)
      else do {
        (retv, st, s1) \<leftarrow> client_rsrc_lstat C cr s;
        let (res, s2) = client_rsrc_delete C (Some cr) s1;
        Some (join_status retv res, st, s2)
      }) = Some (r, st, s')"
    using assms by (auto simp: middfs_getattr_def bind_Some_iff)
  show ?thesis
  proof (cases "r1 < 0")
    case False
    with rest obtain retv st1 s1 where "client_rsrc_lstat C cr s = Some (retv, st1, s1)"
      and "s' = snd (client_rsrc_delete C (Some cr) s1)"
      by (auto simp: bind_Some_iff case_prod_beta)
    with path_then_delete(1) [OF init False lstat_calls] show ?thesis by simp
  qed (use rest in \<open>auto intro: calls_intros\<close>)
qed

lemma op_readlink_calls:
  assumes "middfs_readlink C path n s = Some (r, bs, s')"
  shows "calls_by (path_call C path) s s'"
proof -
  obtain r1 cr where init: "client_rsrc_init C path new_rsrc = Some (r1, cr)"
    and rest: "(if r1 < 0 then Some (r1, [], s)
      else do {
        (retv, bs, s1) \<leftarrow> client_rsrc_readlink C cr n s;
        buf \<leftarrow> (if retv < 0 then Some []
                else if retv < int (unat n) then Some (take (nat retv) bs @ [0]) else None);
        let (res, s2) = client_rsrc_delete C (Some cr) s1;
        Some (join_status retv res, buf, s2)
      }) = Some (r, bs, s')"
    using assms by (auto simp: middfs_readlink_def bind_Some_iff)
  show ?thesis
  proof (cases "r1 < 0")
    case False
    with rest obtain retv bs1 s1 where "client_rsrc_readlink C cr n s = Some (retv, bs1, s1)"
      and "s' = snd (client_rsrc_delete C (Some cr) s1)"
      by (auto simp: bind_Some_iff case_prod_beta)
    with path_then_delete(1) [OF init False readlink_calls] show ?thesis by simp
  qed (use rest in \<open>auto intro: calls_intros\<close>)
qed

lemma op_symlink_calls:
  assumes "middfs_symlink C to path s = Some (r, s')"
  shows "calls_by (path_call C path) s s'"
proof -
  obtain r1 cr where init: "client_rsrc_init C path new_rsrc = Some (r1, cr)"
    and rest: "(if r1 < 0 then Some (r1, s)
      else do {
        (retv, s1) \<leftarrow> client_rsrc_symlink C cr to s;
        let (res, s2) = client_rsrc_delete C (Some cr) s1;
        Some (if retv = 0 then res else retv, s2)
      }) = Some (r, s')"
    using assms by (auto simp: middfs_symlink_def bind_Some_iff)
  show ?thesis
  proof (cases "r1 < 0")
    case False
    with rest obtain retv s1 where "client_rsrc_symlink C cr to s = Some (retv, s1)"
      and "s' = snd (client_rsrc_delete C (Some cr) s1)"
      by (auto simp: bind_Some_iff case_prod_beta)
    with path_then_delete(1) [OF init False symlink_calls] show ?thesis by simp
  qed (use rest in \<open>auto intro: calls_intros\<close>)
qed

lemma op_chmod_calls:
  assumes "middfs_chmod C path mode None s = Some (r, s')"
  shows "calls_by (path_call C path) s s'"
proof -
  obtain r1 cr where init: "client_rsrc_init C path new_rsrc = Some (r1, cr)"
    and rest: "(if r1 < 0 then Some (r1, s)
      else do {
        (retv, s1) \<leftarrow> client_rsrc_chmod C cr mode s;
        Some (retv, snd (client_rsrc_delete C (Some cr) s1))
      }) = Some (r, s')"
    using assms by (auto simp: middfs_chmod_def bind_Some_iff)
  show ?thesis
  proof (cases "r1 < 0")
    case False
    with rest obtain retv s1 where "client_rsrc_chmod C cr mode s = Some (retv, s1)"
      and "s' = snd (client_rsrc_delete C (Some cr) s1)"
      by (auto simp: bind_Some_iff)
    with path_then_delete(1) [OF init False chmod_calls] show ?thesis by simp
  qed (use rest in \<open>auto intro: calls_intros\<close>)
qed

lemma op_rename_calls:
  assumes "middfs_rename C path to s = Some (r, s')"
  shows "calls_by (path_call C path) s s'"
proof -
  obtain r1 cr where init: "client_rsrc_init C path new_rsrc = Some (r1, cr)"
    and rest: "(if r1 < 0 then Some (r1, s)
      else do {
        (retv, cr_to) \<leftarrow> client_rsrc_init C to new_rsrc;
        if retv < 0 then None
        else do {
          (retv, s1) \<leftarrow> client_rsrc_rename C cr cr_to s;
          let s2 = snd (client_rsrc_delete C (Some cr) s1);
          let s3 = snd (client_rsrc_delete C (Some cr_to) s2);
          Some (retv, s3)
        }
      }) = Some (r, s')"
    using assms by (auto simp: middfs_rename_def bind_Some_iff)
  show ?thesis
  proof (cases "r1 < 0")
    case False
    with rest obtain cr_to retv s1 where run: "client_rsrc_rename C cr cr_to s = Some (retv, s1)"
      and s': "s' = snd (client_rsrc_delete C (Some cr_to) (snd (client_rsrc_delete C (Some cr) s1)))"
      by (auto simp: bind_Some_iff Let_def split: if_splits)
    have "calls_by (rsrc_call C (cr_type cr)) s (snd (client_rsrc_delete C (Some cr) s1))"
      using rename_calls [OF run] delete_calls_snd by (rule calls_by_trans)
    from path_then_delete(1) [OF init False this] s' show ?thesis by simp
  qed (use rest in \<open>auto intro: calls_intros\<close>)
qed

lemma open_file_calls:
  assumes "open_file C path flags varg s = Some (r, fh, s')"
  shows "calls_by (path_call C path) s s'"
proof (cases "can_alloc (cx_mem C) sizeof_client_rsrc")
  case True
  then obtain r1 cr where init: "client_rsrc_init C path new_rsrc = Some (r1, cr)"
    and rest: "(if r1 < 0 then Some (r1, None, s)
        else do {
          (retv, cr1, s1) \<leftarrow> client_rsrc_open C cr flags varg s;
          Some (if retv < 0 then (retv, None, snd (client_rsrc_delete C (Some cr1) s1))
                else (retv, Some cr1, s1))
        }) = Some (r, fh, s')"
    using assms by (auto simp: open_file_def bind_Some_iff)
  show ?thesis
  proof (cases "r1 < 0")
    case False
    with rest obtain retv cr1 s1 where run: "client_rsrc_open C cr flags varg s = Some (retv, cr1, s1)"
      and "s' = s1 \<or> s' = snd (client_rsrc_delete C (Some cr1) s1)"
      by (auto simp: bind_Some_iff split: if_splits)
    with path_then_delete [OF init False, of s s1] open_calls [OF run] show ?thesis by auto
  qed (use rest in \<open>auto intro: calls_intros\<close>)
qed (use assms in \<open>auto simp: open_file_def Let_def intro: calls_intros\<close>)

lemma op_readdir_calls:
  assumes "middfs_readdir C path filler buf s = Some (r, buf', s')"
  shows "calls_by (path_call C path) s s'"
proof -
  obtain r1 cr where init: "client_rsrc_init C path new_rsrc = Some (r1, cr)"
    and rest: "(if r1 < 0 then Some (r1, buf, s)
      else do {
        (retv, cr1, s1) \<leftarrow> client_rsrc_open C cr O_RDONLY None s;
        (retv, cr2, buf1, s2) \<leftarrow>
          (if retv < 0 then Some (retv, cr1, buf, s1) else client_rsrc_readdir C cr1 filler buf s1);
        let (res, s3) = client_rsrc_delete C (Some cr2) s2;
        Some (if res < 0 \<and> retv \<ge> 0 then res else retv, buf1, s3)
      }) = Some (r, buf', s')"
    using assms by (auto simp: middfs_readdir_def bind_Some_iff)
  show ?thesis
  proof (cases "r1 < 0")
    case False
    with rest obtain r2 cr1 s1 r3 cr2 buf1 s2 where
      run: "client_rsrc_open C cr O_RDONLY None s = Some (r2, cr1, s1)"
      and list: "(if r2 < 0 then Some (r2, cr1, buf, s1) else client_rsrc_readdir C cr1 filler buf s1)
        = Some (r3, cr2, buf1, s2)"
      and s': "s' = snd (client_rsrc_delete C (Some cr2) s2)"
      by (auto simp: bind_Some_iff case_prod_beta cong: if_cong)
    have ty: "cr_type cr1 = cr_type cr" using open_calls [OF run] by simp
    have "calls_by (rsrc_call C (cr_type cr)) s1 s2"
      using list readdir_calls [of C cr1 filler buf s1 r3 cr2 buf1 s2] ty
      by (cases "r2 < 0") (auto intro: calls_intros)
    with open_calls [OF run] have "calls_by (rsrc_call C (cr_type cr)) s s2"
      by (blast intro: calls_by_trans)
    from path_then_delete(1) [OF init False this] s' show ?thesis by simp
  qed (use rest in \<open>auto intro: calls_intros\<close>)
qed

text \<open>All of them.\<close>

lemma oper_calls:
  assumes "middfs_oper C filler buf oper path s = Some (r, s')" "oper \<noteq> F_statfs"
  shows "calls_by (path_call C path) s s'"
  using assms
  by (cases oper)
    (auto simp: middfs_oper_def middfs_access_def middfs_mkdir_def middfs_unlink_def middfs_rmdir_def
      middfs_truncate_def middfs_open_def middfs_create_def middfs_link_def bind_Some_iff
      dest: getattr_calls op_readlink_calls op_symlink_calls op_chmod_calls op_rename_calls
        open_file_calls op_readdir_calls
      intro: access_calls mkdir_calls unlink_calls rmdir_calls truncate_calls
      elim!: with_path_calls split: if_splits)

end
