(* ===== verification/Serial_Resume.thy ===== *)
theory Serial_Resume
  imports Serial_Codec
begin

text \<open>
  Deserialising a response packet again and again into the same packet, as \<open>packet_recv\<close> does
  while the bytes arrive: the packet at the end is the one that was sent.
\<close>

text \<open>
  u is what the union of the response held before the first attempt. The packet of the caller
  may be uninitialised; a response with pointers in it (DATA or DIR) must not find anything
  there.
\<close>

definition pointer_free :: "middfs_packet \<Rightarrow> bool" where
  "pointer_free pkt \<longleftrightarrow> mrsp_type (old_response (mpkt_un pkt)) \<notin> {MRSP_DATA, MRSP_DIR}"

definition pkt_target :: "rsp_un \<Rightarrow> middfs_packet \<Rightarrow> middfs_packet \<Rightarrow> bool" where
  "pkt_target u pkt v \<longleftrightarrow> rsp_target u (old_response (mpkt_un pkt)) (old_response (mpkt_un v))"

definition read_pkt :: "rsp_un \<Rightarrow> middfs_packet \<Rightarrow> middfs_packet" where
  "read_pkt u pkt = pkt\<lparr>mpkt_un := Pkt_response (read_response u (old_response (mpkt_un pkt)))\<rparr>"

lemma read_pkt_zero: "mpkt_type pkt = MPKT_RESPONSE \<Longrightarrow> read_pkt Rsp_zero pkt = canon_pkt pkt"
  by (simp add: read_pkt_def canon_pkt_def)

lemma pkt_target_zero [simp]: "mpkt_un v = Pkt_zero \<Longrightarrow> pkt_target Rsp_zero pkt v"
  unfolding pkt_target_def
  by (rule rsp_target_zero) (simp add: old_response_def get_response_def zero_response_def)

text \<open>What was in the packet does not matter to a response without pointers.\<close>

lemma pkt_target_junk:
  assumes "pointer_free pkt"
  shows "pkt_target (mrsp_un (old_response (mpkt_un v))) pkt v"
  using assms by (simp add: pkt_target_def rsp_target_def pointer_free_def split: middfs_response_type.splits)

text \<open>The response a packet v gets, given what was in it.\<close>

abbreviation read_into :: "middfs_packet \<Rightarrow> middfs_packet \<Rightarrow> middfs_packet" where
  "read_into v \<equiv> read_pkt (mrsp_un (old_response (mpkt_un v)))"

lemma pkt_target_into:
  "mpkt_un v = Pkt_zero \<or> pointer_free pkt \<Longrightarrow> pkt_target (mrsp_un (old_response (mpkt_un v))) pkt v"
  using pkt_target_junk pkt_target_zero [of v pkt]
  by (auto simp: old_response_def get_response_def zero_response_def)

lemma read_into_zero: "mpkt_un v = Pkt_zero \<Longrightarrow> mpkt_type pkt = MPKT_RESPONSE \<Longrightarrow> read_into v pkt = canon_pkt pkt"
  using read_pkt_zero [of pkt] by (simp add: old_response_def get_response_def zero_response_def)

lemma pkt_target_old: "pkt_target u pkt v \<Longrightarrow> rsp_target u (old_response (mpkt_un pkt)) (old_response (mpkt_un v))"
  by (simp add: pkt_target_def)

lemma resumes_pkt:
  assumes ok: "pkt_ok pkt" and ty: "mpkt_type pkt = MPKT_RESPONSE" and al: "alloc_for E pkt"
  shows "resumes (pkt_target u pkt) (deserialize_pkt E) (enc_pkt pkt) (read_pkt u pkt)"
proof (rule resumesI)
  fix buf :: "byte list" and nbytes :: u64 and v :: middfs_packet
  assume v: "pkt_target u pkt v" and h: "holds_prefix (enc_pkt pkt) buf nbytes"
  let ?rsp = "old_response (mpkt_un pkt)"
  let ?hd = "be32 (mpkt_magic pkt) @ be32 (mpkt_code MPKT_RESPONSE)"
  let ?gs = "[des_next deserialize_uint32 mpkt_magic (\<lambda>x p. p\<lparr>mpkt_magic := x\<rparr>),
      des_next deserialize_uint32 (\<lambda>p. mpkt_code (mpkt_type p))
        (\<lambda>x p. p\<lparr>mpkt_type := mpkt_of_code x\<rparr>)] :: middfs_packet dfield list"
  let ?ehs = "[(be32 (mpkt_magic pkt), \<lambda>p. p\<lparr>mpkt_magic := mpkt_magic pkt\<rparr>),
      (be32 (mpkt_code MPKT_RESPONSE), \<lambda>p. p\<lparr>mpkt_type := mpkt_of_code (mpkt_code MPKT_RESPONSE)\<rparr>)]
      :: (byte list \<times> (middfs_packet \<Rightarrow> middfs_packet)) list"
  have t: "mpkt_of_code (mpkt_code MPKT_RESPONSE) = MPKT_RESPONSE" by (simp add: mpkt_of_code_def)
  have b: "pkt_body pkt = enc_response ?rsp" and rok: "response_ok ?rsp"
    using ok ty by (simp_all add: pkt_body_def pkt_ok_def)
  have e: "enc_pkt pkt = ?hd @ enc_response ?rsp" by (simp add: enc_pkt_def ty b del: mpkt_code.simps)
  have len: "length (enc_pkt pkt) < wire_max" using ok by (simp add: pkt_ok_def)
  have body: "length (enc_response ?rsp) < wire_max" "alloc_upto E (16 * length (enc_response ?rsp))"
    using len alloc_upto_mono [OF al [unfolded alloc_for_def]] by (simp_all add: e)
  have gs: "list_all2 field_reads ?gs ?ehs"
    by (intro list.rel_intros field_reads_next reads_uint32)
  obtain used w where s: "des_fields ?gs buf nbytes (0, v, 0) = Some (used, w, 0)"
    and full: "8 \<le> unat nbytes \<Longrightarrow>
      unat used = 8 \<and> w = v\<lparr>mpkt_magic := mpkt_magic pkt, mpkt_type := MPKT_RESPONSE\<rparr>"
    and short: "unat nbytes < 8 \<Longrightarrow> unat nbytes < unat used \<and> unat used \<le> 16"
  proof (rule des_fields_obtain [OF gs rstate_start [of "\<lambda>w. w = v" v, OF refl],
        where e' = "enc_response ?rsp" and e = ?hd])
    show "holds_prefix ([] @ concat (map fst ?ehs) @ enc_response ?rsp) buf nbytes"
      using h by (simp add: e)
  qed (use that t in \<open>simp_all\<close>)
  have "mpkt_un w = mpkt_un v"
  proof -
    from s obtain m1 w1 e1 where
      "des_next deserialize_uint32 mpkt_magic (\<lambda>x p. p\<lparr>mpkt_magic := x\<rparr>) buf nbytes (0, v, 0) = Some (m1, w1, e1)"
      "des_next deserialize_uint32 (\<lambda>p. mpkt_code (mpkt_type p)) (\<lambda>x p. p\<lparr>mpkt_type := mpkt_of_code x\<rparr>)
        buf nbytes (m1, w1, e1) = Some (used, w, 0)"
      by (auto simp: bind_Some_iff)
    from this [THEN des_next_target] show ?thesis by auto
  qed
  then have target: "pkt_target u pkt w" using v by (simp add: pkt_target_def)
  show "\<exists>m v'. deserialize_pkt E buf nbytes v 0 = Some (m, v', 0) \<and>
      rstate (enc_pkt pkt) nbytes (\<lambda>w. w = read_pkt u pkt) (m, v', 0) \<and>
      (unat nbytes < length (enc_pkt pkt) \<longrightarrow> pkt_target u pkt v')"
  proof (cases "8 \<le> unat nbytes")
    case False
    then have "deserialize_pkt E buf nbytes v 0 = Some (used, w, 0)"
      using s short by (simp add: deserialize_pkt_def word_less_nat_alt del: des_fields.simps)
    with False short target show ?thesis
      by (auto simp: e append_assoc [symmetric] simp del: append_assoc intro!: rstate_cut)
  next
    case True
    have used: "unat used = length ?hd"
      and w: "w = v\<lparr>mpkt_magic := mpkt_magic pkt, mpkt_type := MPKT_RESPONSE\<rparr>"
      and fits: "\<not> nbytes < used"
      using full True by (auto simp: word_less_nat_alt)
    have fits8: "length ?hd \<le> unat nbytes" using True by simp
    have c: "w\<lparr>mpkt_un := Pkt_response (read_response u ?rsp)\<rparr> = read_pkt u pkt"
      using ty w by (simp add: read_pkt_def)
    note member = resume_member [OF _ _ h [unfolded e] fits8 used len [unfolded e], folded e]
    from member [OF resumes_rsp [OF rok body], where get = "\<lambda>p. old_response (mpkt_un p)" and v = w
        and put = "\<lambda>x p. p\<lparr>mpkt_un := Pkt_response x\<rparr>", OF pkt_target_old [OF target] c]
    obtain m r where m: "des_next (deserialize_rsp E) (\<lambda>p. old_response (mpkt_un p))
        (\<lambda>x p. p\<lparr>mpkt_un := Pkt_response x\<rparr>) buf nbytes (used, w, 0) = Some (m, w\<lparr>mpkt_un := Pkt_response r\<rparr>, 0)"
      and st: "rstate (enc_pkt pkt) nbytes (\<lambda>w. w = read_pkt u pkt) (m, w\<lparr>mpkt_un := Pkt_response r\<rparr>, 0)"
      and keep: "unat nbytes < length (enc_pkt pkt) \<longrightarrow> rsp_target u ?rsp r"
      by blast
    have "deserialize_pkt E buf nbytes v 0 = Some (m, w\<lparr>mpkt_un := Pkt_response r\<rparr>, 0)"
      using s fits w m by (simp add: deserialize_pkt_def des_result_def del: des_fields.simps)
    with st keep show ?thesis by (auto simp: pkt_target_def old_response_def get_response_def)
  qed
qed

end
