(* ===== verification/Serial_Parts.thy ===== *)
theory Serial_Parts
  imports Serial_Resume
begin

text \<open>
  What is in the packet of the caller when only the first bytes of a response have come. The
  fields of a response other than a directory are numbers, and a number is stored when all of
  its bytes are there and not before, so that the packet is a function of how many bytes came.
\<close>

section \<open>Numbers are stored whole or not at all\<close>

definition whole_or_none :: "'a deserializer \<Rightarrow> byte list \<Rightarrow> 'a \<Rightarrow> bool" where
  "whole_or_none f e x \<longleftrightarrow> e \<noteq> [] \<and>
     (\<forall>buf n v. holds_prefix e buf n \<longrightarrow>
        f buf n v 0 = Some (word_of_nat (length e), if length e \<le> unat n then x else v, 0))"

named_theorems whole_intros \<open>deserialisers that store whole numbers\<close>

lemma whole_uint32 [whole_intros]: "whole_or_none deserialize_uint32 (be32 w) w"
proof -
  have "be32 w \<noteq> []" using length_be32 [of w] by (metis list.size(3) zero_neq_numeral)
  moreover have "take 4 buf = be32 w \<and> 4 \<le> length buf"
    if "holds_prefix (be32 w) buf n" "4 \<le> unat n" for buf and n :: u64
    using that by (auto simp: holds_prefix_def min_def)
  ultimately show ?thesis
    by (auto simp: whole_or_none_def deserialize_uint32_def word_le_nat_alt)
qed

lemma whole_int32 [whole_intros]: "whole_or_none deserialize_int32 (be32 w) w"
  using whole_uint32 [of w] by (simp add: whole_or_none_def deserialize_int32_def)

lemma whole_uint64 [whole_intros]: "whole_or_none (deserialize_uint64 E) (be64 w) w"
proof -
  have "be64 w \<noteq> []" using length_be64 [of w] by (metis list.size(3) zero_neq_numeral)
  moreover have "deserialize_uint64 E buf n v 0 = Some (8, if 8 \<le> unat n then w else v, 0)"
    if h: "holds_prefix (be64 w) buf n" for buf n v
  proof -
    have used: "deserialize_uint64 E buf n v 0 = Some (m, v', e) \<Longrightarrow> m = 8 \<and> (unat n < 8 \<longrightarrow> v' = v)" for m v' e
      by (auto simp: deserialize_uint64_def deserialize_uint32_def des_next_def bind_Some_iff word_le_nat_alt
          split: if_splits)
    obtain s where "deserialize_uint64 E buf n v 0 = Some s" "rstate (be64 w) n (\<lambda>v'. v' = w) s"
      by (rule readsD [OF reads_uint64 _ h]) simp
    with used [of "fst s" "fst (snd s)" "snd (snd s)"] show ?thesis
      by (cases s) (auto simp: rstate_def split: if_splits)
  qed
  ultimately show ?thesis by (simp add: whole_or_none_def)
qed

lemma whole_next:
  assumes f: "whole_or_none f e x" and h: "holds_prefix (a @ e @ rest) buf n"
    and small: "length a < 2 ^ 64"
  shows "des_next f get put buf n (word_of_nat (length a), v, 0)
    = Some (word_of_nat (length a) + word_of_nat (length e),
        put (if length a + length e \<le> unat n then x else get v) v, 0)"
proof -
  let ?used = "word_of_nat (length a) :: u64"
  have used: "unat ?used = length a" using small by (intro unat_of_nat_u64) simp
  have "holds_prefix e (drop (length a) buf) (sizerem n ?used)"
  proof (cases "length a \<le> unat n")
    case True
    from holds_prefix_left [OF holds_prefix_right [OF h this used]] show ?thesis .
  next
    case False
    then show ?thesis by (intro holds_prefix_zero) (simp add: used)
  qed
  with f have "f (drop (length a) buf) (sizerem n ?used) (get v) 0
      = Some (word_of_nat (length e), if length e \<le> unat n - length a then x else get v, 0)"
    by (simp add: whole_or_none_def used)
  moreover have "0 < length e" using f by (simp add: whole_or_none_def)
  then have "length e \<le> unat n - length a \<longleftrightarrow> length a + length e \<le> unat n" by linarith
  ultimately show ?thesis by (simp add: des_next_def used)
qed

section \<open>The part of a response\<close>

definition part_data :: "middfs_data \<Rightarrow> nat \<Rightarrow> middfs_data" where
  "part_data d n = \<lparr>mdata_buf = None, mdata_nbytes = if 8 \<le> n then mdata_nbytes d else 0\<rparr>"

definition part_stat :: "middfs_stat \<Rightarrow> nat \<Rightarrow> middfs_stat" where
  "part_stat st n =
     \<lparr>mstat_mode = if 4 \<le> n then mstat_mode st else 0, mstat_size = if 12 \<le> n then mstat_size st else 0,
      mstat_blocks = if 20 \<le> n then mstat_blocks st else 0,
      mstat_blksize = if 28 \<le> n then mstat_blksize st else 0\<rparr>"

definition part_response :: "middfs_response \<Rightarrow> nat \<Rightarrow> middfs_response" where
  "part_response rsp n =
     (if n < 4 then zero_response
      else \<lparr>mrsp_type = mrsp_type rsp,
        mrsp_un =
          (case mrsp_type rsp of
             MRSP_DATA \<Rightarrow> Rsp_data (part_data (old_data (mrsp_un rsp)) (n - 4))
           | MRSP_STAT \<Rightarrow> Rsp_stat (part_stat (old_stat (mrsp_un rsp)) (n - 4))
           | MRSP_ERROR \<Rightarrow> Rsp_error (if 8 \<le> n then old_error (mrsp_un rsp) else 0)
           | _ \<Rightarrow> Rsp_zero)\<rparr>)"

definition part_pkt :: "middfs_packet \<Rightarrow> nat \<Rightarrow> middfs_packet" where
  "part_pkt p n =
     \<lparr>mpkt_magic = if 4 \<le> n then mpkt_magic p else 0,
      mpkt_type = if 8 \<le> n then mpkt_type p else MPKT_NONE,
      mpkt_un = if 8 \<le> n then Pkt_response (part_response (old_response (mpkt_un p)) (n - 8)) else Pkt_zero\<rparr>"

lemma part_pkt_start: "part_pkt p 0 = zero_packet"
  by (simp add: part_pkt_def zero_packet_def)

text \<open>Deserialising n bytes over what the first k of them left.\<close>

lemma part_data_next:
  assumes h: "holds_prefix (enc_data d) buf n" and cut: "unat n < length (enc_data d)"
    and len: "length (enc_data d) < wire_max" and d: "data_ok d" and k: "k \<le> unat n"
  shows "\<exists>m. deserialize_data E buf n (part_data d k) 0 = Some (m, part_data d (unat n), 0)"
proof -
  have b: "length (block_bytes (mdata_nbytes d) (mdata_buf d)) = unat (mdata_nbytes d)"
    using d by (simp add: data_ok_def)
  have h0: "holds_prefix ([] @ be64 (mdata_nbytes d) @ block_bytes (mdata_nbytes d) (mdata_buf d)) buf n"
    using h by (simp add: enc_data_def)
  have "des_next (deserialize_uint64 E) mdata_nbytes (\<lambda>x d. d\<lparr>mdata_nbytes := x\<rparr>) buf n (0, part_data d k, 0)
      = Some (8, part_data d (unat n), 0)"
    using k by (auto simp: part_data_def whole_next [OF whole_uint64 h0, simplified])
  moreover have "\<not> (mdata_nbytes d \<le> sizerem n 8)" if "8 \<le> unat n"
    using cut that b by (simp add: enc_data_def word_le_nat_alt)
  ultimately show ?thesis
    by (auto simp: deserialize_data_def part_data_def word_less_nat_alt word_le_nat_alt)
qed

lemma part_stat_next:
  assumes h: "holds_prefix (enc_stat st) buf n" and k: "k \<le> unat n"
  shows "\<exists>m. deserialize_stat E buf n (part_stat st k) 0 = Some (m, part_stat st (unat n), 0)"
proof -
  let ?mode = "be32 (mstat_mode st)" and ?size = "be64 (mstat_size st)" and ?blocks = "be64 (mstat_blocks st)"
  let ?blksize = "be64 (mstat_blksize st)"
  have at: "holds_prefix ([] @ ?mode @ ?size @ ?blocks @ ?blksize) buf n"
    "holds_prefix (?mode @ ?size @ ?blocks @ ?blksize) buf n"
    "holds_prefix ((?mode @ ?size) @ ?blocks @ ?blksize) buf n"
    "holds_prefix ((?mode @ ?size @ ?blocks) @ ?blksize @ []) buf n"
    using h by (simp_all add: enc_stat_def)
  note next_at = whole_next [OF whole_uint32 at(1)] whole_next [OF whole_uint64 [of E] at(2)]
    whole_next [OF whole_uint64 [of E] at(3)] whole_next [OF whole_uint64 [of E] at(4)]
  show ?thesis
    using k by (auto simp: deserialize_stat_def part_stat_def next_at [simplified])
qed

lemma part_response_next:
  assumes h: "holds_prefix (enc_response rsp) buf n" and cut: "unat n < length (enc_response rsp)"
    and ok: "response_ok rsp" "length (enc_response rsp) < wire_max" "mrsp_type rsp \<noteq> MRSP_DIR"
    and k: "k \<le> unat n"
  shows "\<exists>m. deserialize_rsp E buf n (part_response rsp k) 0 = Some (m, part_response rsp (unat n), 0)"
proof -
  let ?tag = "be32 (mrsp_code (mrsp_type rsp))" and ?v = "part_response rsp k"
  have t: "mrsp_of_code (mrsp_code (mrsp_type rsp)) = mrsp_type rsp"
    using ok(1) by (intro mrsp_of_code_named) (auto simp: response_ok_def)
  have z: "mrsp_of_code 0 = MRSP_OK" by (simp add: mrsp_of_code_def)
  have h0: "holds_prefix ([] @ ?tag @ rsp_body rsp) buf n" using h by (simp add: enc_response_def)
  have s: "des_next deserialize_int32 (\<lambda>r. mrsp_code (mrsp_type r)) (\<lambda>x r. r\<lparr>mrsp_type := mrsp_of_code x\<rparr>)
      buf n (0, ?v, 0) = Some (4, if 4 \<le> unat n then ?v\<lparr>mrsp_type := mrsp_type rsp\<rparr> else ?v, 0)"
    using k by (auto simp: part_response_def zero_response_def t z whole_next [OF whole_int32 h0, simplified])
  show ?thesis
  proof (cases "4 \<le> unat n")
    case False
    with s k show ?thesis by (auto simp: deserialize_rsp_def word_less_nat_alt part_response_def)
  next
    case True
    have u: "unat (4 :: u64) = length ?tag" by simp
    have h4: "holds_prefix (rsp_body rsp) (drop 4 buf) (sizerem n 4)"
      using holds_prefix_right [OF h [unfolded enc_response_def] _ u] True by simp
    have n4: "unat (sizerem n 4) = unat n - 4" by simp
    have body: "unat (sizerem n 4) < length (rsp_body rsp)" "length (rsp_body rsp) < wire_max"
      using cut ok(2) True by (simp_all add: enc_response_def)
    have u4: "unat (4 :: u64) = 4" by simp
    have k4: "k - 4 \<le> unat (sizerem n 4)" using k by simp
    show ?thesis
    proof (cases "mrsp_type rsp")
      case MRSP_OK
      with body(1) show ?thesis by (simp add: rsp_body_def)
    next
      case MRSP_DATA
      let ?d = "old_data (mrsp_un rsp)"
      have e: "rsp_body rsp = enc_data ?d" "data_ok ?d" using MRSP_DATA ok(1) by (simp_all add: rsp_body_def response_ok_def)
      have v: "old_data (mrsp_un ?v) = part_data ?d (k - 4)"
        using MRSP_DATA by (auto simp: part_response_def zero_response_def old_data_def get_data_def zero_data_def part_data_def)
      obtain m where m: "deserialize_data E (drop 4 buf) (sizerem n 4) (part_data ?d (k - 4)) 0
          = Some (m, part_data ?d (unat n - 4), 0)"
        using part_data_next [OF h4 [unfolded e(1)] body(1) [unfolded e(1)] body(2) [unfolded e(1)] e(2) k4, of E]
        unfolding n4 by blast
      from s True MRSP_DATA v m show ?thesis
        by (auto simp: deserialize_rsp_def word_less_nat_alt des_next_def part_response_def u4)
    next
      case MRSP_STAT
      let ?st = "old_stat (mrsp_un rsp)"
      have e: "rsp_body rsp = enc_stat ?st" using MRSP_STAT by (simp add: rsp_body_def)
      have v: "old_stat (mrsp_un ?v) = part_stat ?st (k - 4)"
        using MRSP_STAT by (auto simp: part_response_def zero_response_def old_stat_def get_stat_def zero_stat_def part_stat_def)
      obtain m where m: "deserialize_stat E (drop 4 buf) (sizerem n 4) (part_stat ?st (k - 4)) 0
          = Some (m, part_stat ?st (unat n - 4), 0)"
        using part_stat_next [OF h4 [unfolded e] k4, of E] unfolding n4 by blast
      from s True MRSP_STAT v m show ?thesis
        by (auto simp: deserialize_rsp_def word_less_nat_alt des_next_def part_response_def u4)
    next
      case MRSP_ERROR
      have e: "rsp_body rsp = be32 (old_error (mrsp_un rsp))" using MRSP_ERROR by (simp add: rsp_body_def)
      have short: "\<not> 4 \<le> unat n - 4" using body(1) by (simp add: e)
      then have v: "old_error (mrsp_un ?v) = 0"
        using MRSP_ERROR k by (auto simp: part_response_def zero_response_def old_error_def get_error_def)
      have "deserialize_int32 (drop 4 buf) (sizerem n 4) 0 0 = Some (4, 0, 0)"
        using whole_int32 [of "old_error (mrsp_un rsp)"] h4 [unfolded e] short by (simp add: whole_or_none_def)
      with s True MRSP_ERROR v short show ?thesis
        by (auto simp: deserialize_rsp_def word_less_nat_alt des_next_def part_response_def u4)
    next
      case (MRSP_OTHER x)
      with ok(1) show ?thesis by (simp add: response_ok_def)
    qed (use ok(3) in simp)
  qed
qed

lemma part_pkt_next:
  assumes ok: "pkt_ok p" "mpkt_type p = MPKT_RESPONSE" "mrsp_type (old_response (mpkt_un p)) \<noteq> MRSP_DIR"
    and h: "holds_prefix (enc_pkt p) buf n" and cut: "unat n < length (enc_pkt p)" and k: "k \<le> unat n"
  shows "\<exists>m. deserialize_pkt E buf n (part_pkt p k) 0 = Some (m, part_pkt p (unat n), 0)"
proof -
  let ?rsp = "old_response (mpkt_un p)" and ?v = "part_pkt p k"
  define code where "code = mpkt_code MPKT_RESPONSE"
  let ?hd = "be32 (mpkt_magic p) @ be32 code"
  have c: "mpkt_of_code code = MPKT_RESPONSE" "mpkt_of_code 0 = MPKT_NONE"
    by (simp_all add: mpkt_of_code_def code_def)
  have e: "enc_pkt p = ?hd @ enc_response ?rsp" using ok(2) by (simp add: enc_pkt_def pkt_body_def code_def)
  have rok: "response_ok ?rsp" using ok(1,2) by (simp add: pkt_ok_def)
  note h' = h [unfolded e]
  let ?w = "?v\<lparr>mpkt_magic := if 4 \<le> unat n then mpkt_magic p else 0,
      mpkt_type := if 8 \<le> unat n then MPKT_RESPONSE else MPKT_NONE\<rparr>"
  have at: "holds_prefix ([] @ be32 (mpkt_magic p) @ be32 code @ enc_response ?rsp) buf n"
    "holds_prefix (be32 (mpkt_magic p) @ be32 code @ enc_response ?rsp) buf n"
    using h' by simp_all
  have s: "des_fields
      [des_next deserialize_uint32 mpkt_magic (\<lambda>x p. p\<lparr>mpkt_magic := x\<rparr>),
       des_next deserialize_uint32 (\<lambda>p. mpkt_code (mpkt_type p)) (\<lambda>x p. p\<lparr>mpkt_type := mpkt_of_code x\<rparr>)]
      buf n (0, ?v, 0) = Some (8, ?w, 0)"
    using k ok(2)
    by (auto simp: part_pkt_def c whole_next [OF whole_uint32 at(1), simplified]
        whole_next [OF whole_uint32 at(2), simplified])
  show ?thesis
  proof (cases "8 \<le> unat n")
    case False
    with s k show ?thesis
      by (auto simp: deserialize_pkt_def word_less_nat_alt part_pkt_def simp del: des_fields.simps)
  next
    case True
    have u: "unat (8 :: u64) = length ?hd" by simp
    have h8: "holds_prefix (enc_response ?rsp) (drop 8 buf) (sizerem n 8)"
      using holds_prefix_right [OF h' _ u] True by simp
    have n8: "unat (sizerem n 8) = unat n - 8" "unat (8 :: u64) = 8" by simp_all
    have v: "old_response (mpkt_un ?v) = part_response ?rsp (k - 8)"
      by (auto simp: part_pkt_def part_response_def old_response_def get_response_def)
    have len: "unat (sizerem n 8) < length (enc_response ?rsp)" "length (enc_response ?rsp) < wire_max"
      "k - 8 \<le> unat (sizerem n 8)"
      using cut ok(1) True k by (simp_all add: e pkt_ok_def)
    obtain m where "deserialize_rsp E (drop 8 buf) (sizerem n 8) (part_response ?rsp (k - 8)) 0
        = Some (m, part_response ?rsp (unat n - 8), 0)"
      using part_response_next [OF h8 len(1) rok len(2) ok(3) len(3), of E] unfolding n8 by blast
    with s True v ok(2) show ?thesis
      by (auto simp: deserialize_pkt_def word_less_nat_alt des_next_def des_result_def part_pkt_def n8
          simp del: des_fields.simps)
  qed
qed

text \<open>What was received in part is a target from which the rest can be received.\<close>

lemma part_pkt_target:
  assumes "pkt_ok p" "mpkt_type p = MPKT_RESPONSE" "mrsp_type (old_response (mpkt_un p)) \<noteq> MRSP_DIR"
  shows "pkt_target Rsp_zero p (part_pkt p k)"
  using assms
  by (auto simp: pkt_target_def rsp_target_def part_pkt_def part_response_def old_response_def
      get_response_def zero_response_def part_data_def split: middfs_response_type.splits)

end
