(* ===== verification/Print_Laws.thy ===== *)
theory Print_Laws
  imports Middfs_Print Serial_Canon Serial_Parts
begin

text \<open>Printing a well-formed packet is defined, before it is sent and after it is received.\<close>

lemma print_rsrc_ok: "rsrc_ok r \<Longrightarrow> \<exists>s. print_rsrc r = Some s"
  by (auto simp: rsrc_ok_def cstr_ok_def print_rsrc_def split: option.splits)

lemma print_request_ok: "request_ok req \<Longrightarrow> \<exists>s. print_request addr req = Some s"
  using print_rsrc_ok [of "mreq_rsrc req"] print_rsrc_ok [of "mreq_to req"]
  by (auto simp: request_ok_def Let_def print_request_def cstr_ok_def bind_Some_iff split: option.splits)

lemma print_dirents_ok:
  assumes "\<forall>i \<in> set is. i < length es \<and> dirent_ok (es ! i)"
  shows "\<exists>s. print_dirents (Some es) is = Some s"
  using assms
  by (induction "is") (auto simp: print_dirent_def dirent_ok_def cstr_ok_def split: option.splits)

lemma print_dir_ok:
  assumes "dir_ok d"
  shows "\<exists>s. print_dir d = Some s"
proof -
  have "\<exists>s. print_dirents (mdir_ents d) [0..<unat (mdir_count d)] = Some s"
  proof (cases "mdir_ents d")
    case None
    with assms have "unat (mdir_count d) = 0" by (simp add: dir_ok_def dir_entries_def)
    then show ?thesis by simp
  next
    case (Some es)
    with assms have "\<forall>i \<in> set [0..<unat (mdir_count d)]. i < length es \<and> dirent_ok (es ! i)"
      by (auto simp: dir_ok_def dir_entries_def list_all_length)
    then have "\<exists>s. print_dirents (Some es) [0..<unat (mdir_count d)] = Some s" by (rule print_dirents_ok)
    with Some show ?thesis by simp
  qed
  then show ?thesis by (auto simp: print_dir_def)
qed

lemma print_response_ok:
  assumes "response_ok rsp"
  shows "\<exists>s. print_response addr rsp = Some s"
proof (cases "mrsp_type rsp")
  case MRSP_DIR
  with assms have "\<exists>s. print_dir (old_dir (mrsp_un rsp)) = Some s"
    by (intro print_dir_ok) (simp add: response_ok_def)
  with assms MRSP_DIR show ?thesis
    by (auto simp: response_ok_def print_response_def old_dir_def)
qed (use assms in \<open>auto simp: response_ok_def print_response_def\<close>)

lemma print_packet_ok:
  assumes "pkt_ok pkt"
  shows "\<exists>s. print_packet addr pkt = Some s"
proof (cases "mpkt_type pkt")
  case MPKT_REQUEST
  with assms have "\<exists>s. print_request addr (old_request (mpkt_un pkt)) = Some s"
    by (intro print_request_ok) (simp add: pkt_ok_def)
  with assms MPKT_REQUEST show ?thesis by (auto simp: pkt_ok_def print_packet_def old_request_def)
next
  case MPKT_RESPONSE
  with assms have "\<exists>s. print_response addr (old_response (mpkt_un pkt)) = Some s"
    by (intro print_response_ok) (simp add: pkt_ok_def)
  with assms MPKT_RESPONSE show ?thesis by (auto simp: pkt_ok_def print_packet_def old_response_def)
next
  case MPKT_CONNECT
  with assms show ?thesis
    by (auto simp: pkt_ok_def print_packet_def old_connect_def connect_ok_def print_connect_def cstr_ok_def
        split: option.splits)
qed (auto simp: print_packet_def)

text \<open>The union of an OK response is not looked at.\<close>

lemma print_received_response:
  assumes "response_ok rsp"
  shows "\<exists>s. print_response addr (read_response u rsp) = Some s"
proof (cases "mrsp_type rsp = MRSP_OK")
  case True
  then show ?thesis by (simp add: read_response_def print_response_def)
next
  case False
  with print_response_ok [OF canon_response_ok [OF assms]] show ?thesis by (simp add: read_response_def)
qed

lemma print_received: "pkt_ok pkt \<Longrightarrow> \<exists>s. print_packet addr (canon_pkt pkt) = Some s"
  by (intro print_packet_ok canon_pkt_ok)

text \<open>So is printing what the first bytes of a response leave, when it is not a directory.\<close>

lemma print_part_pkt:
  assumes "pkt_ok p" "mpkt_type p = MPKT_RESPONSE" "mrsp_type (old_response (mpkt_un p)) \<noteq> MRSP_DIR"
  shows "\<exists>s. print_packet addr (part_pkt p n) = Some s"
  using assms
  by (auto simp: print_packet_def part_pkt_def part_response_def get_response_def print_response_def
      zero_response_def get_data_def get_stat_def get_error_def split: middfs_response_type.splits)

end
