(* ===== verification/Client_Exchange.thy ===== *)
theory Client_Exchange
  imports Client_Calls Serial_Parts Print_Laws "HOL-Library.Sublist"
begin

text \<open>
  A packet exchange with a server that answers: the server is sent exactly the bytes of the
  request, in however many pieces the socket takes them and however often the writing is
  interrupted, and the caller gets the response, in whatever pieces its bytes arrive. When the
  connection ends within the response, the caller is told of success all the same, with the
  part of the response that came.
\<close>

section \<open>What goes over a descriptor\<close>

text \<open>The bytes that the calls cs, made after the calls tr, read from fd and write to it.\<close>

fun bytes_in :: "os \<Rightarrow> int \<Rightarrow> syscall list \<Rightarrow> syscall list \<Rightarrow> byte list" where
  "bytes_in os fd tr [] = []"
| "bytes_in os fd tr (c # cs) =
     (case c of
        Sys_read fd' n \<Rightarrow> if fd' = fd \<and> 0 \<le> r_ret (os tr c) then r_bytes (os tr c) else []
      | _ \<Rightarrow> []) @ bytes_in os fd (tr @ [c]) cs"

fun bytes_out :: "os \<Rightarrow> int \<Rightarrow> syscall list \<Rightarrow> syscall list \<Rightarrow> byte list" where
  "bytes_out os fd tr [] = []"
| "bytes_out os fd tr (c # cs) =
     (case c of
        Sys_write fd' bs \<Rightarrow> if fd' = fd then take (nat (r_ret (os tr c))) bs else []
      | _ \<Rightarrow> []) @ bytes_out os fd (tr @ [c]) cs"

lemma bytes_in_append: "bytes_in os fd tr (cs @ ds) = bytes_in os fd tr cs @ bytes_in os fd (tr @ cs) ds"
  by (induction cs arbitrary: tr) simp_all

lemma bytes_out_append:
  "bytes_out os fd tr (cs @ ds) = bytes_out os fd tr cs @ bytes_out os fd (tr @ cs) ds"
  by (induction cs arbitrary: tr) simp_all

lemma bytes_in_writes: "list_all (\<lambda>c. \<exists>bs. c = Sys_write fd' bs) cs \<Longrightarrow> bytes_in os fd tr cs = []"
  by (induction cs arbitrary: tr) auto

lemma bytes_out_reads: "list_all (\<lambda>c. \<exists>k. c = Sys_read fd' k) cs \<Longrightarrow> bytes_out os fd tr cs = []"
  by (induction cs arbitrary: tr) auto

text \<open>
  A stream socket to a server that reads: each write takes some of the bytes, fewer than 2 to
  the 31 at a time, or is interrupted by a signal, and signals do not come for ever.
\<close>

definition takes_bytes :: "os \<Rightarrow> int \<Rightarrow> bool" where
  "takes_bytes os fd \<longleftrightarrow>
     (\<forall>tr bs. bs \<noteq> [] \<longrightarrow>
        (let r = os tr (Sys_write fd bs) in
         0 < r_ret r \<and> r_ret r \<le> int (length bs) \<and> r_ret r < 2 ^ 31 \<or>
         r_ret r < 0 \<and> r_errno r = EINTR)) \<and>
     (\<exists>K. \<forall>tr bs. K \<le> length tr \<longrightarrow> bs \<noteq> [] \<longrightarrow> 0 \<le> r_ret (os tr (Sys_write fd bs)))"

text \<open>
  A server that, after the calls tr, sends the bytes bs and closes the connection: a read
  gives the next of them, fewer than 2 to the 31 at a time, and none when all have come.
\<close>

definition sends_bytes :: "os \<Rightarrow> int \<Rightarrow> syscall list \<Rightarrow> byte list \<Rightarrow> bool" where
  "sends_bytes os fd tr bs \<longleftrightarrow>
     (\<forall>cs n. prefix (bytes_in os fd tr cs) bs \<longrightarrow> 0 < unat n \<longrightarrow>
        (let r = os (tr @ cs) (Sys_read fd n) in
         0 \<le> r_ret r \<and> length (r_bytes r) \<le> unat n \<and> length (r_bytes r) < 2 ^ 31 \<and>
         prefix (bytes_in os fd tr cs @ r_bytes r) bs \<and>
         (bytes_in os fd tr cs \<noteq> bs \<longrightarrow> r_bytes r \<noteq> [])))"

lemma cint_small: "0 \<le> n \<Longrightarrow> n < 2 ^ 31 \<Longrightarrow> cint n = n"
proof -
  assume a: "0 \<le> n" "n < 2 ^ 31"
  then obtain k where k: "n = int k" by (metis nonneg_int_cases)
  with a show ?thesis by (simp add: cint_def signed_of_nat signed_take_bit_int_eq_self)
qed

lemma cint_minus_one: "cint (-1) = -1"
  by (simp add: cint_def)

section \<open>One write and one read\<close>

lemma fd_write_eq:
  assumes "buffer_ok buf"
  shows "fd_write C fd buf s =
    (let (r, s1) = sys C (Sys_write fd (contents buf)) s in do {
       (n, buf1) \<leftarrow> buffer_write (\<lambda>_. if r_ret r < 0 then None else Some (word_of_int (r_ret r))) buf;
       Some (n, buf1, s1)
     })"
  by (rule buffer_ok_mem [OF assms]) (simp add: fd_write_def buffer_used_def Let_def)

lemma fd_write_cases:
  assumes ok: "buffer_ok buf" and some: "contents buf \<noteq> []" and takes: "takes_bytes (cx_os C) fd"
  obtains (interrupted) s1 where "fd_write C fd buf s = Some (-1, buf, s1)" "pr_errno s1 = EINTR"
      "pr_calls s1 = pr_calls s @ [Sys_write fd (contents buf)]"
      "r_ret (cx_os C (pr_calls s) (Sys_write fd (contents buf))) < 0"
  | (sent) n buf1 s1 where "fd_write C fd buf s = Some (int n, buf1, s1)" "0 < n" "n < 2 ^ 31"
      "n \<le> length (contents buf)" "buffer_ok buf1" "contents buf1 = drop n (contents buf)"
      "pr_calls s1 = pr_calls s @ [Sys_write fd (contents buf)]"
      "r_ret (cx_os C (pr_calls s) (Sys_write fd (contents buf))) = int n"
proof -
  let ?c = "Sys_write fd (contents buf)"
  let ?r = "cx_os C (pr_calls s) ?c"
  obtain s1 where s1: "sys C ?c s = (?r, s1)" by (simp add: sys_def Let_def)
  note step = sys_step [OF s1]
  have cases: "0 < r_ret ?r \<and> r_ret ?r \<le> int (length (contents buf)) \<and> r_ret ?r < 2 ^ 31 \<or>
      r_ret ?r < 0 \<and> r_errno ?r = EINTR"
    using takes some by (auto simp: takes_bytes_def Let_def)
  show thesis
  proof (cases "r_ret ?r < 0")
    case True
    have "buffer_write (\<lambda>_. None) buf = Some (-1, buf)"
      by (rule write_cases [OF ok, of "\<lambda>_. None"]) simp_all
    with True cases step s1 show thesis
      by (intro interrupted [of s1]) (simp_all add: fd_write_eq [OF ok])
  next
    case False
    then obtain n where n: "r_ret ?r = int n" "0 < n" "n \<le> length (contents buf)" "n < 2 ^ 31"
      using cases by (auto dest: nonneg_int_cases [OF less_imp_le])
    then have w: "unat (word_of_int (r_ret ?r) :: u64) = n" "sint (word_of_int (r_ret ?r) :: u64) = int n"
      by (simp_all add: unat_of_nat_u64 signed_of_nat signed_take_bit_int_eq_self)
    obtain buf1 where "buffer_write (\<lambda>_. Some (word_of_int (r_ret ?r))) buf = Some (int n, buf1)"
      "buffer_ok buf1" "contents buf1 = drop n (contents buf)"
      by (rule write_cases [OF ok, of "\<lambda>_. Some (word_of_int (r_ret ?r))"]) (use w in auto)
    with n step s1 show thesis by (intro sent [of n buf1 s1]) (simp_all add: fd_write_eq [OF ok])
  qed
qed

lemma fd_read_result:
  assumes ok: "buffer_ok buf"
    and al: "alloc_upto (cx_mem C) (max 1 (2 * length (contents buf)))" "2 * length (contents buf) < 2 ^ 63"
    and sends: "sends_bytes (cx_os C) fd tr bs"
    and s: "pr_calls s = tr @ cs" "prefix (bytes_in (cx_os C) fd tr cs) bs"
  obtains n got buf1 s1 where "fd_read C fd buf s = Some (int (length got), buf1, s1)"
    "length got < 2 ^ 31" "buffer_ok buf1" "contents buf1 = contents buf @ got"
    "pr_calls s1 = tr @ cs @ [Sys_read fd n]"
    "bytes_in (cx_os C) fd tr (cs @ [Sys_read fd n]) = bytes_in (cx_os C) fd tr cs @ got"
    "prefix (bytes_in (cx_os C) fd tr cs @ got) bs" "bytes_in (cx_os C) fd tr cs \<noteq> bs \<Longrightarrow> got \<noteq> []"
proof (rule increase_cases [OF ok, of "cx_mem C"])
  assume "buffer_increase (cx_mem C) buf = Some (- ENOMEM, buf)"
    "alloc_upto (cx_mem C) (max 1 (2 * length (contents buf))) \<Longrightarrow> 2 ^ 63 \<le> 2 * length (contents buf)"
  with al show thesis by simp
next
  fix b assume b: "buffer_increase (cx_mem C) buf = Some (0, b)" "buffer_ok b"
    "contents b = contents buf" "0 < unat (buffer_rem b)"
  let ?c = "Sys_read fd (buffer_rem b)"
  let ?r = "cx_os C (tr @ cs) ?c"
  obtain s1 where s1: "sys C ?c s = (?r, s1)" by (simp add: sys_def Let_def s(1))
  have r: "0 \<le> r_ret ?r" "length (r_bytes ?r) \<le> unat (buffer_rem b)" "length (r_bytes ?r) < 2 ^ 31"
    "prefix (bytes_in (cx_os C) fd tr cs @ r_bytes ?r) bs"
    "bytes_in (cx_os C) fd tr cs \<noteq> bs \<Longrightarrow> r_bytes ?r \<noteq> []"
    using sends b(4) s(2) by (auto simp: sends_bytes_def Let_def)
  obtain b1 b2 where "buffer_store b (r_bytes ?r) = Some b1"
    "buffer_advance b1 (word_of_nat (length (r_bytes ?r))) = Some b2" "buffer_ok b2"
    "contents b2 = contents b @ r_bytes ?r"
    by (rule store_advance [OF b(2) r(2)])
  with b r s1 sys_step(1) [OF s1] s(1) show thesis
    by (intro that [of "r_bytes ?r" b2 s1 "buffer_rem b"])
      (simp_all add: fd_read_def buffer_read_def bytes_in_append)
qed

section \<open>Sending\<close>

lemma send_loop_result:
  assumes "buffer_ok buf" "takes_bytes (cx_os C) fd"
  shows "\<exists>buf' s' cs. packet_send_loop C fd buf s = Some (0, buf', s') \<and> buffer_ok buf' \<and>
    pr_calls s' = pr_calls s @ cs \<and> bytes_out (cx_os C) fd (pr_calls s) cs = contents buf"
proof -
  obtain K where K: "\<And>tr bs. K \<le> length tr \<Longrightarrow> bs \<noteq> [] \<Longrightarrow> 0 \<le> r_ret (cx_os C tr (Sys_write fd bs))"
    using assms(2) unfolding takes_bytes_def by blast
  from assms(1) show ?thesis
  proof (induction "length (contents buf) + (K - length (pr_calls s))" arbitrary: buf s rule: less_induct)
    case less
    show ?case
    proof (cases "contents buf = []")
      case True
      then have "packet_send_loop C fd buf s = Some (0, buf, s)"
        using less.prems by (simp add: packet_send_loop.simps buffer_isempty_iff)
      with True less.prems show ?thesis by (intro exI [of _ buf] exI [of _ s] exI [of _ "[]"]) simp
    next
      case False
      then have nonempty: "\<not> buffer_isempty buf" using less.prems by (simp add: buffer_isempty_iff)
      show ?thesis
      proof (rule fd_write_cases [OF less.prems False assms(2), of s])
        fix s1 assume w: "fd_write C fd buf s = Some (-1, buf, s1)" "pr_errno s1 = EINTR"
          "pr_calls s1 = pr_calls s @ [Sys_write fd (contents buf)]"
          "r_ret (cx_os C (pr_calls s) (Sys_write fd (contents buf))) < 0"
        have "length (pr_calls s) < K" using K [OF _ False, of "pr_calls s"] w(4) by force
        then have "length (contents buf) + (K - length (pr_calls s1)) < length (contents buf) + (K - length (pr_calls s))"
          using w(3) by simp
        from less.hyps [OF this less.prems] obtain buf' s' cs where "packet_send_loop C fd buf s1 = Some (0, buf', s')" "buffer_ok buf'"
          "pr_calls s' = pr_calls s1 @ cs" "bytes_out (cx_os C) fd (pr_calls s1) cs = contents buf"
          by blast
        with w nonempty show ?thesis
          by (intro exI [of _ buf'] exI [of _ s'] exI [of _ "Sys_write fd (contents buf) # cs"])
            (simp add: packet_send_loop.simps [of C fd buf s] cint_minus_one)
      next
        fix n buf1 s1 assume w: "fd_write C fd buf s = Some (int n, buf1, s1)" "0 < n" "n < 2 ^ 31"
          "n \<le> length (contents buf)" "buffer_ok buf1" "contents buf1 = drop n (contents buf)"
          "pr_calls s1 = pr_calls s @ [Sys_write fd (contents buf)]"
          "r_ret (cx_os C (pr_calls s) (Sys_write fd (contents buf))) = int n"
        have "length (contents buf1) + (K - length (pr_calls s1)) < length (contents buf) + (K - length (pr_calls s))"
          using w(2,4,6,7) by simp
        from less.hyps [OF this w(5)] obtain buf' s' cs where
          "packet_send_loop C fd buf1 s1 = Some (0, buf', s')" "buffer_ok buf'"
          "pr_calls s' = pr_calls s1 @ cs" "bytes_out (cx_os C) fd (pr_calls s1) cs = contents buf1"
          by blast
        moreover have "\<not> cint (int n) < 0" using w(3) cint_small [of "int n"] by simp
        ultimately show ?thesis using w nonempty
          by (intro exI [of _ buf'] exI [of _ s'] exI [of _ "Sys_write fd (contents buf) # cs"])
            (simp add: packet_send_loop.simps [of C fd buf s])
      qed
    qed
  qed
qed

lemma buffer_delete_ok: "buffer_ok buf \<Longrightarrow> \<exists>b. buffer_delete buf = Some b"
  by (auto simp: buffer_ok_def buffer_delete_def split: block.splits)

lemma packet_send_result:
  assumes p: "pkt_ok pkt" "alloc_for (cx_mem C) pkt" and takes: "takes_bytes (cx_os C) fd"
  obtains s' cs where "packet_send C fd pkt s = Some (0, s')" "pr_calls s' = pr_calls s @ cs"
    "list_all (\<lambda>c. \<exists>bs. c = Sys_write fd bs) cs"
    "bytes_out (cx_os C) fd (pr_calls s) cs = enc_pkt pkt"
proof -
  have len: "length (contents buffer_init) + length (enc_pkt pkt) < 2 ^ 63"
    using p(1) by (simp add: pkt_ok_def)
  obtain r buf where ser: "buffer_serialize (cx_mem C) (serialize_pkt pkt) buffer_init = Some (r, buf)"
    "0 \<le> r" "buffer_ok buf" "contents buf = enc_pkt pkt"
  proof (rule pkt.buffer_serialize_cases [OF p(1) buffer_init_ok(1) len, of "cx_mem C"])
    assume "\<not> alloc_upto (cx_mem C) (length (contents buffer_init) + length (enc_pkt pkt))"
    with p(2) alloc_upto_mono [of "cx_mem C" "16 * length (enc_pkt pkt)" "length (enc_pkt pkt)"]
    show thesis by (simp add: alloc_for_def)
  qed (use that in auto)
  obtain buf' s' cs where loop: "packet_send_loop C fd buf s = Some (0, buf', s')" "buffer_ok buf'"
    "pr_calls s' = pr_calls s @ cs" "bytes_out (cx_os C) fd (pr_calls s) cs = contents buf"
    using send_loop_result [OF ser(3) takes] by blast
  obtain b where "buffer_delete buf' = Some b" using buffer_delete_ok [OF loop(2)] by blast
  with ser loop print_packet_ok [OF p(1), of "[]"]
  have run: "packet_send C fd pkt s = Some (0, s')" by (auto simp: packet_send_def)
  have "list_all (\<lambda>c. \<exists>bs. c = Sys_write fd bs) cs"
    using packet_send_loop_calls [OF loop(1)] loop(3) by (auto simp: calls_by_def)
  with run loop ser that show thesis by metis
qed

section \<open>Receiving\<close>

text \<open>
  What the receiving of a response p rests on. \<open>J p k v\<close> says that v may be in the packet of the
  caller when attempts at the first k bytes of p, or fewer, were made; an attempt at more of them keeps that, and
  one at all of them leaves \<open>whole p\<close>, which can be printed.
\<close>

locale receiver =
  fixes C :: ctx and J :: "middfs_packet \<Rightarrow> nat \<Rightarrow> middfs_packet \<Rightarrow> bool"
    and whole :: "middfs_packet \<Rightarrow> middfs_packet" and ok :: "middfs_packet \<Rightarrow> bool"
  assumes ok_pkt: "ok p \<Longrightarrow> pkt_ok p" and ok_alloc: "ok p \<Longrightarrow> alloc_for (cx_mem C) p"
    and ok_print: "ok p \<Longrightarrow> \<exists>t. print_packet [] (whole p) = Some t"
    and attempt: "ok p \<Longrightarrow> J p k v \<Longrightarrow> k \<le> unat n \<Longrightarrow> holds_prefix (enc_pkt p) buf n \<Longrightarrow>
      \<exists>m v'. deserialize_pkt (cx_mem C) buf n v 0 = Some (m, v', 0) \<and>
        rstate (enc_pkt p) n (\<lambda>w. w = whole p) (m, v', 0) \<and>
        (unat n < length (enc_pkt p) \<longrightarrow> J p (unat n) v')"
begin

text \<open>One attempt with the bytes that have come.\<close>

lemma attempt_deserialize:
  assumes p: "ok p" and v: "J p k v" "k \<le> length (contents buf)"
    and b: "buffer_ok buf" and c: "prefix (contents buf) (enc_pkt p)"
  obtains (all) buf' where "contents buf = enc_pkt p"
      "buffer_deserialize (deserialize_pkt (cx_mem C)) v buf = Some (0, whole p, buf')" "buffer_ok buf'"
  | (cut) v' where "contents buf \<noteq> enc_pkt p"
      "buffer_deserialize (deserialize_pkt (cx_mem C)) v buf = Some (1, v', buf)"
      "J p (length (contents buf)) v'"
proof -
  let ?E = "cx_mem C"
  obtain m where m: "block_mem (buf_begin buf) = Some m" "unat (buf_ptr buf) \<le> length m"
    "contents buf = take (unat (buf_ptr buf)) m"
    by (rule buffer_ok_mem [OF b])
  have len: "length (contents buf) = unat (buffer_used buf)" by (rule length_contents [OF b])
  have le: "length (contents buf) \<le> length (enc_pkt p)" using c by (rule prefix_length_le)
  have "take (unat (buffer_used buf)) m = contents buf" using m(3) by (simp add: buffer_used_def)
  moreover have "take (unat (buffer_used buf)) (enc_pkt p) = contents buf"
    using c len by (auto simp: prefix_def)
  ultimately have h: "holds_prefix (enc_pkt p) m (buffer_used buf)"
    using len le m(2) by (simp add: holds_prefix_def buffer_used_def min_def)
  obtain k v' where d: "deserialize_pkt ?E m (buffer_used buf) v 0 = Some (k, v', 0)"
    "rstate (enc_pkt p) (buffer_used buf) (\<lambda>w. w = whole p) (k, v', 0)"
    "unat (buffer_used buf) < length (enc_pkt p) \<Longrightarrow> J p (length (contents buf)) v'"
    using attempt [OF p v(1) _ h] v(2) len by auto
  show thesis
  proof (cases "contents buf = enc_pkt p")
    case True
    obtain buf' where "buffer_shift buf k = Some buf'" "buffer_ok buf'"
      by (rule shift_result [OF b])
    moreover have "v' = whole p" "unat k = unat (buffer_used buf)"
      using d(2) True len by (simp_all add: rstate_def)
    ultimately show thesis using d(1) m(1) True
      by (intro all [of buf']) (simp_all add: buffer_deserialize_def word_le_nat_alt)
  next
    case False
    have "length (contents buf) \<noteq> length (enc_pkt p)"
      using False c by (metis append_eq_conv_conj prefix_def take_all_iff order_refl)
    then have short: "unat (buffer_used buf) < length (enc_pkt p)" using le len by simp
    then have "unat (buffer_used buf) < unat k" using d(2) by (simp add: rstate_def)
    with d m(1) False short show thesis
      by (intro cut [of v']) (simp_all add: buffer_deserialize_def word_le_nat_alt)
  qed
qed

text \<open>
  The loop, when the server sends bs, the start of the response p: 0 and the whole response
  if bs is all of it, otherwise 1 and what was read of it.
\<close>

lemma recv_loop_result:
  assumes p: "ok p"
    and sends: "sends_bytes (cx_os C) fd tr bs" and bs: "prefix bs (enc_pkt p)"
    and b: "buffer_ok buf" "contents buf = bytes_in (cx_os C) fd tr cs" "prefix (contents buf) bs"
    and v: "J p k v" "k \<le> length (contents buf)" and s: "pr_calls s = tr @ cs"
  shows "\<exists>r v' buf' s' ds. packet_recv_loop C fd v buf s = Some (r, v', buf', s') \<and> buffer_ok buf' \<and>
    pr_calls s' = pr_calls s @ ds \<and>
    (if bs = enc_pkt p then r = 0 \<and> v' = whole p else r = 1 \<and> J p (length bs) v')"
  using b v s
proof (induction "length bs - length (contents buf)" arbitrary: buf cs k v s rule: less_induct)
  case less
  have pre: "prefix (contents buf) (enc_pkt p)" using less.prems(3) bs by (rule prefix_order.trans)
  show ?case
  proof (rule attempt_deserialize [OF p less.prems(4,5,1) pre])
    fix buf' assume d: "contents buf = enc_pkt p" "buffer_ok buf'"
      "buffer_deserialize (deserialize_pkt (cx_mem C)) v buf = Some (0, whole p, buf')"
    then have "bs = enc_pkt p" using less.prems(3) bs by (simp add: prefix_order.antisym)
    with d show ?thesis
      by (intro exI [of _ 0] exI [of _ "whole p"] exI [of _ buf'] exI [of _ s] exI [of _ "[]"])
        (simp add: packet_recv_loop.simps)
  next
    fix v' assume d: "contents buf \<noteq> enc_pkt p" "J p (length (contents buf)) v'"
      "buffer_deserialize (deserialize_pkt (cx_mem C)) v buf = Some (1, v', buf)"
    have le: "length (contents buf) \<le> length (enc_pkt p)" using pre by (rule prefix_length_le)
    have wire: "length (enc_pkt p) < wire_max" "1 \<le> length (enc_pkt p)"
      using ok_pkt [OF p] by (simp_all add: pkt_ok_def enc_pkt_def)
    have "max 1 (2 * length (contents buf)) \<le> 16 * length (enc_pkt p)" using le wire(2) by linarith
    from alloc_upto_mono [OF ok_alloc [OF p, unfolded alloc_for_def] this]
    have al: "alloc_upto (cx_mem C) (max 1 (2 * length (contents buf)))" .
    have small: "2 * length (contents buf) < 2 ^ 63" using le wire(1) by simp
    have pre_in: "prefix (bytes_in (cx_os C) fd tr cs) bs" using less.prems(2,3) by simp
    obtain n got buf1 s1 where r: "fd_read C fd buf s = Some (int (length got), buf1, s1)"
      "length got < 2 ^ 31" "buffer_ok buf1" "contents buf1 = contents buf @ got"
      "pr_calls s1 = tr @ cs @ [Sys_read fd n]"
      "bytes_in (cx_os C) fd tr (cs @ [Sys_read fd n]) = bytes_in (cx_os C) fd tr cs @ got"
      "prefix (bytes_in (cx_os C) fd tr cs @ got) bs" "bytes_in (cx_os C) fd tr cs \<noteq> bs \<Longrightarrow> got \<noteq> []"
      by (rule fd_read_result [OF less.prems(1) al small sends less.prems(6) pre_in]) blast
    have ci: "cint (int (length got)) = int (length got)" using r(2) by (intro cint_small) simp_all
    show ?thesis
    proof (cases "got = []")
      case True
      then have all: "contents buf = bs" using r(8) less.prems(2) by auto
      with d(1) have "bs \<noteq> enc_pkt p" by simp
      with d r ci True less.prems all show ?thesis
        by (intro exI [of _ 1] exI [of _ v'] exI [of _ buf1] exI [of _ s1] exI [of _ "[Sys_read fd n]"])
          (simp add: packet_recv_loop.simps [of C fd v buf s])
    next
      case False
      have pre1: "prefix (contents buf1) bs" using r(4,7) less.prems(2) by simp
      have "length bs - length (contents buf1) < length bs - length (contents buf)"
        using False r(4) prefix_length_le [OF pre1] by (cases got) auto
      then obtain rv v2 buf' s' ds where
        "packet_recv_loop C fd v' buf1 s1 = Some (rv, v2, buf', s')" "buffer_ok buf'"
        "pr_calls s' = pr_calls s1 @ ds"
        "if bs = enc_pkt p then rv = 0 \<and> v2 = whole p else rv = 1 \<and> J p (length bs) v2"
        using less.hyps [of buf1 "cs @ [Sys_read fd n]" "length (contents buf)" v' s1] r d(2) pre1 less.prems(2)
        by auto
      moreover have "\<not> cint (int (length got)) \<le> 0" using ci False by simp
      ultimately show ?thesis
        using d r less.prems(6)
        by (intro exI [of _ rv] exI [of _ v2] exI [of _ buf'] exI [of _ s'] exI [of _ "Sys_read fd n # ds"])
          (simp add: packet_recv_loop.simps [of C fd v buf s])
    qed
  qed
qed

lemma packet_recv_result:
  assumes p: "ok p"
    and sends: "sends_bytes (cx_os C) fd tr bs" and bs: "prefix bs (enc_pkt p)"
    and s: "pr_calls s = tr @ cs" "bytes_in (cx_os C) fd tr cs = []" and v: "J p 0 v"
  obtains (all) s' ds where "bs = enc_pkt p" "packet_recv C fd v s = Some (0, whole p, s')"
      "pr_calls s' = pr_calls s @ ds" "list_all (\<lambda>c. \<exists>k. c = Sys_read fd k) ds"
  | (cut) v' s' ds where "bs \<noteq> enc_pkt p" "J p (length bs) v'"
      "packet_recv C fd v s = (if print_packet [] v' = None then None else Some (1, v', s'))"
      "pr_calls s' = pr_calls s @ ds" "list_all (\<lambda>c. \<exists>k. c = Sys_read fd k) ds"
proof -
  obtain r v' buf' s' ds where loop: "packet_recv_loop C fd v buffer_init s = Some (r, v', buf', s')"
    "buffer_ok buf'" "pr_calls s' = pr_calls s @ ds"
    "if bs = enc_pkt p then r = 0 \<and> v' = whole p else r = 1 \<and> J p (length bs) v'"
    using recv_loop_result [OF p sends bs buffer_init_ok(1) _ _ v _ s(1)] s(2) by auto
  have reads: "list_all (\<lambda>c. \<exists>k. c = Sys_read fd k) ds"
    using packet_recv_loop_calls [OF loop(1)] loop(3) by (auto simp: calls_by_def)
  obtain b where b: "buffer_delete buf' = Some b" using buffer_delete_ok [OF loop(2)] by blast
  show thesis
  proof (cases "bs = enc_pkt p")
    case True
    with loop(4) ok_print [OF p] obtain t where "r = 0" "v' = whole p"
      "print_packet [] (whole p) = Some t" by auto
    with True b loop reads show thesis by (intro all [of s' ds]) (simp_all add: packet_recv_def)
  next
    case False
    with loop(4) have r: "r = 1" "J p (length bs) v'" by auto
    have "packet_recv C fd v s = (if print_packet [] v' = None then None else Some (1, v', s'))"
      using r b loop(1) by (cases "print_packet [] v'") (simp_all add: packet_recv_def)
    with False r loop(3) reads show thesis by (intro cut [of v' s' ds])
  qed
qed

end

section \<open>The exchange\<close>

text \<open>
  A client that can reach the server: the address and port are configured, a socket can be
  made and connected, the server reads what it is sent, and sends bs.
\<close>

record peer =
  pe_ip :: string
  pe_port :: u32
  pe_fd :: int

definition peer_calls :: "peer \<Rightarrow> syscall list" where
  "peer_calls P = [Sys_socket, Sys_connect (pe_fd P) (pe_ip P) (ucast (pe_port P))]"

definition reaches :: "ctx \<Rightarrow> proc \<Rightarrow> peer \<Rightarrow> byte list \<Rightarrow> bool" where
  "reaches C s P bs \<longleftrightarrow>
     conf_get (cx_mem C) (cx_env C) MIDDFS_CONF_SERVERIP = Some (pe_ip P) \<and>
     conf_get_uint32 (cx_mem C) (cx_env C) MIDDFS_CONF_SERVERPORT 0 = (pe_port P, 0) \<and>
     0 \<le> pe_fd P \<and> r_ret (cx_os C (pr_calls s) Sys_socket) = pe_fd P \<and>
     0 \<le> r_ret (cx_os C (pr_calls s @ [Sys_socket]) (Sys_connect (pe_fd P) (pe_ip P) (ucast (pe_port P)))) \<and>
     takes_bytes (cx_os C) (pe_fd P) \<and> sends_bytes (cx_os C) (pe_fd P) (pr_calls s @ peer_calls P) bs"

lemma inet_connect_reaches:
  assumes "reaches C s P bs"
  shows "\<exists>s1. inet_connect C (pe_ip P) (pe_port P) s = (pe_fd P, s1) \<and> pr_calls s1 = pr_calls s @ peer_calls P"
  using assms
  by (auto simp: reaches_def inet_connect_def sys_def Let_def peer_calls_def)

context receiver
begin

lemma xchg_result:
  assumes out: "pkt_ok out" "alloc_for (cx_mem C) out"
    and p: "ok p" and reach: "reaches C s P bs" and bs: "prefix bs (enc_pkt p)" and v: "J p 0 v"
  obtains (all) s' cs where "bs = enc_pkt p" "packet_xchg C out v s = Some (0, whole p, s')"
      "pr_calls s' = pr_calls s @ peer_calls P @ cs @ [Sys_close (pe_fd P)]"
      "bytes_out (cx_os C) (pe_fd P) (pr_calls s @ peer_calls P) cs = enc_pkt out"
  | (cut) v' s' cs where "bs \<noteq> enc_pkt p" "J p (length bs) v'"
      "packet_xchg C out v s = (if print_packet [] v' = None then None else Some (0, v', s'))"
      "pr_calls s' = pr_calls s @ peer_calls P @ cs @ [Sys_close (pe_fd P)]"
      "bytes_out (cx_os C) (pe_fd P) (pr_calls s @ peer_calls P) cs = enc_pkt out"
proof -
  let ?fd = "pe_fd P" and ?tr = "pr_calls s @ peer_calls P"
  have takes: "takes_bytes (cx_os C) ?fd" and sends: "sends_bytes (cx_os C) ?fd ?tr bs"
    and fd: "\<not> ?fd < 0"
    and conf: "conf_get (cx_mem C) (cx_env C) MIDDFS_CONF_SERVERIP = Some (pe_ip P)"
      "conf_get_uint32 (cx_mem C) (cx_env C) MIDDFS_CONF_SERVERPORT 0 = (pe_port P, 0)"
    using reach by (simp_all add: reaches_def)
  obtain s1 where conn: "inet_connect C (pe_ip P) (pe_port P) s = (?fd, s1)" "pr_calls s1 = ?tr"
    using inet_connect_reaches [OF reach] by blast
  obtain s2 cs where send: "packet_send C ?fd out s1 = Some (0, s2)" "pr_calls s2 = ?tr @ cs"
    "list_all (\<lambda>c. \<exists>bs. c = Sys_write ?fd bs) cs" "bytes_out (cx_os C) ?fd ?tr cs = enc_pkt out"
    by (rule packet_send_result [OF out takes, of s1]) (use conn(2) in auto)
  show thesis
  proof (rule packet_recv_result [OF p sends bs send(2) bytes_in_writes [OF send(3)] v])
    fix s3 ds assume recv: "bs = enc_pkt p" "packet_recv C ?fd v s2 = Some (0, whole p, s3)"
      "pr_calls s3 = pr_calls s2 @ ds" "list_all (\<lambda>c. \<exists>k. c = Sys_read ?fd k) ds"
    have "packet_xchg C out v s = Some (0, whole p, snd (sys C (Sys_close ?fd) s3))"
      using conf conn fd send recv(1,2) by (simp add: packet_xchg_def)
    with recv send show thesis
      by (intro all [of "snd (sys C (Sys_close ?fd) s3)" "cs @ ds"])
        (simp_all add: bytes_out_append bytes_out_reads)
  next
    fix v' s3 ds assume recv: "bs \<noteq> enc_pkt p" "J p (length bs) v'"
      "packet_recv C ?fd v s2 = (if print_packet [] v' = None then None else Some (1, v', s3))"
      "pr_calls s3 = pr_calls s2 @ ds" "list_all (\<lambda>c. \<exists>k. c = Sys_read ?fd k) ds"
    have "packet_xchg C out v s
        = (if print_packet [] v' = None then None else Some (0, v', snd (sys C (Sys_close ?fd) s3)))"
      using conf conn fd send recv(3) by (simp add: packet_xchg_def)
    with recv send show thesis
      by (intro cut [of v' "snd (sys C (Sys_close ?fd) s3)" "cs @ ds"])
        (simp_all add: bytes_out_append bytes_out_reads)
  qed
qed

end

section \<open>The two receivers\<close>

text \<open>
  Into a packet of the caller whose union holds u at first, zeroed or not; and into a zeroed one,
  where it is known what a response that is not a directory leaves at every moment.
\<close>

interpretation response: receiver C "\<lambda>p k v. pkt_target u p v" "read_pkt u"
  "\<lambda>p. pkt_ok p \<and> mpkt_type p = MPKT_RESPONSE \<and> alloc_for (cx_mem C) p"
proof (unfold_locales, goal_cases)
  case (3 p)
  then have "response_ok (old_response (mpkt_un p))" "mpkt_type p = MPKT_RESPONSE" by (auto simp: pkt_ok_def)
  moreover from this(1) obtain t where "print_response [] (read_response u (old_response (mpkt_un p))) = Some t"
    using print_received_response [of "old_response (mpkt_un p)" "[]" u] by blast
  ultimately show ?case
    by (simp add: print_packet_def read_pkt_def get_response_def)
next
  case (4 p k v n buf)
  then show ?case using resumesD [OF resumes_pkt] by blast
qed simp_all

interpretation part: receiver C "\<lambda>p k v. v = part_pkt p k" canon_pkt
  "\<lambda>p. (pkt_ok p \<and> mpkt_type p = MPKT_RESPONSE \<and> alloc_for (cx_mem C) p) \<and>
     mrsp_type (old_response (mpkt_un p)) \<noteq> MRSP_DIR"
proof (unfold_locales, goal_cases)
  case (3 p)
  then show ?case by (intro print_received) simp
next
  case (4 p k v n buf)
  then have p: "pkt_ok p" "mpkt_type p = MPKT_RESPONSE" "mrsp_type (old_response (mpkt_un p)) \<noteq> MRSP_DIR"
    by simp_all
  obtain m v' where "deserialize_pkt (cx_mem C) buf n v 0 = Some (m, v', 0)"
    "rstate (enc_pkt p) n (\<lambda>w. w = canon_pkt p) (m, v', 0)"
    using response.attempt [of p C Rsp_zero v 0 n buf] 4 part_pkt_target [OF p, of k] read_pkt_zero [OF p(2)] by auto
  with part_pkt_next [OF p 4(4) _ 4(3), of "cx_mem C"] 4(2) show ?case by auto
qed simp_all

end
