(* ===== verification/Client_Peer.thy ===== *)
theory Client_Peer
  imports Client_Exchange Serial_Properties
begin

text \<open>
  A network that meets the hypotheses of an exchange: the socket takes one byte at a time,
  some writes are interrupted first, and the server's bytes come one by one.
\<close>

section \<open>The system\<close>

fun is_read :: "int \<Rightarrow> syscall \<Rightarrow> bool" where
  "is_read fd (Sys_read fd' n) = (fd' = fd \<and> n \<noteq> 0)"
| "is_read fd c = False"

definition gives :: "int \<Rightarrow> byte list \<Rightarrow> reply" where
  "gives n bs = \<lparr>r_ret = n, r_errno = 0, r_bytes = bs, r_stat = zero_stat_buf, r_ents = []\<rparr>"

definition fails :: "int \<Rightarrow> reply" where
  "fails e = (gives (-1) [])\<lparr>r_errno := e\<rparr>"

lemma gives_simps [simp]:
  "r_ret (gives n bs) = n" "r_bytes (gives n bs) = bs" "r_errno (gives n bs) = 0"
  "r_ret (fails e) = -1" "r_errno (fails e) = e"
  by (simp_all add: gives_def fails_def)

definition slow_peer :: "byte list \<Rightarrow> os" where
  "slow_peer bs tr c =
     (case c of
        Sys_socket \<Rightarrow> gives 3 []
      | Sys_write fd m \<Rightarrow> if length tr < 6 \<and> even (length tr) then fails EINTR else gives 1 []
      | Sys_read fd n \<Rightarrow>
          (let got = (if n = 0 then [] else take 1 (drop (length (filter (is_read fd) tr)) bs)) in
           gives (int (length got)) got)
      | _ \<Rightarrow> gives 0 [])"

lemma slow_takes: "takes_bytes (slow_peer bs) fd"
proof -
  have "\<exists>K. \<forall>tr m. K \<le> length tr \<longrightarrow> m \<noteq> [] \<longrightarrow> 0 \<le> r_ret (slow_peer bs tr (Sys_write fd m))"
    by (intro exI [of _ 6]) (simp add: slow_peer_def)
  then show ?thesis
    by (auto simp: takes_bytes_def slow_peer_def Let_def Suc_le_eq)
qed

lemma slow_bytes_in:
  "bytes_in (slow_peer bs) fd tr cs =
   take (length (filter (is_read fd) cs)) (drop (length (filter (is_read fd) tr)) bs)"
proof (induction cs arbitrary: tr)
  case (Cons c cs)
  show ?case
  proof (cases "is_read fd c")
    case True
    then obtain n where "c = Sys_read fd n" "n \<noteq> 0" by (cases c) auto
    with Cons show ?thesis
      by (cases "drop (length (filter (is_read fd) tr)) bs")
        (auto simp: slow_peer_def Let_def drop_Suc tl_drop [symmetric])
  next
    case False
    with Cons show ?thesis
      by (cases c) (auto simp: slow_peer_def Let_def)
  qed
qed simp

lemma one_byte: "(n :: u64) \<noteq> 0 \<Longrightarrow> min k (Suc 0) \<le> unat n"
  using unat_gt_0 [of n] by simp

lemma slow_sends: "filter (is_read fd) tr = [] \<Longrightarrow> sends_bytes (slow_peer bs) fd tr bs"
  by (auto simp: sends_bytes_def slow_bytes_in slow_peer_def Let_def take_is_prefix unat_gt_0
      one_byte take_add [symmetric] simp del: take_Suc)

section \<open>The client\<close>

definition peer_env :: environ where
  "peer_env =
     [''MIDDFS_serverip'' \<mapsto> ''10.0.0.1'', ''MIDDFS_serverport'' \<mapsto> ''4000'',
      ''MIDDFS_username'' \<mapsto> ''amy'', ''MIDDFS_homepath'' \<mapsto> ''/home'']"

definition peer_ctx :: "os \<Rightarrow> ctx" where
  "peer_ctx w =
     \<lparr>cx_mem = good_env, cx_env = peer_env, cx_os = w, cx_uid = 7, cx_gid = 7, cx_junk = zero_packet\<rparr>"

definition new_proc :: proc where
  "new_proc = \<lparr>pr_calls = [], pr_errno = 0\<rparr>"

definition the_peer :: peer where
  "the_peer = \<lparr>pe_ip = ''10.0.0.1'', pe_port = 4000, pe_fd = 3\<rparr>"

lemma peer_ctx_simps [simp]:
  "cx_mem (peer_ctx w) = good_env" "cx_env (peer_ctx w) = peer_env" "cx_os (peer_ctx w) = w"
  "cx_junk (peer_ctx w) = zero_packet" "pr_calls new_proc = []"
  by (simp_all add: peer_ctx_def new_proc_def)

lemma good_alloc [simp]: "alloc_for good_env pkt" "can_alloc good_env n" "alloc_upto good_env n"
  by (simp_all add: alloc_for_def alloc_upto_def good_env_def)

lemma peer_conf:
  "conf_get good_env peer_env MIDDFS_CONF_SERVERIP = Some ''10.0.0.1''"
  "conf_get good_env peer_env MIDDFS_CONF_USERNAME = Some ''amy''"
  "conf_get good_env peer_env MIDDFS_CONF_HOMEPATH = Some ''/home''"
  "conf_get_uint32 good_env peer_env MIDDFS_CONF_SERVERPORT 0 = (4000, 0)"
  by code_simp+

lemma peer_reaches: "reaches (peer_ctx (slow_peer bs)) new_proc the_peer bs"
proof -
  have "filter (is_read 3) (peer_calls the_peer) = []" by (simp add: peer_calls_def the_peer_def)
  from slow_sends [OF this] show ?thesis
    by (simp add: reaches_def peer_conf slow_takes the_peer_def peer_calls_def)
      (simp add: slow_peer_def)
qed

end
