(* ===== verification/Client_Laws.thy ===== *)
theory Client_Laws
  imports Client_Calls Serve_Laws
begin

text \<open>
  The responder of a client: each of its requests makes calls on the client's own files only,
  and its handlers meet the contract of a packet handler, with the calls made so far as their
  state.
\<close>

section \<open>The calls of a request\<close>

abbreviation own_calls :: "ctx \<Rightarrow> proc \<Rightarrow> proc \<Rightarrow> bool" where
  "own_calls C \<equiv> calls_by (own_call C)"

lemmas request_defs = handle_request_getattr_def handle_request_access_def handle_request_open_def
  handle_request_truncate_def handle_request_read_def handle_request_write_def

lemma path_request_calls:
  assumes "path_request C path req rsp s = Some (st, rsp', s')" "below_home C path"
  shows "own_calls C s s'"
proof (cases "mreq_type req")
  case MREQ_READDIR
  with assms show ?thesis
    by (auto simp: path_request_def handle_request_readdir_def bind_Some_iff case_prod_beta Let_def
        calls_by_def split: if_splits option.splits)
next
  case MREQ_RENAME
  with assms localpath_below show ?thesis
    by (auto simp: path_request_def handle_request_rename_def bind_Some_iff case_prod_beta
        calls_by_def split: if_splits)
qed (use assms in \<open>auto simp: path_request_def request_defs case_prod_beta Let_def calls_by_def
    split: if_splits\<close>)

lemma fd_request_calls:
  assumes "fd_request C path req rsp s = Some (st, rsp', s')" "below_home C path"
  shows "own_calls C s s'"
  using assms
  by (cases "mreq_type req")
    (auto simp: fd_request_def request_defs bind_Some_iff case_prod_beta Let_def calls_by_def
      split: if_splits)

lemma handle_request_calls:
  assumes "handle_request C in_pkt out s = Some (h, out', s')"
  shows "own_calls C s s'"
proof -
  obtain req path where req: "get_request (mpkt_un in_pkt) = Some req"
    and path: "middfs_localpath_tmp C (mr_path (mreq_rsrc req)) = Some path"
    using assms by (auto simp: handle_request_def bind_Some_iff Let_def)
  let ?rsp = "old_response (mpkt_un out)" and ?t = "mreq_type req"
  show ?thesis
  proof (cases "\<not> on_path ?t \<and> \<not> on_fd ?t")
    case True
    with assms req path show ?thesis by (auto simp: handle_request_def intro: calls_intros)
  next
    case False
    with assms req path obtain st rsp1 where
      "(if on_path ?t then path_request C path req ?rsp s else fd_request C path req ?rsp s) = Some (st, rsp1, s')"
      by (auto simp: handle_request_def bind_Some_iff Let_def cong: if_cong)
    with path_request_calls fd_request_calls localpath_below [OF path] show ?thesis
      by (auto split: if_splits)
  qed
qed

section \<open>The interface\<close>

lemma client_rd_outcome:
  assumes live: "sockinfo_live info" "si_state info = MSS_REQRD \<or> si_state info = MSS_RSPFWD"
    and g: "own_calls C s0 p" and run: "client_pkt_rd_fin C pkt (info, p) = Some res"
  shows "outcome_ok (own_calls C s0) res"
proof -
  have st: "si_state info = MSS_REQRD" using run by (auto simp: client_pkt_rd_fin_def split: if_splits)
  have b: "bufs_ok info" using live by (simp add: sockinfo_live_def)
  show ?thesis
  proof (cases "mpkt_type pkt = MPKT_REQUEST")
    case True
    with run st obtain h out p1 where req: "handle_request C pkt zero_packet p = Some (h, out, p1)"
      and rest: "(if h = HS_DEL then Some (HS_DEL, info, p1)
        else do {
          (r, buf) \<leftarrow> buffer_serialize (cx_mem C) (serialize_pkt out) (se_buf (si_out info));
          let info1 = set_out_buf buf info;
          Some (if r < 0 then (HS_DEL, info1, p1)
                else (HS_SUC,
                      info1\<lparr>si_state := MSS_RSPWR,
                            si_out := (si_out info1)\<lparr>se_fd := se_fd (si_in info1)\<rparr>,
                            si_in := (si_in info1)\<lparr>se_fd := -1\<rparr>\<rparr>, p1))
        }) = Some res"
      by (auto simp: client_pkt_rd_fin_def bind_Some_iff)
    have g1: "own_calls C s0 p1" using g handle_request_calls [OF req] by (rule calls_by_trans)
    show ?thesis
    proof (cases "h = HS_DEL")
      case True
      with rest b g1 show ?thesis by (auto simp: outcome_ok_def)
    next
      case False
      with rest obtain r buf where
        ser: "buffer_serialize (cx_mem C) (serialize_pkt out) (se_buf (si_out info)) = Some (r, buf)"
        by (auto simp: bind_Some_iff)
      have "buffer_ok (se_buf (si_out info))" using b by (simp add: bufs_ok_def)
      from buffer_serialize_ok [OF framed_pkt this ser] have "bufs_ok (set_out_buf buf info)"
        using set_buf_ok [OF b] by blast
      with rest False ser g1 live st show ?thesis
        by (cases "r < 0")
          (auto simp: outcome_ok_def sockinfo_live_def bufs_ok_def live_fds_def Let_def set_out_buf_def)
    qed
  next
    case False
    with run st b g show ?thesis
      by (cases "mpkt_type pkt") (auto simp: client_pkt_rd_fin_def outcome_ok_def)
  qed
qed

interpretation responder: packet_handler "cx_mem C" "client_hi C" "own_calls C s0"
proof (unfold_locales, goal_cases)
  case (1 info g io pkt res)
  then show ?case by (intro client_rd_outcome [of info]) (simp_all add: client_hi_def)
next
  case (2 info g io res)
  then show ?case
    by (auto simp: client_hi_def client_pkt_wr_fin_def outcome_ok_def sockinfo_live_def split: if_splits)
qed

end
