(* ===== verification/Client_Remote.thy ===== *)
theory Client_Remote
  imports Client_Exchange Client_Laws Serial_Canon
begin

text \<open>
  A file operation on another user's file, from end to end: the request of the requester, what
  the owner's responder does with it, and the result the requester makes of the response. The
  specifications are what the owner's own system calls would give.
\<close>

section \<open>Specifications\<close>

text \<open>
  Reading and writing a file by its name: the value, negative for the error number, the bytes
  read, and the process. Writing reports success whatever the count of \<open>pwrite\<close> is.
\<close>

definition pread_file ::
    "ctx \<Rightarrow> string \<Rightarrow> u64 \<Rightarrow> u64 \<Rightarrow> proc \<Rightarrow> int \<times> byte list \<times> proc" where
  "pread_file B path sz offset t =
     (let (f, t1) = sys B (Sys_open path O_RDWR 0) t in
      if r_ret f < 0 then (- r_errno f, [], t1)
      else
        (let (r, t2) = sys B (Sys_pread (r_ret f) sz offset) t1;
             t3 = snd (sys B (Sys_close (r_ret f)) t2)
         in if r_ret r < 0 then (- r_errno r, [], t3)
            else (int (length (r_bytes r)), r_bytes r, t3)))"

definition pwrite_file ::
    "ctx \<Rightarrow> string \<Rightarrow> byte list option \<Rightarrow> u64 \<Rightarrow> u64 \<Rightarrow> proc \<Rightarrow> int \<times> proc" where
  "pwrite_file B path bs sz offset t =
     (let (f, t1) = sys B (Sys_open path O_RDWR 0) t in
      if r_ret f < 0 then (- r_errno f, t1)
      else
        (let (r, t2) = sys B (Sys_pwrite (r_ret f) bs sz offset) t1;
             t3 = snd (sys B (Sys_close (r_ret f)) t2)
         in if r_ret r < 0 then (- r_errno r, t3) else (0, t3)))"

text \<open>
  What every system does: an error number is a positive \<open>int\<close>, and \<open>pread\<close> gives no more
  bytes than it is asked for.
\<close>

definition os_ok :: "os \<Rightarrow> bool" where
  "os_ok w \<longleftrightarrow>
     (\<forall>tr c. r_ret (w tr c) < 0 \<longrightarrow> 0 < r_errno (w tr c) \<and> r_errno (w tr c) < 2 ^ 31) \<and>
     (\<forall>tr fd n off. length (r_bytes (w tr (Sys_pread fd n off))) \<le> unat n)"

lemma os_ok_sys:
  assumes "os_ok (cx_os B)" "sys B c t = (r, t1)" "r_ret r < 0"
  shows "pr_errno t1 = r_errno r" "0 < r_errno r" "r_errno r < 2 ^ 31"
  using assms sys_step [OF assms(2)] by (auto simp: os_ok_def)

section \<open>The owner's side\<close>

definition error_response :: "int \<Rightarrow> middfs_response" where
  "error_response n = \<lparr>mrsp_type = MRSP_ERROR, mrsp_un = Rsp_error (word_of_int (- n))\<rparr>"

definition data_response :: "byte list \<Rightarrow> middfs_response" where
  "data_response bs =
     \<lparr>mrsp_type = MRSP_DATA,
      mrsp_un = Rsp_data \<lparr>mdata_buf = Some bs, mdata_nbytes = word_of_nat (length bs)\<rparr>\<rparr>"

definition response_pkt :: "middfs_response \<Rightarrow> middfs_packet" where
  "response_pkt rsp =
     \<lparr>mpkt_magic = MPKT_MAGIC, mpkt_type = MPKT_RESPONSE, mpkt_un = Pkt_response rsp\<rparr>"

lemma old_response_zero [simp]: "old_response Pkt_zero = \<lparr>mrsp_type = MRSP_OK, mrsp_un = Rsp_zero\<rparr>"
  by (simp add: old_response_def get_response_def zero_response_def)

lemma handle_read_request:
  assumes mem: "\<forall>k. can_alloc (cx_mem B) k" and w: "os_ok (cx_os B)"
    and req: "get_request (mpkt_un pkt) = Some req" "mreq_type req = MREQ_READ"
    and path: "middfs_localpath_tmp B (mr_path (mreq_rsrc req)) = Some path"
    and spec: "pread_file B path (mreq_size req) (mreq_off req) t = (n, bs, t')"
  shows "handle_request B pkt zero_packet t
    = Some (HS_SUC, response_pkt (if n < 0 then error_response n else data_response bs), t')"
    and "length bs \<le> unat (mreq_size req)" "- (2 ^ 31) < n" "n < 0 \<or> n = int (length bs)"
proof -
  obtain f t1 where f: "sys B (Sys_open path O_RDWR 0) t = (f, t1)" by fastforce
  obtain r t2 where r: "sys B (Sys_pread (r_ret f) (mreq_size req) (mreq_off req)) t1 = (r, t2)" by fastforce
  have len: "length (r_bytes r) \<le> unat (mreq_size req)"
    using w sys_step(2) [OF r] by (simp add: os_ok_def)
  consider (no_file) "r_ret f < 0" | (no_read) "0 \<le> r_ret f" "r_ret r < 0" | (read) "0 \<le> r_ret f" "0 \<le> r_ret r"
    by linarith
  then have "handle_request B pkt zero_packet t
      = Some (HS_SUC, response_pkt (if n < 0 then error_response n else data_response bs), t') \<and>
    length bs \<le> unat (mreq_size req) \<and> - (2 ^ 31) < n \<and> (n < 0 \<or> n = int (length bs))"
  proof cases
    case no_file
    with spec f r os_ok_sys [OF w f] req path mem show ?thesis
      by (auto simp: pread_file_def handle_request_def fd_request_def on_path_def on_fd_def zero_packet_def
          response_pkt_def error_response_def)
  next
    case no_read
    with spec f r os_ok_sys [OF w r] req path mem show ?thesis
      by (auto simp: pread_file_def handle_request_def fd_request_def on_path_def on_fd_def zero_packet_def
          response_pkt_def error_response_def handle_request_read_def)
  next
    case read
    with spec f r len req path mem show ?thesis
      by (auto simp: pread_file_def handle_request_def fd_request_def on_path_def on_fd_def zero_packet_def
          response_pkt_def data_response_def handle_request_read_def)
  qed
  then show "handle_request B pkt zero_packet t
      = Some (HS_SUC, response_pkt (if n < 0 then error_response n else data_response bs), t')"
    "length bs \<le> unat (mreq_size req)" "- (2 ^ 31) < n" "n < 0 \<or> n = int (length bs)"
    by blast+
qed

lemma handle_write_request:
  assumes w: "os_ok (cx_os B)"
    and req: "get_request (mpkt_un pkt) = Some req" "mreq_type req = MREQ_WRITE"
    and path: "middfs_localpath_tmp B (mr_path (mreq_rsrc req)) = Some path"
    and spec: "pwrite_file B path (mreq_data req) (mreq_size req) (mreq_off req) t = (n, t')"
  shows "handle_request B pkt zero_packet t
    = Some (HS_SUC, response_pkt (if n < 0 then error_response n
                                  else \<lparr>mrsp_type = MRSP_OK, mrsp_un = Rsp_zero\<rparr>), t')"
proof -
  obtain f t1 where f: "sys B (Sys_open path O_RDWR 0) t = (f, t1)" by fastforce
  obtain r t2 where r: "sys B (Sys_pwrite (r_ret f) (mreq_data req) (mreq_size req) (mreq_off req)) t1 = (r, t2)"
    by fastforce
  consider (no_file) "r_ret f < 0" | (no_write) "0 \<le> r_ret f" "r_ret r < 0" | (written) "0 \<le> r_ret f" "0 \<le> r_ret r"
    by linarith
  then show ?thesis
  proof cases
    case no_file
    with spec f r os_ok_sys [OF w f] req path show ?thesis
      by (auto simp: pwrite_file_def handle_request_def fd_request_def on_path_def on_fd_def zero_packet_def
          response_pkt_def error_response_def)
  next
    case no_write
    with spec f r os_ok_sys [OF w r] req path show ?thesis
      by (auto simp: pwrite_file_def handle_request_def fd_request_def on_path_def on_fd_def zero_packet_def
          response_pkt_def error_response_def handle_request_write_def)
  next
    case written
    with spec f r req path show ?thesis
      by (auto simp: pwrite_file_def handle_request_def fd_request_def on_path_def on_fd_def zero_packet_def
          response_pkt_def handle_request_write_def)
  qed
qed

text \<open>The response in the output buffer of the connection.\<close>

lemma responder_answers:
  assumes mem: "\<forall>k. can_alloc (cx_mem B) k"
    and info: "si_state info = MSS_REQRD" "buffer_ok (se_buf (si_out info))"
      "contents (se_buf (si_out info)) = []"
    and pkt: "mpkt_type pkt = MPKT_REQUEST"
    and req: "handle_request B pkt zero_packet t = Some (HS_SUC, rsp, t')" and ok: "pkt_ok rsp"
  shows "\<exists>info'. client_pkt_rd_fin B pkt (info, t) = Some (HS_SUC, info', t') \<and>
    contents (se_buf (si_out info')) = enc_pkt rsp"
proof -
  have len: "length (contents (se_buf (si_out info))) + length (enc_pkt rsp) < 2 ^ 63"
    using ok info(3) by (simp add: pkt_ok_def)
  show ?thesis
  proof (rule pkt.buffer_serialize_cases [OF ok info(2) len, of "cx_mem B"])
    assume "\<not> alloc_upto (cx_mem B) (length (contents (se_buf (si_out info))) + length (enc_pkt rsp))"
    with mem show ?thesis by (simp add: alloc_upto_def)
  next
    fix buf assume "buffer_serialize (cx_mem B) (serialize_pkt rsp) (se_buf (si_out info))
        = Some (int (length (enc_pkt rsp)), buf)"
      "contents buf = contents (se_buf (si_out info)) @ enc_pkt rsp"
    with info pkt req show ?thesis by (simp add: client_pkt_rd_fin_def set_out_buf_def Let_def)
  qed
qed

section \<open>The requester's side\<close>

lemma response_pkt_type [simp]: "mpkt_type (response_pkt rsp) = MPKT_RESPONSE"
  by (simp add: response_pkt_def)

lemma response_pkt_ok:
  "response_ok rsp \<Longrightarrow> length (enc_response rsp) < 2 ^ 32 \<Longrightarrow> pkt_ok (response_pkt rsp)"
  by (simp add: pkt_ok_def response_pkt_def enc_pkt_def pkt_body_def mpkt_ok_def mpkt_of_code_def
      get_response_def old_response_def)

lemma canon_response_pkt: "canon_pkt (response_pkt rsp) = response_pkt (canon_response rsp)"
  by (simp add: canon_pkt_def response_pkt_def old_response_def get_response_def)

lemma error_response_ok: "pkt_ok (response_pkt (error_response n))"
  by (rule response_pkt_ok)
    (simp_all add: error_response_def response_ok_def get_error_def enc_response_def rsp_body_def)

lemma ok_response_ok: "pkt_ok (response_pkt \<lparr>mrsp_type = MRSP_OK, mrsp_un = Rsp_zero\<rparr>)"
  by (rule response_pkt_ok) (simp_all add: response_ok_def enc_response_def rsp_body_def)

lemma data_response_ok:
  assumes "length bs < 2 ^ 31"
  shows "pkt_ok (response_pkt (data_response bs))"
proof -
  have len: "unat (word_of_nat (length bs) :: u64) = length bs"
    using assms by (intro unat_of_nat_u64) simp
  show ?thesis
    using assms len
    by (intro response_pkt_ok)
      (simp_all add: data_response_def response_ok_def get_data_def old_data_def data_ok_def block_ok_def
        enc_response_def rsp_body_def enc_data_def block_bytes_def)
qed

lemma canon_error_response [simp]: "canon_response (error_response n) = error_response n"
  by (simp add: error_response_def canon_response_def old_error_def get_error_def)

lemma canon_ok_response [simp]:
  "canon_response \<lparr>mrsp_type = MRSP_OK, mrsp_un = Rsp_zero\<rparr> = \<lparr>mrsp_type = MRSP_OK, mrsp_un = Rsp_zero\<rparr>"
  by (simp add: canon_response_def)

lemma sint_error: "- (2 ^ 31) < n \<Longrightarrow> n < 0 \<Longrightarrow> - sint (word_of_int (- n) :: u32) = n"
  using cint_small [of "- n"] by (simp add: cint_def)

text \<open>A read, given the response that the exchange ends with.\<close>

lemma read_response:
  assumes net: "cr_type cr = MR_NETWORK" and req: "read_request C cr sz off = Some req"
    and x: "packet_xchg C (request_pkt req) zero_packet s
      = Some (0, canon_pkt (response_pkt (if n < 0 then error_response n else data_response bs)), s')"
    and n: "- (2 ^ 31) < n" "n < 0 \<or> n = int (length bs)" "n < 0 \<Longrightarrow> bs = []"
    and len: "length bs \<le> unat sz" "unat sz < 2 ^ 31"
  shows "client_rsrc_read C cr sz off s = Some (n, bs, s')"
proof (cases "n < 0")
  case True
  have "canon_pkt (response_pkt (if n < 0 then error_response n else data_response bs))
      = \<lparr>mpkt_magic = MPKT_MAGIC, mpkt_type = MPKT_RESPONSE, mpkt_un = Pkt_response (error_response n)\<rparr>"
    using True by (simp add: canon_response_pkt) (simp add: response_pkt_def)
  note x = x [unfolded this]
  from True net req x n(3) sint_error [OF n(1) True] show ?thesis
    by (simp add: client_rsrc_read_def get_response_def error_response_def get_error_def)
next
  case False
  let ?w = "word_of_nat (length bs) :: u64"
  have w: "unat ?w = length bs" using len by (intro unat_of_nat_u64) simp
  have zero: "?w = 0 \<longleftrightarrow> bs = []" using w by (metis length_0_conv unat_eq_0 of_nat_0)
  have m: "smin sz ?w = ?w" using w len by (simp add: smin_def word_le_nat_alt word_less_nat_alt)
  have "uint ?w = int (length bs)" by (subst of_nat_unat [symmetric], subst w) (rule refl)
  moreover have "cint (int (length bs)) = int (length bs)" using len by (intro cint_small) simp_all
  ultimately have c: "cint (uint ?w) = int (length bs)" by simp
  obtain b where b: "b = (if bs = [] then None else Some bs)" by blast
  have "canon_response (data_response bs)
      = \<lparr>mrsp_type = MRSP_DATA, mrsp_un = Rsp_data \<lparr>mdata_buf = b, mdata_nbytes = ?w\<rparr>\<rparr>"
    using w zero b
    by (simp add: canon_response_def data_response_def old_data_def get_data_def canon_data_def block_bytes_def)
  then have "canon_pkt (response_pkt (if n < 0 then error_response n else data_response bs))
      = \<lparr>mpkt_magic = MPKT_MAGIC, mpkt_type = MPKT_RESPONSE,
         mpkt_un = Pkt_response \<lparr>mrsp_type = MRSP_DATA, mrsp_un = Rsp_data \<lparr>mdata_buf = b, mdata_nbytes = ?w\<rparr>\<rparr>\<rparr>"
    using False by (simp add: canon_response_pkt) (simp add: response_pkt_def)
  note x = x [unfolded this]
  from False net req x n(2) m c w zero b show ?thesis
    by (simp add: client_rsrc_read_def get_response_def get_data_def mem_read_def)
qed

section \<open>End to end\<close>

text \<open>
  A request from the requester C, as it comes out of the network, handled by the responder of
  the owner B, and the response in the exchange of the requester.
\<close>

definition idle_connection :: "middfs_sockinfo \<Rightarrow> bool" where
  "idle_connection info \<longleftrightarrow>
     si_state info = MSS_REQRD \<and> buffer_ok (se_buf (si_out info)) \<and> contents (se_buf (si_out info)) = []"

definition sent_request :: "ctx \<Rightarrow> peer \<Rightarrow> middfs_packet \<Rightarrow> proc \<Rightarrow> proc \<Rightarrow> bool" where
  "sent_request C P out s s' \<longleftrightarrow>
     (\<exists>cs. pr_calls s' = pr_calls s @ peer_calls P @ cs @ [Sys_close (pe_fd P)] \<and>
        bytes_out (cx_os C) (pe_fd P) (pr_calls s @ peer_calls P) cs = enc_pkt out)"

lemma canon_request_pkt:
  "canon_pkt (request_pkt req) = (request_pkt req)\<lparr>mpkt_un := Pkt_request (canon_request req)\<rparr>"
  "mpkt_type (request_pkt req) = MPKT_REQUEST"
  by (simp_all add: canon_pkt_def request_pkt_def packet_init_def old_request_def get_request_def)

lemma remote_exchange:
  assumes mem: "\<forall>k. can_alloc (cx_mem B) k" "\<forall>k. can_alloc (cx_mem C) k"
    and info: "idle_connection info" and out: "pkt_ok (request_pkt req)"
    and run: "handle_request B (canon_pkt (request_pkt req)) zero_packet t = Some (HS_SUC, response_pkt rsp, t')"
    and rsp: "pkt_ok (response_pkt rsp)"
  obtains info' where
    "client_pkt_rd_fin B (canon_pkt (request_pkt req)) (info, t) = Some (HS_SUC, info', t')"
    "\<And>(v :: middfs_packet) s P. mpkt_un v = Pkt_zero \<or> pointer_free (response_pkt rsp) \<Longrightarrow>
       reaches C s P (contents (se_buf (si_out info'))) \<Longrightarrow>
       \<exists>s'. packet_xchg C (request_pkt req) v s = Some (0, read_into v (response_pkt rsp), s') \<and>
            sent_request C P (request_pkt req) s s'"
proof -
  have ty: "mpkt_type (canon_pkt (request_pkt req)) = MPKT_REQUEST" by (simp add: canon_request_pkt)
  obtain info' where info': "client_pkt_rd_fin B (canon_pkt (request_pkt req)) (info, t) = Some (HS_SUC, info', t')"
    "contents (se_buf (si_out info')) = enc_pkt (response_pkt rsp)"
    using responder_answers [OF mem(1) _ _ _ ty run rsp] info by (auto simp: idle_connection_def)
  have al: "alloc_for (cx_mem C) pkt" for pkt using mem(2) by (simp add: alloc_for_def alloc_upto_def)
  show thesis
  proof (rule that [OF info'(1)])
    fix v :: middfs_packet and s P assume v: "mpkt_un v = Pkt_zero \<or> pointer_free (response_pkt rsp)"
      and reach: "reaches C s P (contents (se_buf (si_out info')))"
    show "\<exists>s'. packet_xchg C (request_pkt req) v s = Some (0, read_into v (response_pkt rsp), s') \<and>
        sent_request C P (request_pkt req) s s'"
      by (rule response.xchg_result [OF out al _ reach [unfolded info'(2)] prefix_order.refl pkt_target_into [OF v]])
        (use rsp al in \<open>auto simp: sent_request_def\<close>)
  qed
qed

text \<open>Reading: what the owner answers, and what the requester makes of the answer.\<close>

lemma read_request_facts:
  assumes "read_request C cr sz off = Some req" "pkt_ok (request_pkt req)"
  shows "mreq_type req = MREQ_READ" "mreq_rsrc req = cr_rsrc cr" "mreq_size req = sz" "mreq_off req = off"
    "unat sz < 2 ^ 31"
proof -
  show r: "mreq_type req = MREQ_READ" "mreq_rsrc req = cr_rsrc cr" "mreq_size req = sz" "mreq_off req = off"
    using assms(1) by (auto simp: read_request_def bind_Some_iff)
  show "unat sz < 2 ^ 31"
    using assms(2) r by (auto simp: pkt_ok_def request_pkt_def packet_init_def old_request_def get_request_def
        request_ok_def Let_def req_has_size_def)
qed

abbreviation read_answer :: "int \<Rightarrow> byte list \<Rightarrow> middfs_response" where
  "read_answer n bs \<equiv> (if n < 0 then error_response n else data_response bs)"

lemma owner_reads:
  assumes mem: "\<forall>k. can_alloc (cx_mem B) k" and w: "os_ok (cx_os B)"
    and req: "read_request C cr sz off = Some req" and out: "pkt_ok (request_pkt req)"
    and path: "middfs_localpath_tmp B (mr_path (cr_rsrc cr)) = Some path"
    and spec: "pread_file B path sz off t = (n, bs, t')"
  shows "handle_request B (canon_pkt (request_pkt req)) zero_packet t
      = Some (HS_SUC, response_pkt (read_answer n bs), t')"
    and "pkt_ok (response_pkt (read_answer n bs))"
    and "length bs \<le> unat sz" "- (2 ^ 31) < n" "n < 0 \<or> n = int (length bs)" "n < 0 \<Longrightarrow> bs = []"
proof -
  note r = read_request_facts [OF req out]
  let ?req = "canon_request req"
  have c: "mreq_type ?req = MREQ_READ" "mreq_rsrc ?req = cr_rsrc cr" "mreq_size ?req = sz" "mreq_off ?req = off"
    using r by (simp_all add: canon_request_def req_has_size_def req_has_off_def)
  have g: "get_request (mpkt_un (canon_pkt (request_pkt req))) = Some ?req"
    by (simp add: canon_request_pkt get_request_def)
  note own = handle_read_request [OF mem w g c(1) path [folded c(2)] spec [folded c(3,4)]]
  show "handle_request B (canon_pkt (request_pkt req)) zero_packet t
      = Some (HS_SUC, response_pkt (read_answer n bs), t')" by (rule own(1))
  show len: "length bs \<le> unat sz" "- (2 ^ 31) < n" "n < 0 \<or> n = int (length bs)"
    using own(2-4) c(3) by simp_all
  show "pkt_ok (response_pkt (read_answer n bs))"
    using len(1) r(5) by (simp add: error_response_ok data_response_ok)
  show "n < 0 \<Longrightarrow> bs = []"
    using spec by (auto simp: pread_file_def case_prod_beta Let_def split: if_splits)
qed

lemma remote_read_result:
  assumes mem: "\<forall>k. can_alloc (cx_mem B) k" "\<forall>k. can_alloc (cx_mem C) k" and w: "os_ok (cx_os B)"
    and net: "cr_type cr = MR_NETWORK" and req: "read_request C cr sz off = Some req"
    and out: "pkt_ok (request_pkt req)" and info: "idle_connection info"
    and path: "middfs_localpath_tmp B (mr_path (cr_rsrc cr)) = Some path"
    and spec: "pread_file B path sz off t = (n, bs, t')"
  obtains info' where
    "client_pkt_rd_fin B (canon_pkt (request_pkt req)) (info, t) = Some (HS_SUC, info', t')"
    "\<And>s P. reaches C s P (contents (se_buf (si_out info'))) \<Longrightarrow>
       \<exists>s'. client_rsrc_read C cr sz off s = Some (n, bs, s') \<and> sent_request C P (request_pkt req) s s'"
proof -
  note own = owner_reads [OF mem(1) w req out path spec]
  obtain info' where
    info': "client_pkt_rd_fin B (canon_pkt (request_pkt req)) (info, t) = Some (HS_SUC, info', t')"
    and x: "\<And>(v :: middfs_packet) s P. mpkt_un v = Pkt_zero \<or> pointer_free (response_pkt (read_answer n bs)) \<Longrightarrow>
       reaches C s P (contents (se_buf (si_out info'))) \<Longrightarrow>
       \<exists>s'. packet_xchg C (request_pkt req) v s = Some (0, read_into v (response_pkt (read_answer n bs)), s') \<and>
            sent_request C P (request_pkt req) s s'"
    using remote_exchange [OF mem info out own(1,2)] by blast
  show thesis
  proof (rule that [OF info'])
    fix s P assume reach: "reaches C s P (contents (se_buf (si_out info')))"
    from x [OF disjI1 [OF zero_packet_fresh] this, unfolded read_into_zero [OF zero_packet_fresh response_pkt_type]]
    obtain s' where "packet_xchg C (request_pkt req) zero_packet s
        = Some (0, canon_pkt (response_pkt (read_answer n bs)), s')" "sent_request C P (request_pkt req) s s'" by blast
    with read_response [OF net req this(1) own(4-6) own(3) read_request_facts(5) [OF req out]]
    show "\<exists>s'. client_rsrc_read C cr sz off s = Some (n, bs, s') \<and> sent_request C P (request_pkt req) s s'"
      by blast
  qed
qed

lemma cint_size: "unat (sz :: u64) < 2 ^ 31 \<Longrightarrow> cint (uint sz) = int (unat sz)"
proof -
  assume "unat sz < 2 ^ 31"
  then have "int (unat sz) < 2 ^ 31" by (simp only: of_nat_less_numeral_power_cancel_iff)
  then have "cint (int (unat sz)) = int (unat sz)" by (intro cint_small) simp
  then show ?thesis by (simp only: of_nat_unat)
qed

definition write_req :: "string \<Rightarrow> client_rsrc \<Rightarrow> byte list \<Rightarrow> u64 \<Rightarrow> u64 \<Rightarrow> middfs_request" where
  "write_req user cr buf sz off =
     zero_request\<lparr>mreq_type := MREQ_WRITE, mreq_requester := Some user, mreq_rsrc := cr_rsrc cr,
       mreq_size := sz, mreq_off := off, mreq_data := Some (take (unat sz) buf)\<rparr>"

lemma write_req_simps [simp]:
  "mreq_type (write_req user cr buf sz off) = MREQ_WRITE" "mreq_rsrc (write_req user cr buf sz off) = cr_rsrc cr"
  "mreq_size (write_req user cr buf sz off) = sz" "mreq_off (write_req user cr buf sz off) = off"
  "mreq_data (write_req user cr buf sz off) = Some (take (unat sz) buf)"
  by (simp_all add: write_req_def)

abbreviation status_answer :: "int \<Rightarrow> middfs_response" where
  "status_answer n \<equiv> (if n < 0 then error_response n else \<lparr>mrsp_type = MRSP_OK, mrsp_un = Rsp_zero\<rparr>)"

lemma status_answer_ok: "pkt_ok (response_pkt (status_answer n))"
  by (simp add: error_response_ok ok_response_ok)

lemma canon_status_answer: "canon_pkt (response_pkt (status_answer n)) = response_pkt (status_answer n)"
  by (simp add: canon_response_pkt)

lemma status_answer_read: "pointer_free (response_pkt (status_answer n))"
  "read_pkt u (response_pkt (status_answer n))
    = response_pkt (if n < 0 then error_response n else \<lparr>mrsp_type = MRSP_OK, mrsp_un = u\<rparr>)"
proof -
  have o: "old_response (mpkt_un (response_pkt rsp)) = rsp" for rsp
    by (simp add: response_pkt_def old_response_def get_response_def)
  show "pointer_free (response_pkt (status_answer n))"
    unfolding pointer_free_def o by (simp add: error_response_def)
  show "read_pkt u (response_pkt (status_answer n))
    = response_pkt (if n < 0 then error_response n else \<lparr>mrsp_type = MRSP_OK, mrsp_un = u\<rparr>)"
    unfolding read_pkt_def o
    by (simp add: read_response_def error_response_def canon_response_def old_error_def get_error_def)
      (simp add: response_pkt_def)
qed

lemma owner_writes:
  assumes w: "os_ok (cx_os B)" and req: "req = write_req user cr buf sz off"
    and path: "middfs_localpath_tmp B (mr_path (cr_rsrc cr)) = Some path"
    and len: "unat sz \<le> length buf"
    and spec: "pwrite_file B path (Some (take (unat sz) buf)) sz off t = (n, t')"
  shows "handle_request B (canon_pkt (request_pkt req)) zero_packet t
    = Some (HS_SUC, response_pkt (status_answer n), t')"
proof -
  let ?req = "canon_request req"
  have c: "mreq_type ?req = MREQ_WRITE" "mreq_rsrc ?req = cr_rsrc cr" "mreq_size ?req = sz" "mreq_off ?req = off"
    "mreq_data ?req = Some (take (unat sz) buf)"
    by (simp_all add: req canon_request_def req_has_size_def req_has_off_def req_has_data_def block_bytes_def)
  have g: "get_request (mpkt_un (canon_pkt (request_pkt req))) = Some ?req"
    by (simp add: canon_request_pkt get_request_def)
  have spec': "pwrite_file B path (mreq_data ?req) (mreq_size ?req) (mreq_off ?req) t = (n, t')"
    using spec by (simp only: c)
  show ?thesis by (rule handle_write_request [OF w g c(1) path [folded c(2)] spec'])
qed

lemma write_response:
  assumes mem: "\<forall>k. can_alloc (cx_mem C) k" and net: "cr_type cr = MR_NETWORK"
    and user: "conf_get (cx_mem C) (cx_env C) MIDDFS_CONF_USERNAME = Some user" "user \<noteq> []"
    and len: "unat sz \<le> length buf" and small: "unat sz < 2 ^ 31"
    and x: "packet_xchg C (request_pkt (write_req user cr buf sz off)) (cx_junk C) s
      = Some (0, read_pkt u (response_pkt (status_answer n)), s')"
  shows "client_rsrc_write C cr buf sz off s = (if n < 0 then None else Some (int (unat sz), s'))"
proof -
  have dup: "memdup (cx_mem C) buf sz = Some (Some (take (unat sz) buf))"
    using mem len by (simp add: memdup_def mem_read_def)
  have name: "strdup (cx_mem C) (Some user) = Some (Some user)" using mem by (simp add: strdup_def)
  show ?thesis
    using net user dup name x [unfolded status_answer_read(2), unfolded write_req_def] cint_size [OF small]
    by (simp add: client_rsrc_write_def response_pkt_def get_response_def error_response_def)
qed

lemma write_req_small: "pkt_ok (request_pkt (write_req user cr buf sz off)) \<Longrightarrow> unat sz < 2 ^ 31"
  by (auto simp: pkt_ok_def request_pkt_def packet_init_def old_request_def get_request_def
      request_ok_def Let_def req_has_size_def)

lemma remote_write_result:
  assumes mem: "\<forall>k. can_alloc (cx_mem B) k" "\<forall>k. can_alloc (cx_mem C) k" and w: "os_ok (cx_os B)"
    and net: "cr_type cr = MR_NETWORK"
    and user: "conf_get (cx_mem C) (cx_env C) MIDDFS_CONF_USERNAME = Some user" "user \<noteq> []"
    and len: "unat sz \<le> length buf" and req: "req = write_req user cr buf sz off"
    and out: "pkt_ok (request_pkt req)" and info: "idle_connection info"
    and path: "middfs_localpath_tmp B (mr_path (cr_rsrc cr)) = Some path"
    and spec: "pwrite_file B path (Some (take (unat sz) buf)) sz off t = (n, t')"
  obtains info' where
    "client_pkt_rd_fin B (canon_pkt (request_pkt req)) (info, t) = Some (HS_SUC, info', t')"
    "\<And>s P. reaches C s P (contents (se_buf (si_out info'))) \<Longrightarrow>
       if n < 0 then client_rsrc_write C cr buf sz off s = None
       else \<exists>s'. client_rsrc_write C cr buf sz off s = Some (int (unat sz), s') \<and>
              sent_request C P (request_pkt req) s s'"
proof -
  note own = owner_writes [OF w req path len spec]
  obtain info' where
    info': "client_pkt_rd_fin B (canon_pkt (request_pkt req)) (info, t) = Some (HS_SUC, info', t')"
    and x: "\<And>(v :: middfs_packet) s P. mpkt_un v = Pkt_zero \<or> pointer_free (response_pkt (status_answer n)) \<Longrightarrow>
       reaches C s P (contents (se_buf (si_out info'))) \<Longrightarrow>
       \<exists>s'. packet_xchg C (request_pkt req) v s = Some (0, read_into v (response_pkt (status_answer n)), s') \<and>
            sent_request C P (request_pkt req) s s'"
    using remote_exchange [OF mem info out own status_answer_ok] by blast
  show thesis
  proof (rule that [OF info'])
    fix s P assume reach: "reaches C s P (contents (se_buf (si_out info')))"
    from x [OF disjI2 [OF status_answer_read(1)] reach] obtain s' where s': "packet_xchg C (request_pkt req) (cx_junk C) s
        = Some (0, read_into (cx_junk C) (response_pkt (status_answer n)), s')" "sent_request C P (request_pkt req) s s'" by blast
    from write_response [OF mem(2) net user len write_req_small s'(1) [unfolded req]] out req s'(2)
    show "if n < 0 then client_rsrc_write C cr buf sz off s = None
       else \<exists>s'. client_rsrc_write C cr buf sz off s = Some (int (unat sz), s') \<and>
              sent_request C P (request_pkt req) s s'"
      by auto
  qed
qed

end
