(* ===== verification/Client_Properties.thy ===== *)
theory Client_Properties
  imports Client_Peer Client_Remote Server_Properties
begin

text \<open>
  The properties of the client program: what an exchange with the server does, where the calls
  of its operations go, what its responder keeps, and operations on other users' files from
  end to end.
\<close>

section \<open>Packet exchanges\<close>

text \<open>C14: An exchange with a server that answers completes. However often the writing of the
  request is interrupted, and in whatever pieces the socket takes the request and gives the
  response, \<open>packet_xchg\<close> returns 0 and the response packet; the server was sent exactly the
  bytes of the request, and the socket is closed.\<close>

theorem packet_exchange:
  assumes "pkt_ok out" "alloc_for (cx_mem C) out" "pkt_ok p" "mpkt_type p = MPKT_RESPONSE"
    "alloc_for (cx_mem C) p" "reaches C s P (enc_pkt p)"
  shows "\<exists>s' cs. packet_xchg C out zero_packet s = Some (0, canon_pkt p, s') \<and>
    pr_calls s' = pr_calls s @ peer_calls P @ cs @ [Sys_close (pe_fd P)] \<and>
    bytes_out (cx_os C) (pe_fd P) (pr_calls s @ peer_calls P) cs = enc_pkt out"
proof -
  have t: "pkt_target Rsp_zero p zero_packet" by simp
  note zero = read_pkt_zero [OF assms(4)]
  show ?thesis
  proof (rule response.xchg_result [OF assms(1,2) _ assms(6) prefix_order.refl t])
    show "pkt_ok p \<and> mpkt_type p = MPKT_RESPONSE \<and> alloc_for (cx_mem C) p" using assms(3-5) by simp
  next
    fix s' cs assume "packet_xchg C out zero_packet s = Some (0, read_pkt Rsp_zero p, s')"
      "pr_calls s' = pr_calls s @ peer_calls P @ cs @ [Sys_close (pe_fd P)]"
      "bytes_out (cx_os C) (pe_fd P) (pr_calls s @ peer_calls P) cs = enc_pkt out"
    then show ?thesis unfolding zero by blast
  qed simp
qed

definition sample_rsp :: middfs_packet where
  "sample_rsp = response_pkt (data_response [104, 105])"

lemma sample_rsp_ok: "pkt_ok sample_rsp" "mpkt_type sample_rsp = MPKT_RESPONSE"
  by (simp_all add: sample_rsp_def data_response_ok)

theorem packet_exchange_witness:
  "\<exists>s' cs. packet_xchg (peer_ctx (slow_peer (enc_pkt sample_rsp))) sample_pkt zero_packet new_proc
      = Some (0, canon_pkt sample_rsp, s') \<and>
    pr_calls s' = peer_calls the_peer @ cs @ [Sys_close 3] \<and>
    bytes_out (slow_peer (enc_pkt sample_rsp)) 3 (peer_calls the_peer) cs = enc_pkt sample_pkt"
proof -
  have fd: "pe_fd the_peer = 3" by (simp add: the_peer_def)
  show ?thesis
    using packet_exchange [OF sample_ok(1) _ sample_rsp_ok _ peer_reaches] by (simp add: fd)
qed

text \<open>C34: A response that is cut short is no error. When the server closes the connection within
  a response other than a directory, or before it, \<open>packet_xchg\<close> returns 0, having sent the request, with the
  packet of the caller as the bytes that came leave it: the numbers that came whole, zeros and a
  null pointer for the rest. A response of any type that is cut within its type (after 8 bytes and
  before 12) then passes for OK.\<close>

theorem truncated_response_accepted:
  assumes "pkt_ok out" "alloc_for (cx_mem C) out" "pkt_ok p" "mpkt_type p = MPKT_RESPONSE"
    "alloc_for (cx_mem C) p" "mrsp_type (old_response (mpkt_un p)) \<noteq> MRSP_DIR"
    "reaches C s P bs" "prefix bs (enc_pkt p)" "bs \<noteq> enc_pkt p"
  shows "(\<exists>s' cs. packet_xchg C out zero_packet s = Some (0, part_pkt p (length bs), s') \<and>
      pr_calls s' = pr_calls s @ peer_calls P @ cs @ [Sys_close (pe_fd P)] \<and>
      bytes_out (cx_os C) (pe_fd P) (pr_calls s @ peer_calls P) cs = enc_pkt out) \<and>
    (mpkt_magic p = MPKT_MAGIC \<and> 8 \<le> length bs \<and> length bs < 12 \<longrightarrow>
      response_validate (part_pkt p (length bs)) MRSP_OK = Some 0)"
proof -
  obtain t where t: "print_packet [] (part_pkt p (length bs)) = Some t"
    using print_part_pkt [of p "[]" "length bs"] assms(3,4,6) by auto
  have "\<exists>s' cs. packet_xchg C out zero_packet s = Some (0, part_pkt p (length bs), s') \<and>
      pr_calls s' = pr_calls s @ peer_calls P @ cs @ [Sys_close (pe_fd P)] \<and>
      bytes_out (cx_os C) (pe_fd P) (pr_calls s @ peer_calls P) cs = enc_pkt out"
    by (rule part.xchg_result [OF assms(1,2) _ assms(7,8) part_pkt_start [symmetric]])
      (use assms(3-6,9) t in auto)
  then show ?thesis
    using assms(4) by (auto simp: response_validate_def part_pkt_def part_response_def get_response_def zero_response_def)
qed

lemmas sample_request_simps = pkt_ok_def request_pkt_def packet_init_def get_request_def old_request_def
  mpkt_ok_def mpkt_of_code_def request_ok_def Let_def sample_rsrc_def zero_request_def mreq_ok_def
  mreq_of_code_def cstr_ok_def str_ok_def rsrc_ok_def req_has_size_def req_has_to_def req_has_off_def
  req_has_data_def zero_packet_def write_req_def block_ok_def

definition bob_file :: client_rsrc where
  "bob_file = \<lparr>cr_type = MR_NETWORK, cr_rsrc = sample_rsrc, cr_fd = -1\<rparr>"

definition refused :: middfs_packet where
  "refused = response_pkt (error_response (- 13))"

text \<open>The owner refuses access, and the connection ends after 8 bytes of the response.\<close>

theorem truncated_response_accepted_witness:
  "\<exists>s'. client_rsrc_access (peer_ctx (slow_peer (take 8 (enc_pkt refused)))) bob_file 4 new_proc = Some (0, s')"
proof -
  let ?C = "peer_ctx (slow_peer (take 8 (enc_pkt refused)))"
  let ?req = "zero_request\<lparr>mreq_type := MREQ_ACCESS, mreq_requester := Some ''amy'', mreq_rsrc := sample_rsrc, mreq_mode := 4\<rparr>"
  have req: "(init_request ?C MREQ_ACCESS sample_rsrc)\<lparr>mreq_mode := 4\<rparr> = ?req"
    by (simp add: init_request_def request_init_def peer_conf)
  have "length (enc_pkt (request_pkt ?req)) = 27" by code_simp
  then have out: "pkt_ok (request_pkt ?req)" by (simp add: sample_request_simps)
  have e: "enc_pkt refused = [0, 0, 7, 8, 0, 0, 0, 4, 0, 0, 0, 4, 0, 0, 0, 13]" by code_simp
  have p: "pkt_ok refused" "mpkt_type refused = MPKT_RESPONSE" "mpkt_magic refused = MPKT_MAGIC"
    "mrsp_type (old_response (mpkt_un refused)) \<noteq> MRSP_DIR"
    using error_response_ok [of "- 13"]
    by (simp_all add: refused_def) (simp_all add: response_pkt_def error_response_def old_response_def get_response_def)
  have cut: "length (take 8 (enc_pkt refused)) = 8" "take 8 (enc_pkt refused) \<noteq> enc_pkt refused"
    by (simp_all add: e)
  from truncated_response_accepted [OF out _ p(1,2) _ p(4) peer_reaches take_is_prefix cut(2)] p(3) cut(1)
  show ?thesis
    by (auto simp: client_rsrc_access_def bob_file_def xchg_ok_def req)
qed

section \<open>Where calls go\<close>

text \<open>C15: An operation stays where its path says. Whatever the system answers, an operation of
  the table \<open>middfs_oper\<close> (other than \<open>statfs\<close>) on a path of the user's own directory only
  makes calls on paths that start with the home path and the user's name, or on descriptors; on
  any other path, it only talks to the configured server.\<close>

theorem ops_confined:
  assumes "middfs_oper C filler buf oper path s = Some (r, s')" "oper \<noteq> F_statfs"
  shows "\<exists>cs. pr_calls s' = pr_calls s @ cs \<and>
    (\<forall>c \<in> set cs. if own_path C path then own_call C c else to_server C c)"
  using oper_calls [OF assms] by (auto simp: calls_by_def path_call_def list_all_iff)

theorem ops_confined_witness:
  "\<exists>s' cs. middfs_oper (peer_ctx (slow_peer [])) (\<lambda>_ _ b. (False, b)) () F_unlink ''/amy/f'' new_proc
      = Some (0, s') \<and> pr_calls s' = cs \<and> cs = [Sys_unlink ''/home/amy/f''] \<and>
    (\<forall>c \<in> set cs. own_call (peer_ctx (slow_peer [])) c)"
proof -
  let ?C = "peer_ctx (slow_peer [])"
  let ?s' = "\<lparr>pr_calls = [Sys_unlink ''/home/amy/f''], pr_errno = 0\<rparr>"
  have run: "middfs_oper ?C (\<lambda>_ _ b. (False, b)) () F_unlink ''/amy/f'' new_proc = Some (0, ?s')"
    by code_simp
  have "own_path ?C ''/amy/f''" by (simp add: own_path_def first_name_def peer_conf)
  with ops_confined [OF run] show ?thesis by (intro exI [of _ ?s'] exI [of _ "pr_calls ?s'"]) (simp add: run)
qed

section \<open>The responder\<close>

text \<open>C20: The invariant of a client's responder. One round of its loop, with whatever
  connections and bytes the network brings, keeps the socket table well-formed, and all the
  calls that requests make it do are on paths that start with the home path and the user's
  name, or on descriptors. (The rest of the path is the requester's, with any \<open>..\<close> in it.)\<close>

theorem responder_loop_invariant:
  assumes "socks_ok socks" "poll_ok pol" "\<forall>i. read_ok (io_read (ios i))"
    "server_loop (cx_mem C) (client_hi C) pol cl ios (socks, p) = Some (r, socks', p')"
  shows "socks_ok socks' \<and> (\<exists>cs. pr_calls p' = pr_calls p @ cs \<and> (\<forall>c \<in> set cs. own_call C c))"
proof -
  have "calls_by (own_call C) p p" by (intro calls_intros) simp
  from responder.server_loop_keeps [OF assms(1) this assms(2) _ assms(4)] assms(3)
  show ?thesis by (auto simp: calls_by_def list_all_iff)
qed

text \<open>A connection that has brought a write request but for its last byte.\<close>

definition almost_info :: middfs_sockinfo where
  "almost_info =
     set_in_buf \<lparr>buf_begin = Live (take 40 (enc_pkt sample_pkt) @ replicate 24 0), buf_ptr = 40, buf_end = 64\<rparr>
       (fresh_info 4)"

lemma almost_info_live: "sockinfo_live almost_info"
proof -
  have "buffer_ok \<lparr>buf_begin = Live (take 40 (enc_pkt sample_pkt) @ replicate 24 0), buf_ptr = 40, buf_end = 64\<rparr>"
    by (simp add: buffer_ok_def PTRDIFF_MAX_def)
  with fresh_info_facts(1) [of 4] set_buf_ok [of "fresh_info 4"] show ?thesis
    by (simp add: almost_info_def sockinfo_live_def)
qed

theorem responder_loop_invariant_witness:
  "\<exists>r socks' p'. server_loop good_env (client_hi (peer_ctx (slow_peer [])))
      (\<lambda>pfds. Some (replicate (length pfds) 1)) (\<lambda>_. True) (\<lambda>_. quiet_io) (table [almost_info], new_proc)
      = Some (r, socks', p') \<and> socks_ok socks' \<and>
    pr_calls p' = [Sys_open ''/home/amy/f'' 2 0, Sys_pwrite 0 (Some [7, 1]) 2 3, Sys_close 0] \<and>
    (\<forall>c \<in> set (pr_calls p'). own_call (peer_ctx (slow_peer [])) c)"
proof -
  let ?C = "peer_ctx (slow_peer [])"
  let ?run = "server_loop (cx_mem ?C) (client_hi ?C) (\<lambda>pfds. Some (replicate (length pfds) 1))
      (\<lambda>_. True) (\<lambda>_. quiet_io) (table [almost_info], new_proc)"
  have calls: "map_option (\<lambda>(r, socks', p'). pr_calls p') ?run
      = Some [Sys_open ''/home/amy/f'' 2 0, Sys_pwrite 0 (Some [7, 1]) 2 3, Sys_close 0]"
    by code_simp
  then obtain r socks' p' where run: "?run = Some (r, socks', p')" by auto
  have "socks_ok socks' \<and> (\<exists>cs. pr_calls p' = pr_calls new_proc @ cs \<and> (\<forall>c \<in> set cs. own_call ?C c))"
    by (rule responder_loop_invariant [OF _ _ _ run])
      (simp_all add: socks_ok_def sockinfo_ok_def poll_ok_def almost_info_live)
  with run calls show ?thesis by auto
qed

section \<open>Operations on another user's files\<close>

text \<open>The owner bob, with a file of three bytes.\<close>

definition file_os :: "byte list \<Rightarrow> os" where
  "file_os file tr c =
     (case c of
        Sys_open p flags mode \<Rightarrow> if p = ''/home/bob/f'' then gives 5 [] else fails ENOENT
      | Sys_pread fd n off \<Rightarrow>
          (let bs = take (unat n) (drop (unat off) file) in gives (int (length bs)) bs)
      | Sys_pwrite fd m n off \<Rightarrow> fails EIO
      | _ \<Rightarrow> gives 0 [])"

lemma file_os_ok: "os_ok (file_os file)"
  by (auto simp: os_ok_def file_os_def Let_def ENOENT_def EIO_def split: syscall.splits if_splits)

definition bob_ctx :: ctx where
  "bob_ctx = (peer_ctx (file_os [120, 104, 105]))\<lparr>cx_env := peer_env(''MIDDFS_username'' \<mapsto> ''bob'')\<rparr>"

lemma bob_facts [simp]:
  "cx_mem bob_ctx = good_env" "os_ok (cx_os bob_ctx)" "cr_type bob_file = MR_NETWORK"
  "cr_rsrc bob_file = sample_rsrc" "middfs_localpath_tmp bob_ctx (mr_path sample_rsrc) = Some ''/home/bob/f''"
  "0 \<le> fd \<Longrightarrow> idle_connection (fresh_info fd)"
proof -
  show "middfs_localpath_tmp bob_ctx (mr_path sample_rsrc) = Some ''/home/bob/f''" by code_simp
  show "0 \<le> fd \<Longrightarrow> idle_connection (fresh_info fd)"
    using fresh_info_facts(1) [of fd] by (simp add: idle_connection_def sockinfo_live_def bufs_ok_def)
qed (simp_all add: bob_ctx_def peer_ctx_def bob_file_def file_os_ok)

text \<open>Reading another user's file gives what the owner's own \<open>pread\<close> gives. The responder of
  the owner answers the request; and whenever the requester then gets that response from the
  server, however it is cut, \<open>client_rsrc_read\<close> returns the bytes and the count, or the negated
  error number, of opening and reading the file at the owner, having sent exactly the request.\<close>

theorem remote_read_is_owner_read:
  assumes "\<forall>k. can_alloc (cx_mem B) k" "\<forall>k. can_alloc (cx_mem C) k" "os_ok (cx_os B)"
    "cr_type cr = MR_NETWORK" "read_request C cr sz off = Some req" "pkt_ok (request_pkt req)"
    "idle_connection info" "middfs_localpath_tmp B (mr_path (cr_rsrc cr)) = Some path"
    "pread_file B path sz off t = (n, bs, t')"
  shows "\<exists>info'. client_pkt_rd_fin B (canon_pkt (request_pkt req)) (info, t) = Some (HS_SUC, info', t') \<and>
    (\<forall>s P. reaches C s P (contents (se_buf (si_out info'))) \<longrightarrow>
       (\<exists>s'. client_rsrc_read C cr sz off s = Some (n, bs, s') \<and> sent_request C P (request_pkt req) s s'))"
  by (rule remote_read_result [OF assms]) blast

theorem remote_read_is_owner_read_witness:
  "\<exists>s'. client_rsrc_read (peer_ctx (slow_peer (enc_pkt sample_rsp))) bob_file 2 1 new_proc
      = Some (2, [104, 105], s')"
proof -
  let ?C = "peer_ctx (slow_peer (enc_pkt sample_rsp))"
  let ?req = "zero_request\<lparr>mreq_type := MREQ_READ, mreq_requester := Some ''amy'',
    mreq_rsrc := sample_rsrc, mreq_size := 2, mreq_off := 1\<rparr>"
  let ?t' = "\<lparr>pr_calls = [Sys_open ''/home/bob/f'' 2 0, Sys_pread 5 2 1, Sys_close 5], pr_errno = 0\<rparr>"
  let ?run = "client_pkt_rd_fin bob_ctx (canon_pkt (request_pkt ?req)) (fresh_info 4, new_proc)"
  have req: "read_request ?C bob_file 2 1 = Some ?req"
    by (simp add: read_request_def peer_conf strdup_def)
  have "length (enc_pkt (request_pkt ?req)) = 39" by code_simp
  then have ok: "pkt_ok (request_pkt ?req)"
    by (simp add: sample_request_simps)
  have spec: "pread_file bob_ctx ''/home/bob/f'' 2 1 new_proc = (2, [104, 105], ?t')" by code_simp
  have out: "map_option (\<lambda>(h, info, p). contents (se_buf (si_out info))) ?run = Some (enc_pkt sample_rsp)"
    by code_simp
  have "\<exists>info'. ?run = Some (HS_SUC, info', ?t') \<and>
    (\<forall>s P. reaches ?C s P (contents (se_buf (si_out info'))) \<longrightarrow>
       (\<exists>s'. client_rsrc_read ?C bob_file 2 1 s = Some (2, [104, 105], s') \<and> sent_request ?C P (request_pkt ?req) s s'))"
    by (rule remote_read_is_owner_read [OF _ _ _ _ req ok _ _ spec]) simp_all
  with out peer_reaches [of "enc_pkt sample_rsp"] show ?thesis by fastforce
qed

text \<open>Writing another user's file reports the whole count, or stops the requester's program.
  When the owner can open the file and its \<open>pwrite\<close> does not fail, \<open>client_rsrc_write\<close> returns
  the size it was given, even when fewer bytes were written at the owner; when the owner cannot
  open or write the file, its error response makes an assertion of the requester fail.\<close>

theorem remote_write_outcome:
  assumes "\<forall>k. can_alloc (cx_mem B) k" "\<forall>k. can_alloc (cx_mem C) k" "os_ok (cx_os B)"
    "cr_type cr = MR_NETWORK"
    "conf_get (cx_mem C) (cx_env C) MIDDFS_CONF_USERNAME = Some user" "user \<noteq> []"
    "unat sz \<le> length buf" "req = write_req user cr buf sz off" "pkt_ok (request_pkt req)"
    "idle_connection info" "middfs_localpath_tmp B (mr_path (cr_rsrc cr)) = Some path"
    "pwrite_file B path (Some (take (unat sz) buf)) sz off t = (n, t')"
  shows "\<exists>info'. client_pkt_rd_fin B (canon_pkt (request_pkt req)) (info, t) = Some (HS_SUC, info', t') \<and>
    (\<forall>s P. reaches C s P (contents (se_buf (si_out info'))) \<longrightarrow>
       (if n < 0 then client_rsrc_write C cr buf sz off s = None
        else \<exists>s'. client_rsrc_write C cr buf sz off s = Some (int (unat sz), s') \<and>
               sent_request C P (request_pkt req) s s'))"
  by (rule remote_write_result [OF assms]) blast

definition io_error_rsp :: middfs_packet where
  "io_error_rsp = response_pkt (error_response (-5))"

theorem remote_write_outcome_witness:
  "client_rsrc_write (peer_ctx (slow_peer (enc_pkt io_error_rsp))) bob_file [1, 2] 2 1 new_proc = None"
proof -
  let ?C = "peer_ctx (slow_peer (enc_pkt io_error_rsp))"
  let ?req = "write_req ''amy'' bob_file [1, 2] 2 1"
  let ?t' = "\<lparr>pr_calls = [Sys_open ''/home/bob/f'' 2 0, Sys_pwrite 5 (Some [1, 2]) 2 1, Sys_close 5], pr_errno = 5\<rparr>"
  let ?run = "client_pkt_rd_fin bob_ctx (canon_pkt (request_pkt ?req)) (fresh_info 4, new_proc)"
  have "length (enc_pkt (request_pkt ?req)) = 41" by code_simp
  then have ok: "pkt_ok (request_pkt ?req)"
    by (simp add: sample_request_simps)
  have spec: "pwrite_file bob_ctx ''/home/bob/f'' (Some (take (unat (2 :: u64)) [1, 2])) 2 1 new_proc = (-5, ?t')"
    by code_simp
  have out: "map_option (\<lambda>(h, info, p). contents (se_buf (si_out info))) ?run = Some (enc_pkt io_error_rsp)"
    by code_simp
  have "\<exists>info'. ?run = Some (HS_SUC, info', ?t') \<and>
    (\<forall>s P. reaches ?C s P (contents (se_buf (si_out info'))) \<longrightarrow>
       (if (-5 :: int) < 0 then client_rsrc_write ?C bob_file [1, 2] 2 1 s = None
        else \<exists>s'. client_rsrc_write ?C bob_file [1, 2] 2 1 s = Some (int (unat (2 :: u64)), s') \<and>
               sent_request ?C P (request_pkt ?req) s s'))"
    by (rule remote_write_outcome [OF _ _ _ _ _ _ _ refl ok _ _ spec])
      (simp_all add: peer_conf zero_packet_def)
  with out peer_reaches [of "enc_pkt io_error_rsp"] show ?thesis by fastforce
qed

end
