(* ===== verification/Remote_Ops.thy ===== *)
theory Remote_Ops
  imports Client_Remote
begin

text \<open>
  The other operations on another user's files: access, truncate, rename and open, whose
  response is a status, the attributes of a file, and the listing of a directory. For each, what
  the owner's responder answers to the request as it comes out of the network, and what the
  requester makes of the answer. Where the owner's own client has the operation, the
  specification is that operation on the local resource.
\<close>

section \<open>The owner's side\<close>

definition as_owner :: "client_rsrc \<Rightarrow> client_rsrc" where
  "as_owner cr = cr\<lparr>cr_type := MR_LOCAL, cr_fd := -1\<rparr>"

lemma as_owner_simps [simp]:
  "cr_type (as_owner cr) = MR_LOCAL" "cr_rsrc (as_owner cr) = cr_rsrc cr" "cr_fd (as_owner cr) = -1"
  by (simp_all add: as_owner_def)

abbreviation ok_response :: middfs_response where
  "ok_response \<equiv> \<lparr>mrsp_type = MRSP_OK, mrsp_un = Rsp_zero\<rparr>"

lemma owner_path_request:
  assumes req: "on_path (mreq_type req)"
    and path: "middfs_localpath_tmp B (mr_path (mreq_rsrc req)) = Some path"
    and run: "path_request B path (canon_request req) ok_response t = Some (n, rsp, t')"
  shows "handle_request B (canon_pkt (request_pkt req)) zero_packet t
    = Some (HS_SUC, response_pkt (if n < 0 then error_response n else rsp), t')"
proof -
  have "mreq_rsrc (canon_request req) = mreq_rsrc req" by (simp add: canon_request_def Let_def)
  with assms show ?thesis
    by (auto simp: handle_request_def canon_request_pkt get_request_def response_pkt_def error_response_def
        zero_packet_def)
qed

lemma errno_range:
  assumes "os_ok (cx_os B)" "sys_status B c t = (n, t')"
  shows "- (2 ^ 31) < n \<and> n \<le> 0"
proof -
  obtain r t1 where r: "sys B c t = (r, t1)" by fastforce
  with assms os_ok_sys [OF assms(1) r] show ?thesis by (auto simp: sys_status_def split: if_splits)
qed

section \<open>Operations that return a status\<close>

datatype status_op = St_access int | St_truncate u64 | St_rename client_rsrc

text \<open>The operation by a client, the request it sends, and the operation of the owner.\<close>

definition run_status :: "ctx \<Rightarrow> status_op \<Rightarrow> client_rsrc \<Rightarrow> proc \<Rightarrow> (int \<times> proc) option" where
  "run_status C oper cr s =
     (case oper of
        St_access mode \<Rightarrow> client_rsrc_access C cr mode s
      | St_truncate sz \<Rightarrow> client_rsrc_truncate C cr sz s
      | St_rename to \<Rightarrow> client_rsrc_rename C cr to s)"

definition status_request :: "ctx \<Rightarrow> status_op \<Rightarrow> client_rsrc \<Rightarrow> middfs_request" where
  "status_request C oper cr =
     (case oper of
        St_access mode \<Rightarrow> (init_request C MREQ_ACCESS (cr_rsrc cr))\<lparr>mreq_mode := word_of_int mode\<rparr>
      | St_truncate sz \<Rightarrow> (init_request C MREQ_TRUNCATE (cr_rsrc cr))\<lparr>mreq_size := sz\<rparr>
      | St_rename to \<Rightarrow> (init_request C MREQ_RENAME (cr_rsrc cr))\<lparr>mreq_to := cr_rsrc to\<rparr>)"

definition owner_op :: "status_op \<Rightarrow> status_op" where
  "owner_op oper = (case oper of St_rename to \<Rightarrow> St_rename (as_owner to) | _ \<Rightarrow> oper)"

definition is_int :: "int \<Rightarrow> bool" where
  "is_int n \<longleftrightarrow> - (2 ^ 31) \<le> n \<and> n < 2 ^ 31"

lemma sint_is_int: "is_int n \<Longrightarrow> sint (word_of_int n :: u32) = n"
  by (simp add: is_int_def signed_of_int signed_take_bit_int_eq_self)

text \<open>Both resources of a rename are other users'; an access mode is an \<open>int\<close>.\<close>

definition remote_op :: "status_op \<Rightarrow> bool" where
  "remote_op oper \<longleftrightarrow>
     (case oper of
        St_access mode \<Rightarrow> is_int mode
      | St_truncate sz \<Rightarrow> True
      | St_rename to \<Rightarrow> cr_type to = MR_NETWORK)"

lemma run_status_network:
  "cr_type cr = MR_NETWORK \<Longrightarrow> remote_op oper \<Longrightarrow>
   run_status C oper cr s = xchg_ok C (status_request C oper cr) s"
  by (cases oper)
    (simp_all add: run_status_def status_request_def remote_op_def client_rsrc_access_def
      client_rsrc_truncate_def client_rsrc_rename_def)

lemma owner_status:
  assumes w: "os_ok (cx_os B)" and oper: "remote_op oper"
    and run: "run_status B (owner_op oper) (as_owner cr) t = Some (n, t')"
  shows "handle_request B (canon_pkt (request_pkt (status_request C oper cr))) zero_packet t
      = Some (HS_SUC, response_pkt (status_answer n), t') \<and> - (2 ^ 31) < n \<and> n \<le> 0"
proof -
  let ?req = "status_request C oper cr"
  obtain path call where path: "middfs_localpath_tmp B (mr_path (mreq_rsrc ?req)) = Some path"
    and call: "sys_status B call t = (n, t')"
    and req: "path_request B path (canon_request ?req) ok_response t
      = (let (r, s1) = sys B call t in Some (if r_ret r < 0 then (- pr_errno s1, ok_response, s1) else (0, ok_response, s1)))"
    and on: "on_path (mreq_type ?req)"
  proof (cases oper)
    case (St_access mode)
    with oper run sint_is_int [of mode] that show thesis
      by (auto simp: run_status_def owner_op_def client_rsrc_access_def local_call_def bind_Some_iff
          status_request_def init_request_def request_init_def path_request_def handle_request_access_def
          canon_request_def req_has_mode_def response_init_def remote_op_def on_path_def case_prod_beta Let_def)
  next
    case (St_truncate sz)
    with oper run that show thesis
      by (auto simp: run_status_def owner_op_def client_rsrc_truncate_def local_call_def bind_Some_iff
          status_request_def init_request_def request_init_def path_request_def handle_request_truncate_def
          canon_request_def req_has_size_def response_init_def on_path_def case_prod_beta Let_def)
  next
    case (St_rename to)
    with oper run that show thesis
      by (auto simp: run_status_def owner_op_def client_rsrc_rename_def bind_Some_iff
          status_request_def init_request_def request_init_def path_request_def handle_request_rename_def
          canon_request_def req_has_to_def response_init_def on_path_def case_prod_beta Let_def)
  qed
  obtain r t1 where r: "sys B call t = (r, t1)" by fastforce
  have "path_request B path (canon_request ?req) ok_response t = Some (n, ok_response, t')"
    using req call r by (auto simp: sys_status_def split: if_splits)
  from owner_path_request [OF on path this] errno_range [OF w call] show ?thesis by simp
qed

lemma status_response:
  assumes x: "packet_xchg C (request_pkt req) zero_packet s
      = Some (0, canon_pkt (response_pkt (status_answer n)), s')" and n: "- (2 ^ 31) < n" "n \<le> 0"
  shows "xchg_ok C req s = Some (n, s')"
  using x [unfolded canon_status_answer] n sint_error [OF n(1)]
  by (auto simp: xchg_ok_def response_validate_def response_pkt_def get_response_def error_response_def
      get_error_def)

section \<open>Opening\<close>

text \<open>The owner opens the file with the flags of the requester and closes it again.\<close>

definition tried_open :: "ctx \<Rightarrow> string \<Rightarrow> int \<Rightarrow> proc \<Rightarrow> int \<times> proc" where
  "tried_open B path flags t =
     (let (f, t1) = sys B (Sys_open path flags 438) t in
      if r_ret f < 0 then (- r_errno f, t1) else (0, snd (sys B (Sys_close (r_ret f)) t1)))"

definition open_request :: "ctx \<Rightarrow> int \<Rightarrow> client_rsrc \<Rightarrow> middfs_request" where
  "open_request C flags cr = (init_request C MREQ_OPEN (cr_rsrc cr))\<lparr>mreq_mode := word_of_int flags\<rparr>"

lemma owner_opens:
  assumes w: "os_ok (cx_os B)" and flags: "is_int flags"
    and path: "middfs_localpath_tmp B (mr_path (cr_rsrc cr)) = Some path"
    and spec: "tried_open B path flags t = (n, t')"
  shows "handle_request B (canon_pkt (request_pkt (open_request C flags cr))) zero_packet t
      = Some (HS_SUC, response_pkt (status_answer n), t') \<and> - (2 ^ 31) < n \<and> n \<le> 0"
proof -
  let ?req = "open_request C flags cr"
  obtain f t1 where f: "sys B (Sys_open path flags 438) t = (f, t1)" by fastforce
  have "path_request B path (canon_request ?req) ok_response t = Some (n, ok_response, t')"
    using spec f os_ok_sys [OF w f] sint_is_int [OF flags]
    by (auto simp: tried_open_def open_request_def init_request_def request_init_def path_request_def
        handle_request_open_def canon_request_def req_has_mode_def response_init_def split: if_splits)
  moreover have "on_path (mreq_type ?req)" "mreq_rsrc ?req = cr_rsrc cr"
    by (simp_all add: open_request_def init_request_def request_init_def on_path_def)
  moreover have "- (2 ^ 31) < n \<and> n \<le> 0"
    using spec f os_ok_sys [OF w f] by (auto simp: tried_open_def split: if_splits)
  ultimately show ?thesis using owner_path_request [of ?req B path t n ok_response t'] path by simp
qed

lemma open_response:
  assumes net: "cr_type cr = MR_NETWORK" and varg: "flags AND O_CREAT \<noteq> 0 \<Longrightarrow> varg \<noteq> None"
    and x: "packet_xchg C (request_pkt (open_request C flags cr)) zero_packet s
      = Some (0, canon_pkt (response_pkt (status_answer n)), s')" and n: "- (2 ^ 31) < n" "n \<le> 0"
  shows "client_rsrc_open C cr flags varg s = Some (n, cr, s')"
proof -
  have "xchg_ok C (open_request C flags cr) s = Some (n, s')" by (rule status_response [OF x n])
  with net varg show ?thesis by (auto simp: client_rsrc_open_def open_request_def)
qed

section \<open>Attributes\<close>

definition stat_file :: "ctx \<Rightarrow> string \<Rightarrow> proc \<Rightarrow> int \<times> file_stat \<times> proc" where
  "stat_file B path t =
     (let (r, t1) = sys B (Sys_stat path) t in
      if r_ret r < 0 then (- r_errno r, zero_stat_buf, t1) else (0, r_stat r, t1))"

definition getattr_request :: "ctx \<Rightarrow> client_rsrc \<Rightarrow> middfs_request" where
  "getattr_request C cr =
     zero_request\<lparr>mreq_type := MREQ_GETATTR,
       mreq_requester := conf_get (cx_mem C) (cx_env C) MIDDFS_CONF_USERNAME, mreq_rsrc := cr_rsrc cr\<rparr>"

text \<open>What of the attributes goes over the network.\<close>

definition sent_stat :: "file_stat \<Rightarrow> middfs_stat" where
  "sent_stat st =
     \<lparr>mstat_mode = st_mode st, mstat_size = st_size st, mstat_blocks = st_blocks st,
      mstat_blksize = st_blksize st\<rparr>"

definition stat_answer :: "int \<Rightarrow> file_stat \<Rightarrow> middfs_response" where
  "stat_answer n st =
     (if n < 0 then error_response n else \<lparr>mrsp_type = MRSP_STAT, mrsp_un = Rsp_stat (sent_stat st)\<rparr>)"

lemma stat_answer_ok: "pkt_ok (response_pkt (stat_answer n st))"
proof (cases "n < 0")
  case True
  then show ?thesis by (simp add: stat_answer_def error_response_ok)
next
  case False
  then show ?thesis
    by (intro response_pkt_ok)
      (simp_all add: stat_answer_def response_ok_def get_stat_def old_stat_def enc_response_def rsp_body_def enc_stat_def)
qed

lemma owner_stats:
  assumes w: "os_ok (cx_os B)" and path: "middfs_localpath_tmp B (mr_path (cr_rsrc cr)) = Some path"
    and spec: "stat_file B path t = (n, st, t')"
  shows "handle_request B (canon_pkt (request_pkt (getattr_request C cr))) zero_packet t
      = Some (HS_SUC, response_pkt (stat_answer n st), t') \<and> - (2 ^ 31) < n \<and> n \<le> 0 \<and>
    (n < 0 \<longrightarrow> st = zero_stat_buf)"
proof -
  let ?req = "getattr_request C cr"
  obtain r t1 where r: "sys B (Sys_stat path) t = (r, t1)" by fastforce
  have req: "on_path (mreq_type ?req)" "mreq_rsrc ?req = cr_rsrc cr" "mreq_type ?req = MREQ_GETATTR"
    by (simp_all add: getattr_request_def on_path_def)
  then have run: "path_request B path (canon_request ?req) ok_response t = Some (n,
      if n < 0 then ok_response else \<lparr>mrsp_type = MRSP_STAT, mrsp_un = Rsp_stat (sent_stat st)\<rparr>, t')"
    using spec r os_ok_sys [OF w r]
    by (auto simp: stat_file_def path_request_def handle_request_getattr_def sent_stat_def split: if_splits)
  have n: "- (2 ^ 31) < n \<and> n \<le> 0 \<and> (n < 0 \<longrightarrow> st = zero_stat_buf)"
    using spec r os_ok_sys [OF w r] by (auto simp: stat_file_def split: if_splits)
  from owner_path_request [OF req(1) _ run] req(2) path n show ?thesis by (simp add: stat_answer_def)
qed

lemma stat_answer_read: "pointer_free (response_pkt (stat_answer n st))"
  "read_pkt u (response_pkt (stat_answer n st)) = response_pkt (stat_answer n st)"
proof -
  have o: "old_response (mpkt_un (response_pkt rsp)) = rsp" for rsp
    by (simp add: response_pkt_def old_response_def get_response_def)
  show "pointer_free (response_pkt (stat_answer n st))"
    unfolding pointer_free_def o by (simp add: stat_answer_def error_response_def)
  show "read_pkt u (response_pkt (stat_answer n st)) = response_pkt (stat_answer n st)"
    unfolding read_pkt_def o
    by (simp add: read_response_def stat_answer_def error_response_def canon_response_def old_error_def
        get_error_def old_stat_def get_stat_def)
      (simp add: response_pkt_def)
qed

lemma stat_response:
  assumes net: "cr_type cr = MR_NETWORK"
    and x: "packet_xchg C (request_pkt (getattr_request C cr)) (cx_junk C) s
      = Some (0, read_pkt u (response_pkt (stat_answer n st)), s')"
    and n: "- (2 ^ 31) < n" "n \<le> 0"
  shows "client_rsrc_lstat C cr s
    = Some (n, if n < 0 then zero_stat_buf else stat_of_response C (sent_stat st), s')"
proof -
  note x = x [unfolded stat_answer_read(2), unfolded getattr_request_def]
  from net x n sint_error [OF n(1)] show ?thesis
    by (auto simp: client_rsrc_lstat_def response_validate_def response_pkt_def get_response_def
        stat_answer_def error_response_def get_error_def get_stat_def)
qed

section \<open>Directories\<close>

text \<open>
  The listing of the owner: the directory is opened and read twice, first to count. A system
  is steady when the second pass gives the entries of the first.
\<close>

definition list_dir :: "ctx \<Rightarrow> string \<Rightarrow> proc \<Rightarrow> int \<times> dir_ent list \<times> proc" where
  "list_dir B path t =
     (let (d, t1) = sys B (Sys_opendir path) t in
      if r_ret d < 0 then (- r_errno d, [], t1)
      else
        (let (es, t2) = sys B (Sys_readdir (r_ret d)) t1;
             t3 = snd (sys B (Sys_rewinddir (r_ret d)) t2);
             t4 = snd (sys B (Sys_readdir (r_ret d)) t3)
         in (0, r_ents es, t4)))"

definition steady :: "os \<Rightarrow> bool" where
  "steady w \<longleftrightarrow>
     (\<forall>tr d. r_ents (w (tr @ [Sys_readdir d, Sys_rewinddir d]) (Sys_readdir d)) = r_ents (w tr (Sys_readdir d)))"

definition sent_dirent :: "dir_ent \<Rightarrow> middfs_dirent" where
  "sent_dirent e = \<lparr>mde_name = Some (d_name e), mde_mode = dirent_mode (d_type e)\<rparr>"

definition dir_answer :: "int \<Rightarrow> dir_ent list \<Rightarrow> middfs_response" where
  "dir_answer n es =
     (if n < 0 then error_response n
      else \<lparr>mrsp_type = MRSP_DIR,
            mrsp_un = Rsp_dir \<lparr>mdir_count = word_of_nat (length es), mdir_ents = Some (map sent_dirent es)\<rparr>\<rparr>)"

lemma fill_dirents_all:
  assumes "\<forall>k. can_alloc E k" "length ents = length ready + length es" "take (length ready) ents = ready"
  shows "fill_dirents E (length ready) es ents = Some (True, ready @ map sent_dirent es)"
  using assms
proof (induction es arbitrary: ready ents)
  case (Cons e es)
  let ?new = "\<lparr>mde_name = Some (d_name e), mde_mode = dirent_mode (d_type e)\<rparr>"
  have i: "length ready < length ents" using Cons.prems(2) by simp
  have "take (length (ready @ [?new])) (ents[length ready := ?new]) = ready @ [?new]"
    using i Cons.prems(3) by (simp add: take_Suc_conv_app_nth)
  from Cons.IH [OF Cons.prems(1) _ this] i Cons.prems show ?case
    by (simp add: strdup_def sent_dirent_def)
qed simp

definition dir_request :: "ctx \<Rightarrow> client_rsrc \<Rightarrow> middfs_request" where
  "dir_request C cr = init_request C MREQ_READDIR (cr_rsrc cr)"

lemma owner_lists:
  assumes mem: "\<forall>k. can_alloc (cx_mem B) k" and w: "os_ok (cx_os B)" "steady (cx_os B)"
    and path: "middfs_localpath_tmp B (mr_path (cr_rsrc cr)) = Some path"
    and spec: "list_dir B path t = (n, es, t')"
    and small: "length es < 2 ^ 31"
  shows "handle_request B (canon_pkt (request_pkt (dir_request C cr))) zero_packet t
      = Some (HS_SUC, response_pkt (dir_answer n es), t') \<and> - (2 ^ 31) < n \<and> n \<le> 0"
proof -
  let ?req = "dir_request C cr"
  have len: "unat (word_of_nat (length es) :: u64) = length es"
    using small by (intro unat_of_nat_u64) simp
  have req: "on_path (mreq_type ?req)" "mreq_rsrc ?req = cr_rsrc cr" "mreq_type ?req = MREQ_READDIR"
    by (simp_all add: dir_request_def init_request_def request_init_def on_path_def)
  obtain d t1 where d: "sys B (Sys_opendir path) t = (d, t1)" by fastforce
  show ?thesis
  proof (cases "r_ret d < 0")
    case True
    have "path_request B path (canon_request ?req) ok_response t = Some (n, \<lparr>mrsp_type = MRSP_DIR, mrsp_un = Rsp_zero\<rparr>, t')"
      using spec d True os_ok_sys [OF w(1) d] req(3)
      by (auto simp: list_dir_def path_request_def handle_request_readdir_def)
    moreover have "- (2 ^ 31) < n \<and> n < 0"
      using spec d True os_ok_sys [OF w(1) d] by (auto simp: list_dir_def)
    ultimately show ?thesis
      using owner_path_request [OF req(1)] req(2) path by (auto simp: dir_answer_def)
  next
    case False
    obtain p1 t2 where p1: "sys B (Sys_readdir (r_ret d)) t1 = (p1, t2)" by fastforce
    obtain rw t3 where rw: "sys B (Sys_rewinddir (r_ret d)) t2 = (rw, t3)" by fastforce
    obtain p2 t4 where p2: "sys B (Sys_readdir (r_ret d)) t3 = (p2, t4)" by fastforce
    have res: "n = 0" "es = r_ents p1" "t' = t4"
      using spec d False p1 rw p2 by (auto simp: list_dir_def)
    have same: "r_ents p2 = es"
      using w(2) sys_step(1,2) [OF p1] sys_step(1) [OF rw] sys_step(2) [OF p2] res(2)
      by (simp add: steady_def)
    let ?count = "word_of_nat (length es) :: u64"
    have alloc: "calloc_ok (cx_mem B) ?count sizeof_dirent"
      using mem len small by (intro calloc_okI) (simp_all add: sizeof_dirent_def)
    have "fill_dirents (cx_mem B) 0 es (replicate (length es) zero_dirent) = Some (True, map sent_dirent es)"
      using fill_dirents_all [OF mem, of "replicate (length es) zero_dirent" "[]" es] by simp
    then have "path_request B path (canon_request ?req) ok_response t = Some (0, dir_answer 0 es, t4)"
      using d False p1 rw p2 res(2) same alloc len req(3)
      by (simp add: path_request_def handle_request_readdir_def dir_answer_def)
    from owner_path_request [OF req(1) _ this] req(2) path res show ?thesis by simp
  qed
qed

text \<open>The requester shows the entries in order, as a local listing does, with no inode numbers.\<close>

definition no_inode :: "dir_ent \<Rightarrow> dir_ent" where
  "no_inode e = e\<lparr>d_ino := 0\<rparr>"

lemma fill_response_entries:
  assumes "k \<le> length es"
  shows "fill_response filler (Some (map sent_dirent es)) [k..<length es] buf
    = Some (fill_entries filler (map no_inode (drop k es)) buf)"
  using assms
proof (induction "length es - k" arbitrary: k buf)
  case (Suc m)
  then have k: "k < length es" by simp
  have split: "[k..<length es] = k # [Suc k..<length es]" "drop k es = es ! k # drop (Suc k) es"
    using k by (simp_all add: upt_conv_Cons Cons_nth_drop_Suc)
  have st: "zero_stat_buf\<lparr>st_ino := 0, st_mode := m\<rparr> = zero_stat_buf\<lparr>st_mode := m\<rparr>" for m
    by (simp add: zero_stat_buf_def)
  have "m = length es - Suc k" using Suc.hyps(2) by simp
  from Suc.hyps(1) [OF this] k show ?case
    by (simp add: split dirent_at_def sent_dirent_def no_inode_def st split: prod.splits)
qed simp

lemma dir_response:
  assumes net: "cr_type cr = MR_NETWORK"
    and x: "packet_xchg C (request_pkt (dir_request C cr)) zero_packet s
      = Some (0, canon_pkt (response_pkt (dir_answer n es)), s')"
    and n: "- (2 ^ 31) < n" "n \<le> 0" and small: "length es < 2 ^ 31"
  shows "client_rsrc_readdir C cr filler buf s
    = Some (n, cr, if n < 0 then buf else fill_entries filler (map no_inode es) buf, s')"
proof (cases "n < 0")
  case True
  have "canon_pkt (response_pkt (dir_answer n es)) = response_pkt (error_response n)"
    using True by (simp add: canon_response_pkt dir_answer_def)
  note x = x [unfolded this, unfolded dir_request_def]
  from net x True sint_error [OF n(1)] show ?thesis
    by (auto simp: client_rsrc_readdir_def response_validate_def response_pkt_def get_response_def
        error_response_def get_error_def)
next
  case False
  have len: "unat (word_of_nat (length es) :: u64) = length es"
    using small by (intro unat_of_nat_u64) simp
  have "canon_pkt (response_pkt (dir_answer n es)) = response_pkt (dir_answer n es)"
    using False len
    by (simp add: canon_response_pkt dir_answer_def)
      (simp add: canon_response_def old_dir_def get_dir_def canon_dir_def dir_entries_def)
  note x = x [unfolded this, unfolded dir_request_def]
  from net x False n len fill_response_entries [of 0 es filler buf] show ?thesis
    by (auto simp: client_rsrc_readdir_def response_validate_def response_pkt_def get_response_def
        dir_answer_def get_dir_def)
qed

end
