(* ===== verification/System.thy ===== *)
theory System
  imports Remote_Ops Sessions
begin

text \<open>
  The three programs around one request: the requester's exchange, the server's loop with the
  session of the request in it, and the responder of the owner. The bytes on the two
  connections of the session are what ties them together.
\<close>

section \<open>The owner's connection\<close>

text \<open>
  The responder B handles an event of a connection on which it now has the bytes in: it had
  some of them in its buffer, and the rest come with this event. It answers with the bytes out
  and goes from the process state t to t'.
\<close>

definition owner_serves :: "ctx \<Rightarrow> byte list \<Rightarrow> proc \<Rightarrow> byte list \<Rightarrow> proc \<Rightarrow> bool" where
  "owner_serves B bs t out t' \<longleftrightarrow>
     (\<exists>info io info'. sockinfo_live info \<and> si_state info = MSS_REQRD \<and> contents (se_buf (si_out info)) = [] \<and>
        si_revents info AND POLLIN \<noteq> 0 \<and> read_ok (io_read io) \<and>
        (let got = read_result (cx_mem B) (io_read io) (se_buf (si_in info))
         in got \<noteq> [] \<and> contents (se_buf (si_in info)) @ got = bs) \<and>
        handle_pkt_event (cx_mem B) (client_hi B) io (info, t) = Some (HS_SUC, info', t') \<and>
        contents (se_buf (si_out info')) = out)"

lemma all_alloc: "\<forall>k. can_alloc E k \<Longrightarrow> alloc_for E p"
  by (simp add: alloc_for_def alloc_upto_def)

lemma owner_answers:
  assumes mem: "\<forall>k. can_alloc (cx_mem B) k" and p: "pkt_ok p" "mpkt_type p = MPKT_REQUEST"
    and serves: "owner_serves B (enc_pkt p) t out t1"
    and run: "handle_request B (canon_pkt p) zero_packet t = Some (HS_SUC, rsp, t')" and ok: "pkt_ok rsp"
  shows "t1 = t' \<and> out = enc_pkt rsp"
proof -
  let ?E = "cx_mem B" and ?hi = "client_hi B"
  obtain info io info' where info: "sockinfo_live info" "si_state info = MSS_REQRD"
    "contents (se_buf (si_out info)) = []" "si_revents info AND POLLIN \<noteq> 0"
    and rd: "read_ok (io_read io)"
    and got: "read_result ?E (io_read io) (se_buf (si_in info)) \<noteq> []"
      "contents (se_buf (si_in info)) @ read_result ?E (io_read io) (se_buf (si_in info)) = enc_pkt p"
    and ev: "handle_pkt_event ?E ?hi io (info, t) = Some (HS_SUC, info', t1)"
    and out: "contents (se_buf (si_out info')) = out"
    using serves by (auto simp: owner_serves_def Let_def)
  have b: "bufs_ok info" "buffer_ok (se_buf (si_in info))" "buffer_ok (se_buf (si_out info))"
    using info(1) by (simp_all add: sockinfo_live_def bufs_ok_def)
  have short: "length (contents (se_buf (si_in info))) < length (enc_pkt p)"
    using got by (metis length_append length_greater_0_conv less_add_same_cancel1)
  have pre: "prefix (contents (se_buf (si_in info)) @ read_result ?E (io_read io) (se_buf (si_in info))) (enc_pkt p)"
    using got(2) by simp
  have ev': "handle_pkt_rd ?E ?hi io (info, t) = Some (HS_SUC, info', t1)"
    using ev info(2,4) by (auto simp: handle_pkt_event_def split: if_splits)
  show ?thesis
  proof (rule read_packet [OF p(1) all_alloc [OF mem] b(2) rd info(4) short pre, of ?hi t])
    fix buf assume "handle_pkt_rd ?E ?hi io (info, t) = Some (HS_DEL, set_in_buf buf info, t)"
    with ev' show ?thesis by simp
  next
    fix buf assume "contents buf = contents (se_buf (si_in info)) @ read_result ?E (io_read io) (se_buf (si_in info))"
      "length (contents buf) < length (enc_pkt p)"
    with got(2) show ?thesis by simp
  next
    fix buf assume w: "handle_pkt_rd ?E ?hi io (info, t) = rd_fin ?hi io (canon_pkt p) (set_in_buf buf info, t)"
      "buffer_ok buf"
    have "si_state (set_in_buf buf info) = MSS_REQRD" "se_buf (si_out (set_in_buf buf info)) = se_buf (si_out info)"
      using info(2) by (simp_all add: set_in_buf_def)
    then have "\<exists>info'. client_pkt_rd_fin B (canon_pkt p) (set_in_buf buf info, t) = Some (HS_SUC, info', t') \<and>
        contents (se_buf (si_out info')) = enc_pkt rsp"
      using b(3) info(3) p(2) by (intro responder_answers [OF mem _ _ _ _ run ok]) simp_all
    with ev' w(1) out show ?thesis by (auto simp: client_hi_def)
  qed
qed

text \<open>The responder does serve a request it can handle, when memory does not run out.\<close>

lemma owner_can_serve:
  assumes mem: "\<forall>k. can_alloc (cx_mem B) k" and p: "pkt_ok p" "mpkt_type p = MPKT_REQUEST"
    and run: "handle_request B (canon_pkt p) zero_packet t = Some (HS_SUC, rsp, t')" and ok: "pkt_ok rsp"
  shows "owner_serves B (enc_pkt p) t (enc_pkt rsp) t'"
proof -
  let ?E = "cx_mem B" and ?hi = "client_hi B"
  let ?had = "butlast (enc_pkt p)"
  define buf where "buf = \<lparr>buf_begin = Live ?had, buf_ptr = word_of_nat (length ?had), buf_end = word_of_nat (length ?had)\<rparr>"
  have len: "length (enc_pkt p) < 2 ^ 59" "enc_pkt p \<noteq> []"
  proof -
    show "length (enc_pkt p) < 2 ^ 59" using p(1) by (simp add: pkt_ok_def)
    have "0 < length (enc_pkt p)" by (simp add: enc_pkt_def)
    then show "enc_pkt p \<noteq> []" by simp
  qed
  have u: "unat (word_of_nat (length ?had) :: u64) = length ?had"
    using len(1) by (intro unat_of_nat_u64) simp
  have buf: "buffer_ok buf" "contents buf = ?had"
    using len(1) u
    by (simp_all add: buf_def buffer_ok_def contents_def block_mem_def PTRDIFF_MAX_def word_le_nat_alt)
  obtain info0 where info0: "sockinfo_live info0" "si_state info0 = MSS_REQRD" "contents (se_buf (si_out info0)) = []"
  proof -
    fix junk
    show thesis using sockinfo_init_live [of 0 MFD_PKT_IN "-1" junk] that by auto
  qed
  define info where "info = set_in_buf buf (info0\<lparr>si_revents := POLLIN\<rparr>)"
  have info: "sockinfo_live info" "si_state info = MSS_REQRD" "contents (se_buf (si_out info)) = []"
    "si_revents info AND POLLIN \<noteq> 0" "se_buf (si_in info) = buf" "buffer_ok (se_buf (si_out info))"
    using info0 set_buf_ok [of "info0\<lparr>si_revents := POLLIN\<rparr>" buf] buf(1)
    by (auto simp: sockinfo_live_def info_def) (simp_all add: set_in_buf_def POLLIN_def bufs_ok_def)
  have al: "alloc_upto ?E k" for k using mem by (simp add: alloc_upto_def)
  fix S :: session and junk :: io
  let ?io = "byte_io S (last (enc_pkt p)) junk"
  have got: "read_result ?E (io_read ?io) (se_buf (si_in info)) = [last (enc_pkt p)]"
    unfolding info(5) using buf len(1) by (intro byte_read al) simp_all
  have whole: "contents (se_buf (si_in info)) @ [last (enc_pkt p)] = enc_pkt p"
    using len(2) by (simp add: info(5) buf(2))
  obtain info' where ev: "handle_pkt_event ?E ?hi ?io (info, t) = Some (HS_SUC, info', t')"
    "contents (se_buf (si_out info')) = enc_pkt rsp"
  proof (rule read_packet [OF p(1) all_alloc [OF mem] _ byte_io_ok(1) info(4), of S "last (enc_pkt p)" junk ?hi t])
    fix b assume w: "handle_pkt_rd ?E ?hi ?io (info, t) = rd_fin ?hi ?io (canon_pkt p) (set_in_buf b info, t)"
    have "si_state (set_in_buf b info) = MSS_REQRD" "se_buf (si_out (set_in_buf b info)) = se_buf (si_out info)"
      using info(2) by (simp_all add: set_in_buf_def)
    then obtain info' where "client_pkt_rd_fin B (canon_pkt p) (set_in_buf b info, t) = Some (HS_SUC, info', t')"
      "contents (se_buf (si_out info')) = enc_pkt rsp"
      using info(3,6) p(2) responder_answers [OF mem _ _ _ _ run ok, of "set_in_buf b info"] by auto
    moreover have "si_revents info \<noteq> 0" using info(4) by auto
    ultimately show thesis
      using w info(2) by (intro that [of info']) (simp_all add: handle_pkt_event_def client_hi_def)
  qed (use got whole info(5) buf len in simp_all)
  show ?thesis
    unfolding owner_serves_def Let_def
    using info(1-4) byte_io_ok(1) got whole ev
    by (intro exI [of _ info] exI [of _ ?io] exI [of _ info']) auto
qed

section \<open>The server in between\<close>

text \<open>
  The history h is that of a session of the running server that carries the request, and has
  given the client that asked a response of its full length.
\<close>

definition carried :: "session \<Rightarrow> middfs_request \<Rightarrow> net \<Rightarrow> bool" where
  "carried S req h \<longleftrightarrow>
     session_ok S \<and> forwarded S \<and> ss_req S = request_pkt req \<and>
     (\<exists>i cl socks cs. hosts S i cl socks cs h) \<and>
     length (sent h (ss_client S)) = length (enc_pkt (ss_rsp S))"

lemma carried_bytes:
  assumes "carried S req h"
  shows "sent h (ss_peer S) = enc_pkt (request_pkt req)" "sent h (ss_client S) = enc_pkt (ss_rsp S)"
    "pkt_ok (request_pkt req)"
  using assms hosted_complete [of S _ _ _ _ h] by (auto simp: carried_def session_ok_def)

text \<open>The exchange of the requester ends with the response of the owner.\<close>

lemma system_exchange:
  assumes mem: "\<forall>k. can_alloc (cx_mem B) k" "\<forall>k. can_alloc (cx_mem C) k"
    and S: "carried S req h" "owner_serves B (sent h (ss_peer S)) t (enc_pkt (ss_rsp S)) t1"
    and run: "handle_request B (canon_pkt (request_pkt req)) zero_packet t = Some (HS_SUC, response_pkt rsp, t')"
    and ok: "pkt_ok (response_pkt rsp)"
    and reach: "reaches C s P (sent h (ss_client S))"
    and v: "mpkt_un v = Pkt_zero \<or> pointer_free (response_pkt rsp)"
  obtains s' where "t1 = t'" "packet_xchg C (request_pkt req) v s = Some (0, read_into v (response_pkt rsp), s')"
    "sent_request C P (request_pkt req) s s'"
proof -
  note bytes = carried_bytes [OF S(1)]
  have own: "t1 = t'" "enc_pkt (ss_rsp S) = enc_pkt (response_pkt rsp)"
    using owner_answers [OF mem(1) bytes(3) canon_request_pkt(2) S(2) [unfolded bytes(1)] run ok] by simp_all
  have "\<exists>s'. packet_xchg C (request_pkt req) v s = Some (0, read_into v (response_pkt rsp), s') \<and>
      sent_request C P (request_pkt req) s s'"
    by (rule response.xchg_result [OF bytes(3) all_alloc [OF mem(2)] _
          reach [unfolded bytes(2) own(2)] prefix_order.refl pkt_target_into [OF v]])
      (use ok all_alloc [OF mem(2)] in \<open>auto simp: sent_request_def\<close>)
  with own(1) that show thesis by blast
qed

text \<open>Most operations clear the packet for the response first.\<close>

lemma system_exchange_zeroed:
  assumes "\<forall>k. can_alloc (cx_mem B) k" "\<forall>k. can_alloc (cx_mem C) k"
    "carried S req h" "owner_serves B (sent h (ss_peer S)) t (enc_pkt (ss_rsp S)) t1"
    "handle_request B (canon_pkt (request_pkt req)) zero_packet t = Some (HS_SUC, response_pkt rsp, t')"
    "pkt_ok (response_pkt rsp)" "reaches C s P (sent h (ss_client S))"
  obtains s' where "t1 = t'"
    "packet_xchg C (request_pkt req) zero_packet s = Some (0, canon_pkt (response_pkt rsp), s')"
    "sent_request C P (request_pkt req) s s'"
  by (rule system_exchange [OF assms disjI1 [OF zero_packet_fresh],
        unfolded read_into_zero [OF zero_packet_fresh response_pkt_type]]) (rule that)

end
