(* ===== verification/System_Sample.thy ===== *)
theory System_Sample
  imports System Session_Properties Client_Properties
begin

text \<open>
  A system to try the properties of \<open>Spec2Isabelle\<close> on: the requester amy, the owner bob, and a
  server in whose table their session stands between other sockets.
\<close>

section \<open>A session for any request\<close>

definition sample_carrier :: "middfs_request \<Rightarrow> middfs_response \<Rightarrow> session" where
  "sample_carrier req rsp = sample_session\<lparr>ss_req := request_pkt req, ss_rsp := response_pkt rsp\<rparr>"

lemma sample_carrier_simps [simp]:
  "ss_env (sample_carrier req rsp) = good_env" "ss_client (sample_carrier req rsp) = 4"
  "ss_peer (sample_carrier req rsp) = 5" "ss_req (sample_carrier req rsp) = request_pkt req"
  "ss_rsp (sample_carrier req rsp) = response_pkt rsp"
  by (simp_all add: sample_carrier_def sample_session_def)

lemma sample_carried:
  assumes "pkt_ok (request_pkt req)" "pkt_ok (response_pkt rsp)" "mreq_rsrc req = sample_rsrc"
  obtains h where "carried (sample_carrier req rsp) req h"
proof -
  let ?S = "sample_carrier req rsp"
  have of: "request_of ?S = req" by (simp add: request_of_def request_pkt_def old_request_def get_request_def)
  have S: "session_ok ?S" "forwarded ?S"
    using assms by (simp_all add: session_ok_def forwarded_def of canon_request_pkt(2) sample_rsrc_def)
  have "online ?S two_clients" by (simp add: online_def of assms(3) sample_rsrc_def)
  then have "hosts ?S 1 (\<lambda>_. True) busy_table two_clients no_bytes" by (intro busy_hosts) simp_all
  from hosted_finishes [OF S _ this busy_open] obtain socks cs h where
    "hosts ?S 1 (\<lambda>_. True) socks cs h" "sent h 4 = enc_pkt (response_pkt rsp)"
    by auto
  with S that [of h] show thesis by (auto simp: carried_def)
qed

text \<open>The requester, who gets the response in question. Its stack holds an old packet.\<close>

definition stale_packet :: middfs_packet where
  "stale_packet = \<lparr>mpkt_magic = 9, mpkt_type = MPKT_CONNECT,
     mpkt_un = Pkt_response \<lparr>mrsp_type = MRSP_OTHER 77, mrsp_un = Rsp_error 1234\<rparr>\<rparr>"

definition asking :: "middfs_response \<Rightarrow> ctx" where
  "asking rsp = (peer_ctx (slow_peer (enc_pkt (response_pkt rsp))))\<lparr>cx_junk := stale_packet\<rparr>"

lemma reaches_junk [simp]: "reaches (C\<lparr>cx_junk := v\<rparr>) s P bs = reaches C s P bs"
  by (simp add: reaches_def)

lemma asking_simps [simp]:
  "cx_mem (asking rsp) = good_env" "cx_env (asking rsp) = peer_env" "cx_junk (asking rsp) = stale_packet"
  by (simp_all add: asking_def)

text \<open>The three programs on the request, given what the responder of the owner B does with it.\<close>

lemma sample_system:
  assumes "pkt_ok (request_pkt req)" "pkt_ok (response_pkt rsp)" "mreq_rsrc req = sample_rsrc"
    "cx_mem B = good_env"
    "handle_request B (canon_pkt (request_pkt req)) zero_packet new_proc = Some (HS_SUC, response_pkt rsp, t')"
  obtains h where "carried (sample_carrier req rsp) req h"
    "owner_serves B (sent h (ss_peer (sample_carrier req rsp))) new_proc (enc_pkt (ss_rsp (sample_carrier req rsp))) t'"
    "reaches (asking rsp) new_proc the_peer (sent h (ss_client (sample_carrier req rsp)))"
proof -
  obtain h where h: "carried (sample_carrier req rsp) req h" by (rule sample_carried [OF assms(1-3)])
  note bytes = carried_bytes [OF h]
  have "owner_serves B (enc_pkt (request_pkt req)) new_proc (enc_pkt (response_pkt rsp)) t'"
    by (rule owner_can_serve [OF _ assms(1) canon_request_pkt(2) assms(5,2)]) (simp add: assms(4))
  with h bytes that [of h] peer_reaches show thesis by (simp add: asking_def)
qed

section \<open>The owner's files\<close>

text \<open>
  A file of three bytes that can be read and not written, in a directory with this one entry;
  \<open>access\<close> is denied.
\<close>

definition owner_os :: os where
  "owner_os tr c =
     (case c of
        Sys_open p flags mode \<Rightarrow> if p = ''/home/bob/f'' then gives 5 [] else fails ENOENT
      | Sys_pread fd n off \<Rightarrow>
          (let bs = take (unat n) (drop (unat off) [120, 104, 105]) in gives (int (length bs)) bs)
      | Sys_pwrite fd m n off \<Rightarrow> fails EIO
      | Sys_access p m \<Rightarrow> fails 13
      | Sys_stat p \<Rightarrow> (gives 0 [])\<lparr>r_stat := zero_stat_buf\<lparr>st_mode := 0x81A4, st_size := 3\<rparr>\<rparr>
      | Sys_opendir p \<Rightarrow> gives 6 []
      | Sys_readdir d \<Rightarrow> (gives 0 [])\<lparr>r_ents := [\<lparr>d_name = ''f'', d_type = 8, d_ino = 9\<rparr>]\<rparr>
      | _ \<Rightarrow> gives 0 [])"

lemma owner_os_ok: "os_ok owner_os" "steady owner_os"
  by (auto simp: os_ok_def steady_def owner_os_def Let_def ENOENT_def EIO_def split: syscall.splits if_splits)

definition owner_ctx :: ctx where
  "owner_ctx = bob_ctx\<lparr>cx_os := owner_os\<rparr>"

lemma owner_facts:
  "\<forall>k. can_alloc (cx_mem owner_ctx) k" "os_ok (cx_os owner_ctx)" "steady (cx_os owner_ctx)"
  "cx_mem owner_ctx = good_env"
  "middfs_localpath_tmp owner_ctx (mr_path sample_rsrc) = Some ''/home/bob/f''"
proof -
  show "middfs_localpath_tmp owner_ctx (mr_path sample_rsrc) = Some ''/home/bob/f''" by code_simp
qed (simp_all add: owner_ctx_def owner_os_ok)

declare owner_facts(4,5) [simp]

section \<open>The requests\<close>

definition sample_read :: middfs_request where
  "sample_read = zero_request\<lparr>mreq_type := MREQ_READ, mreq_requester := Some ''amy'',
    mreq_rsrc := sample_rsrc, mreq_size := 2, mreq_off := 1\<rparr>"

definition plain_request :: "middfs_request_type \<Rightarrow> middfs_request" where
  "plain_request t = zero_request\<lparr>mreq_type := t, mreq_requester := Some ''amy'', mreq_rsrc := sample_rsrc\<rparr>"

lemma sample_reqs_rsrc [simp]:
  "mreq_rsrc sample_read = sample_rsrc" "mreq_rsrc (plain_request t) = sample_rsrc"
  by (simp_all add: sample_read_def plain_request_def)

lemma sample_reqs_eq:
  "read_request (asking rsp) bob_file 2 1 = Some sample_read"
  "status_request (asking rsp) (St_access 4) bob_file = (plain_request MREQ_ACCESS)\<lparr>mreq_mode := 4\<rparr>"
  "open_request (asking rsp) 2 bob_file = (plain_request MREQ_OPEN)\<lparr>mreq_mode := 2\<rparr>"
  "getattr_request (asking rsp) bob_file = plain_request MREQ_GETATTR"
  "dir_request (asking rsp) bob_file = plain_request MREQ_READDIR"
  by (simp_all add: read_request_def strdup_def sample_read_def status_request_def open_request_def
      getattr_request_def dir_request_def init_request_def request_init_def plain_request_def peer_conf)

lemma sample_reqs_ok:
  "pkt_ok (request_pkt sample_read)"
  "pkt_ok (request_pkt (write_req ''amy'' bob_file [1, 2] 2 1))"
  "pkt_ok (request_pkt ((plain_request MREQ_ACCESS)\<lparr>mreq_mode := 4\<rparr>))"
  "pkt_ok (request_pkt ((plain_request MREQ_OPEN)\<lparr>mreq_mode := 2\<rparr>))"
  "pkt_ok (request_pkt (plain_request MREQ_GETATTR))"
  "pkt_ok (request_pkt (plain_request MREQ_READDIR))"
proof -
  have "length (enc_pkt (request_pkt sample_read)) = 39"
    "length (enc_pkt (request_pkt (write_req ''amy'' bob_file [1, 2] 2 1))) = 41"
    "length (enc_pkt (request_pkt ((plain_request MREQ_ACCESS)\<lparr>mreq_mode := 4\<rparr>))) = 27"
    "length (enc_pkt (request_pkt ((plain_request MREQ_OPEN)\<lparr>mreq_mode := 2\<rparr>))) = 27"
    "length (enc_pkt (request_pkt (plain_request MREQ_GETATTR))) = 23"
    "length (enc_pkt (request_pkt (plain_request MREQ_READDIR))) = 23"
    by code_simp+
  then show "pkt_ok (request_pkt sample_read)"
    "pkt_ok (request_pkt (write_req ''amy'' bob_file [1, 2] 2 1))"
    "pkt_ok (request_pkt ((plain_request MREQ_ACCESS)\<lparr>mreq_mode := 4\<rparr>))"
    "pkt_ok (request_pkt ((plain_request MREQ_OPEN)\<lparr>mreq_mode := 2\<rparr>))"
    "pkt_ok (request_pkt (plain_request MREQ_GETATTR))"
    "pkt_ok (request_pkt (plain_request MREQ_READDIR))"
    by (simp_all add: sample_request_simps sample_read_def plain_request_def)
qed

text \<open>What the owner's calls give for them.\<close>

definition f_entry :: dir_ent where
  "f_entry = \<lparr>d_name = ''f'', d_type = 8, d_ino = 9\<rparr>"

definition f_stat :: file_stat where
  "f_stat = zero_stat_buf\<lparr>st_mode := 0x81A4, st_size := 3\<rparr>"

lemma owner_calls:
  "\<exists>t'. pread_file owner_ctx ''/home/bob/f'' 2 1 new_proc = (2, [104, 105], t')"
  "\<exists>t'. pwrite_file owner_ctx ''/home/bob/f'' (Some (take (unat (2 :: u64)) [1, 2])) 2 1 new_proc = (- 5, t')"
  "\<exists>t'. run_status owner_ctx (owner_op (St_access 4)) (as_owner bob_file) new_proc = Some (- 13, t')"
  "\<exists>t'. tried_open owner_ctx ''/home/bob/f'' 2 new_proc = (0, t')"
  "\<exists>t'. stat_file owner_ctx ''/home/bob/f'' new_proc = (0, f_stat, t')"
  "\<exists>t'. list_dir owner_ctx ''/home/bob/f'' new_proc = (0, [f_entry], t')"
proof -
  have "(\<lambda>(n, bs, t). (n, bs)) (pread_file owner_ctx ''/home/bob/f'' 2 1 new_proc) = (2, [104, 105])"
    "fst (pwrite_file owner_ctx ''/home/bob/f'' (Some (take (unat (2 :: u64)) [1, 2])) 2 1 new_proc) = - 5"
    "map_option fst (run_status owner_ctx (owner_op (St_access 4)) (as_owner bob_file) new_proc) = Some (- 13)"
    "fst (tried_open owner_ctx ''/home/bob/f'' 2 new_proc) = 0"
    "(\<lambda>(n, st, t). (n, st)) (stat_file owner_ctx ''/home/bob/f'' new_proc) = (0, f_stat)"
    "(\<lambda>(n, es, t). (n, es)) (list_dir owner_ctx ''/home/bob/f'' new_proc) = (0, [f_entry])"
    by code_simp+
  then show "\<exists>t'. pread_file owner_ctx ''/home/bob/f'' 2 1 new_proc = (2, [104, 105], t')"
    "\<exists>t'. pwrite_file owner_ctx ''/home/bob/f'' (Some (take (unat (2 :: u64)) [1, 2])) 2 1 new_proc = (- 5, t')"
    "\<exists>t'. run_status owner_ctx (owner_op (St_access 4)) (as_owner bob_file) new_proc = Some (- 13, t')"
    "\<exists>t'. tried_open owner_ctx ''/home/bob/f'' 2 new_proc = (0, t')"
    "\<exists>t'. stat_file owner_ctx ''/home/bob/f'' new_proc = (0, f_stat, t')"
    "\<exists>t'. list_dir owner_ctx ''/home/bob/f'' new_proc = (0, [f_entry], t')"
    by (auto split: prod.splits simp: prod_eq_iff)
qed

lemma f_answer_ok: "pkt_ok (response_pkt (dir_answer 0 [f_entry]))"
proof -
  have "length (enc_response (dir_answer 0 [f_entry])) = 18" by code_simp
  then show ?thesis
    by (intro response_pkt_ok)
      (simp_all add: dir_answer_def response_ok_def get_dir_def old_dir_def dir_ok_def dir_entries_def
        sent_dirent_def f_entry_def dirent_ok_def cstr_ok_def str_ok_def)
qed

end
