(* ===== verification/Spec2Isabelle.thy ===== *)
theory Spec2Isabelle
  imports Serial_Properties Conf_Properties Server_Properties Run_Properties Session_Properties
    Client_Properties Client_Main System_Sample
begin

text \<open>
  Verification of middfs, a distributed file system on FUSE. Every user runs a client, and all
  clients know one server. The sources named below are those under \<open>src/src\<close>.

  \<^bold>\<open>The program.\<close> A client mounts a directory in which each connected user has a subdirectory.
  A file operation there reaches the client through FUSE (\<open>client/middfs-client-ops.c\<close>), becomes
  an operation on a resource, an owner and a path (\<open>client/middfs-client-rsrc.c\<close>), and is done
  on the local copy when the user is the owner. Otherwise it is sent as a request packet to the
  server over a connection of its own (\<open>client/middfs-client-pkt.c\<close>). The server
  (\<open>server/middfs-server.c\<close>, \<open>server/middfs-server-handler.c\<close>) answers requests for the root
  directory itself from its list of clients (\<open>server/middfs-client.c\<close>), and forwards any other
  to the owner's client. A thread of that client, its responder
  (\<open>client/middfs-client-handler.c\<close>), serves it from the owner's files, and the response goes
  back the same way. Server and responder are the same loop over \<open>poll\<close> with different packet
  handlers (\<open>lib/middfs-conn.c\<close>) on a table of sockets (\<open>lib/middfs-sock.c\<close>), each with
  buffers (\<open>lib/middfs-buf.c\<close>) that packets (\<open>lib/middfs-pkt.c\<close>) are serialised into and
  deserialised from (\<open>lib/middfs-serial.c\<close>).

  \<^bold>\<open>The model.\<close> One theory for each source file, with the operations in its order:

  \<^item> \<open>Middfs_Prelude\<close>: machine integers, C strings and blocks; a function that can stop the
    process returns an option, and None is that outcome (\<open>abort\<close>, a failed assertion, undefined
    behaviour). \<open>Middfs_Util\<close>: \<open>lib/middfs-util.c\<close> and the string functions of the C library.
  \<^item> \<open>Middfs_Conf\<close>: the configuration, a map for the environment.
  \<^item> \<open>Middfs_Packet\<close>: packets, requests, responses and resources as records and datatypes, a
    union as a datatype of its members. \<open>Middfs_Print\<close>: the text \<open>print_packet\<close> writes; it is
    part of the model since printing a half-received packet can follow a null pointer.
  \<^item> \<open>Middfs_Serial\<close>: every \<open>serialize_\<close> and \<open>deserialize_\<close> function on memory as a list of
    bytes, with 64-bit sizes that wrap, and the statement sequences of the code as lists of steps.
  \<^item> \<open>Middfs_Buf\<close>, \<open>Middfs_Sock\<close>, \<open>Middfs_Conn\<close>: the buffer as its block and offsets, the table
    of sockets as an array with freed and unwritten slots told apart, the states and transitions
    of a socket, and \<open>server_start\<close> and \<open>server_loop\<close>. \<open>Middfs_Serve\<close>: the endless loop over
    rounds.
  \<^item> \<open>Server_Clients\<close>, \<open>Server_Handler\<close>, \<open>Server_Main\<close>: the server.
  \<^item> \<open>Client_Sys\<close>: the system calls of a client as data; the state of the process is the list of
    the calls it has made and its \<open>errno\<close>, and what a call returns is an arbitrary function of
    all the calls so far. \<open>Client_Pkt\<close>, \<open>Client_Rsrc\<close>, \<open>Client_Ops\<close>, \<open>Client_Handler\<close>,
    \<open>Client_Main\<close>: the client.

  \<^bold>\<open>What stands for the world.\<close> \<open>cenv\<close> says which allocations and which changes of the environment
  succeed and what uninitialised memory holds; the uninitialised packets of the client's functions
  are arbitrary too. In the server, \<open>io\<close> and \<open>start_io\<close> give the results of the system calls of
  one event and of the start, and \<open>round\<close> those of one turn of the loop. The hypotheses on them
  are \<open>read_ok\<close> and \<open>poll_ok\<close> (a \<open>read\<close> returns no more than it was asked for, \<open>poll\<close> one
  result for each entry), \<open>os_ok\<close> (the same of the client's calls), \<open>reaches\<close> (the server
  can be connected to, takes bytes some at a time with interrupts in between, and gives the
  bytes stated some at a time), \<open>steady\<close> (a directory does not change between two passes over
  it), \<open>honest\<close> (a connection to an address that is registered for the owner of the resource, if
  it is made, gets the session's second descriptor, and any other connection whatever it may; over the
  two descriptors the request and the response come), and in a system \<open>carried\<close> (a session of the running server has carried the request, up to
  the last byte of the response) and \<open>owner_serves\<close> (the owner's responder has handled the event
  that completes the request, from the bytes sent to it, and sends what it then has). \<open>carried\<close> can
  be reached from every state of a server with the session in it (\<open>hosted_finishes\<close>), and
  \<open>owner_serves\<close> holds for some event with every request that \<open>handle_request\<close> answers
  (\<open>owner_can_serve\<close>). Each property that has such a hypothesis has a witness with a concrete
  network.

  \<^bold>\<open>What is shown.\<close>

  \<^item> Wire format. \<open>Serial_Laws\<close> has the contract that the comment of \<open>lib/middfs-serial.c\<close> states
    and the lemmas that carry it through statement sequences; \<open>Serial_Wire\<close>, \<open>Serial_Structs\<close>
    and \<open>Serial_Packets\<close> give the reference encoding of each type and show that the code
    implements it. \<open>Serial_Codec\<close> puts this into the locales \<open>serializes\<close> and \<open>codec\<close>,
    interpreted for packets. \<open>Serial_Canon\<close>: a received packet can be sent on unchanged.
    \<open>Serial_Resume\<close>: deserialising again and again as bytes arrive; \<open>Serial_Parts\<close>: what a part of
    a response leaves in the packet. \<open>Serial_Limits\<close>: requests whose numbers do not survive. \<open>Serial_Safety\<close>: on
    arbitrary bytes, no access outside the buffer, and exactly when the process stops.
    \<open>Serial_Accept\<close>: nothing but encodings is accepted.
    \<open>Print_Laws\<close>: printing a whole packet is always defined, and a part of one that is no directory.
  \<^item> Buffer. \<open>Buf_Laws\<close>: each operation on the contents, and the locale \<open>byte_queue\<close> with its
    two interpretations, for single bytes and for whole packets.
  \<^item> Sockets and loop. \<open>Sock_Laws\<close>: the invariant of the table and what \<open>poll\<close> delivers.
    \<open>Conn_Laws\<close>: the locale \<open>packet_handler\<close>, what the loop asks of the handlers of a program,
    and what it then keeps; \<open>Serve_Laws\<close> carries it over any number of rounds. It is
    interpreted for the server in \<open>Handler_Laws\<close> and for the responder in \<open>Client_Laws\<close>.
  \<^item> Client list. \<open>Clients_Laws\<close>: sorting and searching, and the locale \<open>user_directory\<close>, with
    when there is room for one more.
  \<^item> Relay. \<open>Relay\<close>: one session of the server as a step relation with the bytes on both
    connections as a ghost history: the owner, found at its registered address, is sent exactly the request and the client exactly
    the response, nothing gets stuck, and a session ends. The list of clients may change under it.
  \<^item> Sessions. \<open>Sessions\<close>: the session as an entry of the server's table, and the relation \<open>hosts\<close>
    between a table and the bytes a session in it has moved, over rounds of \<open>server_loop\<close> with
    anything at all on the other sockets; what a round does to the entry is a step of \<open>Relay\<close> or
    nothing. \<open>Session_Live\<close>: rounds that bring a session to its end. \<open>Session_Properties\<close> also
    has that the server keeps every client it ever registered.
  \<^item> Client. \<open>Client_Calls\<close>: which calls each operation makes. \<open>Client_Exchange\<close>: an exchange with
    a server that answers, or stops within the answer, in the locale \<open>receiver\<close>, which is
    interpreted for whole responses into any packet and for the parts of one. \<open>Client_Remote\<close>: reading and writing a file of another user, what the
    owner's responder answers and what the requester makes of it. \<open>Remote_Ops\<close>: the same for the
    other operations that the responder implements. \<open>Client_Peer\<close>: a network for the witnesses.
  \<^item> System. \<open>System\<close>: the requester's exchange, a session of the server and an event of the
    owner's responder, tied together by the bytes on the two connections; \<open>System_Sample\<close> has
    a system for the witnesses.

  The properties with their witnesses are in the theories \<open>Serial_Properties\<close>,
  \<open>Conf_Properties\<close>, \<open>Clients_Properties\<close>, \<open>Sock_Properties\<close>, \<open>Server_Properties\<close>,
  \<open>Run_Properties\<close>, \<open>Session_Properties\<close> and \<open>Client_Properties\<close>; those about all three programs
  together are below.

  \<^bold>\<open>Bounds.\<close> A packet that can be sent is shorter than 2 to the 59 bytes (\<open>wire_max\<close>), so that
  byte counts do not wrap, also where a deserialiser overshoots and where an array takes 16
  bytes for an entry; buffers hold fewer than 2 to the 63 bytes, the limit C sets to differences
  of pointers. Sizes and offsets in requests are below 2 to the 31, as the code sends them
  through an \<open>int32_t\<close>; what happens above is shown separately. There is no fuel: loops that
  end are total functions, and those that may not (sending and receiving, filling a buffer, the
  server loop) are partial functions whose ending is a theorem where it holds.

  \<^bold>\<open>Not modelled.\<close> \<open>show_help\<close>, which only prints, and messages to the error
  output other than packets; \<open>umask\<close>; the variants of the operations for FUSE 2. The FUSE library,
  which parses the client's options and calls its operations, is a parameter of
  \<open>client_main\<close>. The server's requests and the client's operations are each run to their
  end: the threads of a client are not interleaved, as they share no state but the
  configuration, which is not written after the start.
\<close>

section \<open>The three programs together\<close>

text \<open>
  In each of these, C is the requester and B the owner, t the state of the owner's process
  before the request and t1 after it; the session S of the running server carries the request,
  with the history h of the bytes on its two connections, and the requester gets the bytes that
  were sent to it.
\<close>

text \<open>C1: Reading another user's file. Through a server that runs any other sessions besides, with
  all connections cut into whatever pieces, the owner makes the calls of opening, reading and
  closing the file, and \<open>client_rsrc_read\<close> at the requester returns the count and the bytes, or
  the negated error number, that these calls gave.\<close>

theorem read_through_server:
  assumes "\<forall>k. can_alloc (cx_mem B) k" "\<forall>k. can_alloc (cx_mem C) k" "os_ok (cx_os B)"
    "cr_type cr = MR_NETWORK" "read_request C cr sz off = Some req"
    "middfs_localpath_tmp B (mr_path (cr_rsrc cr)) = Some path"
    "pread_file B path sz off t = (n, bs, t')"
    "carried S req h" "owner_serves B (sent h (ss_peer S)) t (enc_pkt (ss_rsp S)) t1"
    "reaches C s P (sent h (ss_client S))"
  shows "t1 = t' \<and>
    (\<exists>s'. client_rsrc_read C cr sz off s = Some (n, bs, s') \<and> sent_request C P (request_pkt req) s s')"
proof -
  note out = carried_bytes(3) [OF assms(8)]
  note own = owner_reads [OF assms(1,3,5) out assms(6,7)]
  obtain s' where x: "t1 = t'" "packet_xchg C (request_pkt req) zero_packet s
      = Some (0, canon_pkt (response_pkt (read_answer n bs)), s')" "sent_request C P (request_pkt req) s s'"
    by (rule system_exchange_zeroed [OF assms(1,2,8,9) own(1,2) assms(10)])
  from read_response [OF assms(4,5) x(2) own(4-6,3) read_request_facts(5) [OF assms(5) out]] x
  show ?thesis by blast
qed

theorem read_through_server_witness:
  "\<exists>h s'. carried (sample_carrier (sample_read) (read_answer 2 [104, 105])) (sample_read) h \<and>
     client_rsrc_read (asking (read_answer 2 [104, 105])) bob_file 2 1 new_proc = Some (2, [104, 105], s')"
proof -
  let ?rsp = "read_answer 2 [104, 105]"
  let ?C = "asking ?rsp" and ?S = "sample_carrier (sample_read) ?rsp"
  note req = sample_reqs_eq(1) [of ?rsp]
  obtain t' where spec: "pread_file owner_ctx ''/home/bob/f'' 2 1 new_proc = (2, [104, 105], t')"
    using owner_calls(1) by blast
  have path: "middfs_localpath_tmp owner_ctx (mr_path (cr_rsrc bob_file)) = Some ''/home/bob/f''" by simp
  note own = owner_reads [OF owner_facts(1,2) req sample_reqs_ok(1) path spec]
  obtain h where h: "carried ?S sample_read h"
    "owner_serves owner_ctx (sent h (ss_peer ?S)) new_proc (enc_pkt (ss_rsp ?S)) t'"
    "reaches ?C new_proc the_peer (sent h (ss_client ?S))"
    by (rule sample_system [OF sample_reqs_ok(1) own(2) sample_reqs_rsrc(1) owner_facts(4) own(1)])
  from read_through_server [OF owner_facts(1) _ owner_facts(2) _ req path spec h] h(1) show ?thesis by auto
qed

text \<open>C2: Writing another user's file. The owner opens, writes and closes the file; when this
  succeeds \<open>client_rsrc_write\<close> at the requester returns the size it was given, even if fewer
  bytes were written; when it fails, an assertion stops the requester's program. The packet for
  the response is not initialised by the code; what it held before makes no difference.\<close>

theorem write_through_server:
  assumes "\<forall>k. can_alloc (cx_mem B) k" "\<forall>k. can_alloc (cx_mem C) k" "os_ok (cx_os B)"
    "cr_type cr = MR_NETWORK"
    "conf_get (cx_mem C) (cx_env C) MIDDFS_CONF_USERNAME = Some user" "user \<noteq> []"
    "unat sz \<le> length buf" "req = write_req user cr buf sz off"
    "middfs_localpath_tmp B (mr_path (cr_rsrc cr)) = Some path"
    "pwrite_file B path (Some (take (unat sz) buf)) sz off t = (n, t')"
    "carried S req h" "owner_serves B (sent h (ss_peer S)) t (enc_pkt (ss_rsp S)) t1"
    "reaches C s P (sent h (ss_client S))"
  shows "t1 = t' \<and>
    (if n < 0 then client_rsrc_write C cr buf sz off s = None
     else \<exists>s'. client_rsrc_write C cr buf sz off s = Some (int (unat sz), s') \<and>
            sent_request C P (request_pkt req) s s')"
proof -
  note own = owner_writes [OF assms(3,8,9,7,10)]
  have small: "unat sz < 2 ^ 31" using carried_bytes(3) [OF assms(11)] assms(8) write_req_small by simp
  obtain s' where x: "t1 = t'" "packet_xchg C (request_pkt req) (cx_junk C) s
      = Some (0, read_into (cx_junk C) (response_pkt (status_answer n)), s')" "sent_request C P (request_pkt req) s s'"
    by (rule system_exchange [OF assms(1,2,11,12) own status_answer_ok assms(13) disjI2 [OF status_answer_read(1)]])
  from write_response [OF assms(2,4-7) small x(2) [unfolded assms(8)]] x show ?thesis by auto
qed

theorem write_through_server_witness:
  "\<exists>h. carried (sample_carrier (write_req ''amy'' bob_file [1, 2] 2 1) (status_answer (- 5)))
       (write_req ''amy'' bob_file [1, 2] 2 1) h \<and>
     client_rsrc_write (asking (status_answer (- 5))) bob_file [1, 2] 2 1 new_proc = None"
proof -
  let ?rsp = "status_answer (- 5)" and ?req = "write_req ''amy'' bob_file [1, 2] 2 1"
  let ?C = "asking ?rsp" and ?S = "sample_carrier ?req ?rsp"
  obtain t' where spec: "pwrite_file owner_ctx ''/home/bob/f'' (Some (take (unat (2 :: u64)) [1, 2])) 2 1 new_proc = (- 5, t')"
    using owner_calls(2) by blast
  have path: "middfs_localpath_tmp owner_ctx (mr_path (cr_rsrc bob_file)) = Some ''/home/bob/f''" by simp
  have len: "unat (2 :: u64) \<le> length [1, 2 :: byte]" by simp
  note own = owner_writes [OF owner_facts(2) refl path len spec, of "''amy''"]
  have rsrc: "mreq_rsrc ?req = sample_rsrc" by simp
  obtain h where h: "carried ?S ?req h"
    "owner_serves owner_ctx (sent h (ss_peer ?S)) new_proc (enc_pkt (ss_rsp ?S)) t'"
    "reaches ?C new_proc the_peer (sent h (ss_client ?S))"
    by (rule sample_system [OF sample_reqs_ok(2) status_answer_ok rsrc owner_facts(4) own])
  have user: "conf_get (cx_mem ?C) (cx_env ?C) MIDDFS_CONF_USERNAME = Some ''amy''" by (simp add: peer_conf)
  from write_through_server [OF owner_facts(1) _ owner_facts(2) _ user _ len refl path spec h] h(1)
  show ?thesis by auto
qed

text \<open>C3: \<open>access\<close>, \<open>truncate\<close> and \<open>rename\<close> are transparent: on another user's resource they
  return what the owner's own client returns for the same operation, error numbers included,
  and the owner's process is left as that would leave it. (The other name of a rename is taken
  for one of the same owner.)\<close>

theorem status_through_server:
  assumes "\<forall>k. can_alloc (cx_mem B) k" "\<forall>k. can_alloc (cx_mem C) k" "os_ok (cx_os B)"
    "cr_type cr = MR_NETWORK" "remote_op oper"
    "run_status B (owner_op oper) (as_owner cr) t = Some (n, t')"
    "carried S (status_request C oper cr) h" "owner_serves B (sent h (ss_peer S)) t (enc_pkt (ss_rsp S)) t1"
    "reaches C s P (sent h (ss_client S))"
  shows "t1 = t' \<and>
    (\<exists>s'. run_status C oper cr s = Some (n, s') \<and>
       sent_request C P (request_pkt (status_request C oper cr)) s s')"
proof -
  note own = owner_status [OF assms(3,5,6), of C]
  obtain s' where x: "t1 = t'" "packet_xchg C (request_pkt (status_request C oper cr)) zero_packet s
      = Some (0, canon_pkt (response_pkt (status_answer n)), s')"
    "sent_request C P (request_pkt (status_request C oper cr)) s s'"
    by (rule system_exchange_zeroed [OF assms(1,2,7,8) own [THEN conjunct1] status_answer_ok assms(9)])
  with status_response [OF x(2)] own run_status_network [OF assms(4,5)] show ?thesis by simp
qed

theorem status_through_server_witness:
  "\<exists>h s'. carried (sample_carrier ((plain_request MREQ_ACCESS)\<lparr>mreq_mode := 4\<rparr>) (status_answer (- 13))) ((plain_request MREQ_ACCESS)\<lparr>mreq_mode := 4\<rparr>) h \<and>
     client_rsrc_access (asking (status_answer (- 13))) bob_file 4 new_proc = Some (- 13, s')"
proof -
  let ?rsp = "status_answer (- 13)"
  let ?C = "asking ?rsp" and ?S = "sample_carrier ((plain_request MREQ_ACCESS)\<lparr>mreq_mode := 4\<rparr>) ?rsp"
  note req = sample_reqs_eq(2) [of ?rsp]
  obtain t' where spec: "run_status owner_ctx (owner_op (St_access 4)) (as_owner bob_file) new_proc = Some (- 13, t')"
    using owner_calls(3) by blast
  have oper: "remote_op (St_access 4)" by (simp add: remote_op_def is_int_def)
  note own = owner_status [OF owner_facts(2) oper spec, of ?C, unfolded req]
  have rsrc: "mreq_rsrc ((plain_request MREQ_ACCESS)\<lparr>mreq_mode := 4\<rparr>) = sample_rsrc" by simp
  obtain h where h: "carried ?S ((plain_request MREQ_ACCESS)\<lparr>mreq_mode := 4\<rparr>) h"
    "owner_serves owner_ctx (sent h (ss_peer ?S)) new_proc (enc_pkt (ss_rsp ?S)) t'"
    "reaches ?C new_proc the_peer (sent h (ss_client ?S))"
    by (rule sample_system [OF sample_reqs_ok(3) status_answer_ok rsrc owner_facts(4) own [THEN conjunct1]])
  have c: "carried ?S (status_request ?C (St_access 4) bob_file) h" unfolding req by (rule h(1))
  from status_through_server [OF owner_facts(1) _ owner_facts(2) _ oper spec c h(2,3)] h(1)
  show ?thesis by (auto simp: run_status_def)
qed

text \<open>C5: Opening another user's file returns 0 when the owner can open it with the flags, and the
  negated error number otherwise; the owner does not keep it open.\<close>

theorem open_through_server:
  assumes "\<forall>k. can_alloc (cx_mem B) k" "\<forall>k. can_alloc (cx_mem C) k" "os_ok (cx_os B)"
    "cr_type cr = MR_NETWORK" "is_int flags" "flags AND O_CREAT \<noteq> 0 \<longrightarrow> varg \<noteq> None"
    "middfs_localpath_tmp B (mr_path (cr_rsrc cr)) = Some path" "tried_open B path flags t = (n, t')"
    "carried S (open_request C flags cr) h" "owner_serves B (sent h (ss_peer S)) t (enc_pkt (ss_rsp S)) t1"
    "reaches C s P (sent h (ss_client S))"
  shows "t1 = t' \<and>
    (\<exists>s'. client_rsrc_open C cr flags varg s = Some (n, cr, s') \<and>
       sent_request C P (request_pkt (open_request C flags cr)) s s')"
proof -
  note own = owner_opens [OF assms(3,5,7,8), of C]
  obtain s' where x: "t1 = t'" "packet_xchg C (request_pkt (open_request C flags cr)) zero_packet s
      = Some (0, canon_pkt (response_pkt (status_answer n)), s')"
    "sent_request C P (request_pkt (open_request C flags cr)) s s'"
    by (rule system_exchange_zeroed [OF assms(1,2,9,10) own [THEN conjunct1] status_answer_ok assms(11)])
  with open_response [OF assms(4) _ x(2)] own assms(6) show ?thesis by auto
qed

theorem open_through_server_witness:
  "\<exists>h s'. carried (sample_carrier ((plain_request MREQ_OPEN)\<lparr>mreq_mode := 2\<rparr>) (status_answer 0)) ((plain_request MREQ_OPEN)\<lparr>mreq_mode := 2\<rparr>) h \<and>
     client_rsrc_open (asking (status_answer 0)) bob_file 2 None new_proc = Some (0, bob_file, s')"
proof -
  let ?rsp = "status_answer 0"
  let ?C = "asking ?rsp" and ?S = "sample_carrier ((plain_request MREQ_OPEN)\<lparr>mreq_mode := 2\<rparr>) ?rsp"
  note req = sample_reqs_eq(3) [of ?rsp]
  obtain t' where spec: "tried_open owner_ctx ''/home/bob/f'' 2 new_proc = (0, t')" using owner_calls(4) by blast
  have path: "middfs_localpath_tmp owner_ctx (mr_path (cr_rsrc bob_file)) = Some ''/home/bob/f''" by simp
  have flags: "is_int 2" "2 AND O_CREAT \<noteq> 0 \<longrightarrow> (None :: int option) \<noteq> None"
    by (simp_all add: is_int_def O_CREAT_def)
  note own = owner_opens [OF owner_facts(2) flags(1) path spec, of ?C, unfolded req]
  have rsrc: "mreq_rsrc ((plain_request MREQ_OPEN)\<lparr>mreq_mode := 2\<rparr>) = sample_rsrc" by simp
  obtain h where h: "carried ?S ((plain_request MREQ_OPEN)\<lparr>mreq_mode := 2\<rparr>) h"
    "owner_serves owner_ctx (sent h (ss_peer ?S)) new_proc (enc_pkt (ss_rsp ?S)) t'"
    "reaches ?C new_proc the_peer (sent h (ss_client ?S))"
    by (rule sample_system [OF sample_reqs_ok(4) status_answer_ok rsrc owner_facts(4) own [THEN conjunct1]])
  have c: "carried ?S (open_request ?C 2 bob_file) h" unfolding req by (rule h(1))
  from open_through_server [OF owner_facts(1) _ owner_facts(2) _ flags path spec c h(2,3)] h(1)
  show ?thesis by auto
qed

text \<open>C6: The attributes of another user's file: mode, size, blocks and block size are those the
  owner's \<open>stat\<close> gives, the user and group are the requester's, and an error of \<open>stat\<close> comes back
  as its negated number, whatever the uninitialised packet for the response held. (It is \<open>stat\<close> at the owner where a local file is looked at with
  \<open>lstat\<close>: a link of another user shows as its target.)\<close>

theorem getattr_through_server:
  assumes "\<forall>k. can_alloc (cx_mem B) k" "\<forall>k. can_alloc (cx_mem C) k" "os_ok (cx_os B)"
    "cr_type cr = MR_NETWORK"
    "middfs_localpath_tmp B (mr_path (cr_rsrc cr)) = Some path" "stat_file B path t = (n, st, t')"
    "carried S (getattr_request C cr) h" "owner_serves B (sent h (ss_peer S)) t (enc_pkt (ss_rsp S)) t1"
    "reaches C s P (sent h (ss_client S))"
  shows "t1 = t' \<and>
    (\<exists>s'. client_rsrc_lstat C cr s
         = Some (n, if n < 0 then zero_stat_buf else stat_of_response C (sent_stat st), s') \<and>
       sent_request C P (request_pkt (getattr_request C cr)) s s')"
proof -
  note own = owner_stats [OF assms(3,5,6), of C]
  obtain s' where x: "t1 = t'" "packet_xchg C (request_pkt (getattr_request C cr)) (cx_junk C) s
      = Some (0, read_into (cx_junk C) (response_pkt (stat_answer n st)), s')"
    "sent_request C P (request_pkt (getattr_request C cr)) s s'"
    by (rule system_exchange [OF assms(1,2,7,8) own [THEN conjunct1] stat_answer_ok assms(9)
          disjI2 [OF stat_answer_read(1)]])
  with stat_response [OF assms(4) x(2)] own show ?thesis by simp
qed

theorem getattr_through_server_witness:
  "\<exists>h s'. carried (sample_carrier (plain_request MREQ_GETATTR) (stat_answer 0 f_stat)) (plain_request MREQ_GETATTR) h \<and>
     client_rsrc_lstat (asking (stat_answer 0 f_stat)) bob_file new_proc
       = Some (0, f_stat\<lparr>st_uid := 7, st_gid := 7, st_nlink := 1\<rparr>, s')"
proof -
  let ?rsp = "stat_answer 0 f_stat"
  let ?C = "asking ?rsp" and ?S = "sample_carrier (plain_request MREQ_GETATTR) ?rsp"
  note req = sample_reqs_eq(4) [of ?rsp]
  obtain t' where spec: "stat_file owner_ctx ''/home/bob/f'' new_proc = (0, f_stat, t')" using owner_calls(5) by blast
  have path: "middfs_localpath_tmp owner_ctx (mr_path (cr_rsrc bob_file)) = Some ''/home/bob/f''" by simp
  note own = owner_stats [OF owner_facts(2) path spec, of ?C, unfolded req]
  obtain h where h: "carried ?S (plain_request MREQ_GETATTR) h"
    "owner_serves owner_ctx (sent h (ss_peer ?S)) new_proc (enc_pkt (ss_rsp ?S)) t'"
    "reaches ?C new_proc the_peer (sent h (ss_client ?S))"
    by (rule sample_system [OF sample_reqs_ok(5) stat_answer_ok sample_reqs_rsrc(2) owner_facts(4) own [THEN conjunct1]])
  have c: "carried ?S (getattr_request ?C bob_file) h" unfolding req by (rule h(1))
  have "stat_of_response ?C (sent_stat f_stat) = f_stat\<lparr>st_uid := 7, st_gid := 7, st_nlink := 1\<rparr>"
    by (simp add: stat_of_response_def sent_stat_def f_stat_def zero_stat_buf_def asking_def peer_ctx_def)
  with getattr_through_server [OF owner_facts(1) _ owner_facts(2) _ path spec c h(2,3)] h(1)
  show ?thesis by auto
qed

text \<open>C4: Listing another user's directory shows the entries of the owner's directory in the owner's
  order, as a listing of the owner's would but without inode numbers, until the caller's buffer is
  full; if the owner cannot open it, the negated error number comes back and nothing is shown.
  (The directory must not change between the owner's two passes, and the response must fit.)\<close>

theorem readdir_through_server:
  assumes "\<forall>k. can_alloc (cx_mem B) k" "\<forall>k. can_alloc (cx_mem C) k" "os_ok (cx_os B)" "steady (cx_os B)"
    "cr_type cr = MR_NETWORK" "middfs_localpath_tmp B (mr_path (cr_rsrc cr)) = Some path"
    "list_dir B path t = (n, es, t')" "length es < 2 ^ 31" "pkt_ok (response_pkt (dir_answer n es))"
    "carried S (dir_request C cr) h" "owner_serves B (sent h (ss_peer S)) t (enc_pkt (ss_rsp S)) t1"
    "reaches C s P (sent h (ss_client S))"
  shows "t1 = t' \<and>
    (\<exists>s'. client_rsrc_readdir C cr filler buf s
         = Some (n, cr, if n < 0 then buf else fill_entries filler (map no_inode es) buf, s') \<and>
       sent_request C P (request_pkt (dir_request C cr)) s s')"
proof -
  note own = owner_lists [OF assms(1,3,4,6,7,8), of C]
  obtain s' where x: "t1 = t'" "packet_xchg C (request_pkt (dir_request C cr)) zero_packet s
      = Some (0, canon_pkt (response_pkt (dir_answer n es)), s')"
    "sent_request C P (request_pkt (dir_request C cr)) s s'"
    by (rule system_exchange_zeroed [OF assms(1,2,10,11) own [THEN conjunct1] assms(9,12)])
  with dir_response [OF assms(5) x(2) _ _ assms(8), of filler buf] own show ?thesis by auto
qed

theorem readdir_through_server_witness:
  "\<exists>h s'. carried (sample_carrier (plain_request MREQ_READDIR) (dir_answer 0 [f_entry])) (plain_request MREQ_READDIR) h \<and>
     client_rsrc_readdir (asking (dir_answer 0 [f_entry])) bob_file (\<lambda>name st buf. (False, buf @ [name])) [] new_proc
       = Some (0, bob_file, [Some ''f''], s')"
proof -
  let ?rsp = "dir_answer 0 [f_entry]"
  let ?C = "asking ?rsp" and ?S = "sample_carrier (plain_request MREQ_READDIR) ?rsp"
  note req = sample_reqs_eq(5) [of ?rsp]
  obtain t' where spec: "list_dir owner_ctx ''/home/bob/f'' new_proc = (0, [f_entry], t')" using owner_calls(6) by blast
  have path: "middfs_localpath_tmp owner_ctx (mr_path (cr_rsrc bob_file)) = Some ''/home/bob/f''" by simp
  have small: "length [f_entry] < 2 ^ 31" by simp
  note own = owner_lists [OF owner_facts(1-3) path spec small, of ?C, unfolded req]
  obtain h where h: "carried ?S (plain_request MREQ_READDIR) h"
    "owner_serves owner_ctx (sent h (ss_peer ?S)) new_proc (enc_pkt (ss_rsp ?S)) t'"
    "reaches ?C new_proc the_peer (sent h (ss_client ?S))"
    by (rule sample_system [OF sample_reqs_ok(6) f_answer_ok sample_reqs_rsrc(2) owner_facts(4) own [THEN conjunct1]])
  have c: "carried ?S (dir_request ?C bob_file) h" unfolding req by (rule h(1))
  from readdir_through_server [OF owner_facts(1) _ owner_facts(2,3) _ path spec small f_answer_ok c h(2,3),
      of "\<lambda>name st buf. (False, buf @ [name])" "[]"] h(1)
  show ?thesis by (auto simp: no_inode_def f_entry_def)
qed

end
